(* ===== verification/Config.thy ===== *)
theory Config
  imports Prelude
begin

section \<open>Configuration: \<open>internal/config\<close>\<close>

text \<open>
  The configuration structs, \<open>Load\<close> with \<open>validate\<close> and \<open>applyDefaults\<close>, and the host check.
  Reading the file and the YAML decoder are parameters of \<open>Load\<close>. Errors are their messages.
\<close>

subsection \<open>The structs\<close>

record server_config =
  sv_Addr :: string
  sv_ReadTimeout :: duration
  sv_WriteTimeout :: duration
  sv_Domains :: "string list"

record redis_config =
  rd_Enabled :: bool
  rd_Addr :: string
  rd_Password :: string
  rd_DB :: int

record database_config =
  db_Enabled :: bool
  db_DSN :: string
  db_MaxConns :: int
  db_MinConns :: int
  db_TokenRefresh :: duration

record plan =
  pl_TokenIPRateLimitPerSecond :: int
  pl_TokenIPRateLimitBurst :: int
  pl_TokenRateLimitPerSecond :: int
  pl_TokenRateLimitBurst :: int
  pl_DailyQuota :: int
  pl_DeniedMethods :: "string list"

record token_config =
  tc_Key :: string
  tc_Plan :: string
  tc_Name :: string
  tc_Enabled :: bool
  tc_BillingFree :: bool

record node_config =
  nc_Name :: string
  nc_URL :: string
  nc_WSURL :: string
  nc_Weight :: int

record chain =
  ch_Name :: string
  ch_Nodes :: "node_config list"

record health_check_config =
  hc_Interval :: duration
  hc_Timeout :: duration
  hc_UnhealthyThreshold :: int
  hc_HealthyThreshold :: int

record billing_config =
  bl_Publisher :: string
  bl_StreamKey :: string

record admin_jwt_config =
  aj_Secret :: string
  aj_Issuer :: string
  aj_Subject :: string
  aj_TTL :: duration
  aj_RotateEvery :: duration
  aj_RotateOnStart :: bool
  aj_RevokePrevious :: bool
  aj_CleanupRetention :: duration
  aj_LogToken :: bool

record admin_config =
  ad_Enabled :: bool
  ad_JWT :: admin_jwt_config

record websocket_config =
  ws_Enabled :: bool
  ws_MaxConnectionsPerToken :: int
  ws_MaxSubscriptionsPerConn :: int
  ws_NotificationBillUnits :: int

record config =
  cf_Server :: server_config
  cf_Redis :: redis_config
  cf_Database :: database_config
  cf_Plans :: "string \<rightharpoonup> plan"
  cf_Tokens :: "token_config list"
  cf_Chains :: "string \<rightharpoonup> chain"
  cf_HealthCheck :: health_check_config
  cf_Billing :: billing_config
  cf_Admin :: admin_config
  cf_WebSocket :: websocket_config

subsection \<open>Defaults\<close>

definition defaultBurst :: "int \<Rightarrow> int \<Rightarrow> int" where
  "defaultBurst rps burst = (if burst > 0 then burst else if rps > 0 then rps else 1)"

definition normalizeHost :: "(string \<Rightarrow> string) \<Rightarrow> string \<Rightarrow> string" where
  "normalizeHost ulower host =
     (let host = trim_space (to_lower ulower host)
      in if host = [] then []
         else
           let host = trim_prefix ''http://'' host;
               host = trim_prefix ''https://'' host;
               host = trim_suffix ''/'' host
           in before (CHR '':'') host)"

text \<open>The loop over the domains: \<open>seen\<close> and the list built so far are the loop's variables.\<close>

fun normalize_domains :: "(string \<Rightarrow> string) \<Rightarrow> string list \<Rightarrow> string set \<Rightarrow> string list \<Rightarrow> string list" where
  "normalize_domains ulower [] seen normalized = normalized"
| "normalize_domains ulower (d # ds) seen normalized =
     (let d = normalizeHost ulower d
      in if d = [] then normalize_domains ulower ds seen normalized
         else if d \<in> seen then normalize_domains ulower ds seen normalized
         else normalize_domains ulower ds (insert d seen) (normalized @ [d]))"

definition default_server :: "server_config \<Rightarrow> server_config" where
  "default_server s =
     s\<lparr>sv_Addr := (if sv_Addr s = [] then '':8080'' else sv_Addr s),
       sv_ReadTimeout := (if sv_ReadTimeout s = 0 then 30 * second else sv_ReadTimeout s),
       sv_WriteTimeout := (if sv_WriteTimeout s = 0 then 60 * second else sv_WriteTimeout s)\<rparr>"

definition default_health_check :: "health_check_config \<Rightarrow> health_check_config" where
  "default_health_check h =
     h\<lparr>hc_Interval := (if hc_Interval h = 0 then 30 * second else hc_Interval h),
       hc_Timeout := (if hc_Timeout h = 0 then 5 * second else hc_Timeout h),
       hc_UnhealthyThreshold := (if hc_UnhealthyThreshold h \<le> 0 then 3 else hc_UnhealthyThreshold h),
       hc_HealthyThreshold := (if hc_HealthyThreshold h \<le> 0 then 2 else hc_HealthyThreshold h)\<rparr>"

definition default_billing :: "billing_config \<Rightarrow> billing_config" where
  "default_billing b =
     b\<lparr>bl_Publisher := (if bl_Publisher b = [] then ''log'' else bl_Publisher b),
       bl_StreamKey := (if bl_StreamKey b = [] then ''rpc:billing:events'' else bl_StreamKey b)\<rparr>"

definition default_database :: "database_config \<Rightarrow> database_config" where
  "default_database d =
     d\<lparr>db_TokenRefresh := (if db_TokenRefresh d = 0 then 30 * second else db_TokenRefresh d),
       db_MaxConns := (if db_MaxConns d = 0 then 10 else db_MaxConns d)\<rparr>"

definition default_admin_jwt :: "admin_jwt_config \<Rightarrow> admin_jwt_config" where
  "default_admin_jwt j =
     j\<lparr>aj_Issuer := (if aj_Issuer j = [] then ''rpc-node-gateway'' else aj_Issuer j),
       aj_Subject := (if aj_Subject j = [] then ''admin-stats'' else aj_Subject j),
       aj_TTL := (if aj_TTL j = 0 then 24 * hour else aj_TTL j),
       aj_RotateEvery := (if aj_RotateEvery j = 0 then hour else aj_RotateEvery j),
       aj_CleanupRetention := (if aj_CleanupRetention j = 0 then 7 * 24 * hour else aj_CleanupRetention j)\<rparr>"

definition default_websocket :: "websocket_config \<Rightarrow> websocket_config" where
  "default_websocket w =
     w\<lparr>ws_MaxConnectionsPerToken := (if ws_MaxConnectionsPerToken w \<le> 0 then 5 else ws_MaxConnectionsPerToken w),
       ws_MaxSubscriptionsPerConn := (if ws_MaxSubscriptionsPerConn w \<le> 0 then 20 else ws_MaxSubscriptionsPerConn w),
       ws_NotificationBillUnits := (if ws_NotificationBillUnits w \<le> 0 then 1 else ws_NotificationBillUnits w)\<rparr>"

definition default_plan :: "plan \<Rightarrow> plan" where
  "default_plan p =
     p\<lparr>pl_TokenIPRateLimitBurst := defaultBurst (pl_TokenIPRateLimitPerSecond p) (pl_TokenIPRateLimitBurst p),
       pl_TokenRateLimitBurst := defaultBurst (pl_TokenRateLimitPerSecond p) (pl_TokenRateLimitBurst p)\<rparr>"

definition default_node :: "node_config \<Rightarrow> node_config" where
  "default_node n = n\<lparr>nc_Weight := (if nc_Weight n \<le> 0 then 1 else nc_Weight n)\<rparr>"

definition default_chain :: "chain \<Rightarrow> chain" where
  "default_chain c = c\<lparr>ch_Nodes := map default_node (ch_Nodes c)\<rparr>"

text \<open>
  The assignments in the order of the code, grouped by the struct they change. The two loops over
  maps assign each key once, so their order does not matter.
\<close>

definition applyDefaults :: "(string \<Rightarrow> string) \<Rightarrow> config \<Rightarrow> config" where
  "applyDefaults ulower c =
     c\<lparr>cf_Server :=
         (default_server (cf_Server c))
           \<lparr>sv_Domains := normalize_domains ulower (sv_Domains (cf_Server c)) {} []\<rparr>,
       cf_HealthCheck := default_health_check (cf_HealthCheck c),
       cf_Billing := default_billing (cf_Billing c),
       cf_Database := default_database (cf_Database c),
       cf_Admin := (cf_Admin c)\<lparr>ad_JWT := default_admin_jwt (ad_JWT (cf_Admin c))\<rparr>,
       cf_WebSocket := default_websocket (cf_WebSocket c),
       cf_Plans := (\<lambda>k. map_option default_plan (cf_Plans c k)),
       cf_Chains := (\<lambda>k. map_option default_chain (cf_Chains c k))\<rparr>"

subsection \<open>The host check\<close>

definition HostAllowed :: "(string \<Rightarrow> string) \<Rightarrow> string list \<Rightarrow> string \<Rightarrow> bool" where
  "HostAllowed ulower domains host =
     (if length domains = 0 then True
      else (let host = normalizeHost ulower host in list_ex (\<lambda>d. d = host) domains))"

subsection \<open>Validation and loading\<close>

text \<open>
  \<open>ids\<close> is the order in which the chains are visited. \<open>Inl\<close> is the error message, \<open>Inr ()\<close> is nil.
\<close>

fun validate_chains :: "(string \<rightharpoonup> chain) \<Rightarrow> string list \<Rightarrow> string + unit" where
  "validate_chains m [] = Inr ()"
| "validate_chains m (c # cs) =
     (case m c of
        None \<Rightarrow> validate_chains m cs
      | Some ch \<Rightarrow>
          if length (ch_Nodes ch) = 0
          then Inl (''config: chain '' @ show_quoted c @ '' has no nodes'')
          else validate_chains m cs)"

fun validate_tokens :: "(string \<rightharpoonup> plan) \<Rightarrow> token_config list \<Rightarrow> string + unit" where
  "validate_tokens plans [] = Inr ()"
| "validate_tokens plans (t # ts) =
     (if tc_Key t = [] then Inl ''config: token key is empty''
      else if CHR ''/'' \<in> set (tc_Key t)
        then Inl (''config: token key '' @ show_quoted (tc_Key t) @ '' must not contain '' @ [CHR 0x27] @ ''/'' @ [CHR 0x27])
      else if plans \<noteq> Map.empty \<and> plans (tc_Plan t) = None
        then Inl (''config: token '' @ show_quoted (tc_Key t) @ '' references unknown plan '' @ show_quoted (tc_Plan t))
      else validate_tokens plans ts)"

definition validate :: "string list \<Rightarrow> config \<Rightarrow> string + unit" where
  "validate ids c =
     (if cf_Chains c = Map.empty then Inl ''config: at least one chain is required''
      else case validate_chains (cf_Chains c) ids of
        Inl e \<Rightarrow> Inl e
      | Inr _ \<Rightarrow>
          if \<not> db_Enabled (cf_Database c) \<and> cf_Plans c = Map.empty
            then Inl ''config: at least one plan is required when database.enabled=false''
          else if \<not> db_Enabled (cf_Database c) \<and> length (cf_Tokens c) = 0
            then Inl ''config: at least one token is required when database.enabled=false''
          else if db_Enabled (cf_Database c) \<and> db_DSN (cf_Database c) = []
            then Inl ''config: database.dsn is required when database.enabled=true''
          else if ad_Enabled (cf_Admin c) \<and> trim_space (aj_Secret (ad_JWT (cf_Admin c))) = []
            then Inl ''config: admin.jwt.secret is required when admin.enabled=true''
          else validate_tokens (cf_Plans c) (cf_Tokens c))"

definition Load ::
  "(string \<Rightarrow> string) \<Rightarrow> (string \<Rightarrow> string + string) \<Rightarrow> (string \<Rightarrow> string + config)
    \<Rightarrow> string list \<Rightarrow> string \<Rightarrow> string + config" where
  "Load ulower read_file yaml_unmarshal ids path =
     (case read_file path of
        Inl e \<Rightarrow> Inl (''read config: '' @ e)
      | Inr data \<Rightarrow>
          (case yaml_unmarshal data of
             Inl e \<Rightarrow> Inl (''parse config: '' @ e)
           | Inr cfg \<Rightarrow>
               (case validate ids cfg of
                  Inl e \<Rightarrow> Inl e
                | Inr _ \<Rightarrow> Inr (applyDefaults ulower cfg))))"

subsection \<open>Domains\<close>

lemma normalize_domains_keeps:
  "seen = set acc \<Longrightarrow> distinct acc \<Longrightarrow> [] \<notin> set acc \<Longrightarrow>
   distinct (normalize_domains ul ds seen acc) \<and> [] \<notin> set (normalize_domains ul ds seen acc) \<and>
   set (normalize_domains ul ds seen acc) = set acc \<union> (normalizeHost ul ` set ds - {[]})"
proof (induction ds arbitrary: seen acc)
  case Nil
  then show ?case by simp
next
  case (Cons d ds)
  let ?d = "normalizeHost ul d"
  show ?case
  proof (cases "?d = [] \<or> ?d \<in> seen")
    case True
    with Cons.IH [OF Cons.prems] Cons.prems show ?thesis by (auto simp: Let_def)
  next
    case False
    with Cons.IH [of "insert ?d seen" "acc @ [?d]"] Cons.prems show ?thesis by (auto simp: Let_def)
  qed
qed

lemma normalizeHost_no_colon: "CHR '':'' \<notin> set (normalizeHost ul h)"
  by (auto simp: normalizeHost_def before_def Let_def dest: set_takeWhileD)

lemma HostAllowed_iff: "HostAllowed ul ds h \<longleftrightarrow> ds = [] \<or> normalizeHost ul h \<in> set ds"
  by (auto simp: HostAllowed_def list_ex_iff)

text \<open>Characters of a host name or a port: nothing that trimming could remove.\<close>

definition host_char :: "char \<Rightarrow> bool" where
  "host_char c \<longleftrightarrow> (let n = (of_char c :: nat) in
     45 \<le> n \<and> n \<le> 46 \<or> 48 \<le> n \<and> n \<le> 57 \<or> 65 \<le> n \<and> n \<le> 90 \<or> 95 = n \<or> 97 \<le> n \<and> n \<le> 122)"

definition plain_char :: "char \<Rightarrow> bool" where
  "plain_char c \<longleftrightarrow> 33 \<le> (of_char c :: nat) \<and> (of_char c :: nat) < 127"

lemma space_runes_not_plain:
  "p \<in> set space_runes \<Longrightarrow> p \<noteq> [] \<and> \<not> plain_char (hd p) \<and> \<not> plain_char (hd (rev p))"
proof -
  have "list_all (\<lambda>p. p \<noteq> [] \<and> \<not> plain_char (hd p) \<and> \<not> plain_char (hd (rev p))) space_runes"
    by (simp add: space_runes_def plain_char_def)
  then show "p \<in> set space_runes \<Longrightarrow> ?thesis" by (simp add: list_all_iff)
qed

lemma strip_id:
  assumes "\<And>p. p \<in> set ps \<Longrightarrow> p \<noteq> [] \<and> \<not> plain_char (hd p)" "s \<noteq> []" "plain_char (hd s)"
  shows "strip ps s = s"
proof -
  have "\<not> has_prefix p s" if "p \<in> set ps" for p
    using assms(1) [OF that] assms(2,3) by (cases p) (auto simp: has_prefix_iff)
  then have "find (\<lambda>p. has_prefix p s) ps = None" by (auto simp: find_None_iff)
  then show ?thesis by (simp add: strip.simps)
qed

lemma trim_space_id:
  assumes "s \<noteq> []" "plain_char (hd s)" "plain_char (last s)"
  shows "trim_space s = s"
proof -
  have "strip space_runes s = s"
    using space_runes_not_plain assms by (intro strip_id) auto
  moreover have "strip (map rev space_runes) (rev s) = rev s"
    using space_runes_not_plain assms by (intro strip_id) (auto simp: hd_rev)
  ultimately show ?thesis by (simp add: trim_space_def)
qed

lemma has_prefix_set: "has_prefix p s \<Longrightarrow> set p \<subseteq> set s"
  by (auto simp: has_prefix_iff)

lemma no_slash_trims:
  assumes "CHR ''/'' \<notin> set s"
  shows "trim_prefix ''http://'' s = s" "trim_prefix ''https://'' s = s" "trim_suffix ''/'' s = s"
  using assms has_prefix_set [of "''http://''" s] has_prefix_set [of "''https://''" s]
    has_prefix_set [of "''/''" "rev s"]
  by (auto simp: trim_prefix_def trim_suffix_def has_suffix_def)

lemma lower_char_of: "(of_char (lower_char c) :: nat) =
    (if 65 \<le> (of_char c :: nat) \<and> (of_char c :: nat) \<le> 90 then of_char c + 32 else of_char c)"
proof -
  have "(of_char c :: nat) < 256" by simp
  then show ?thesis by (auto simp: lower_char_def Let_def)
qed

lemma host_charD:
  assumes "host_char c"
  shows "plain_char (lower_char c)" "lower_char c \<noteq> CHR ''/''" "lower_char c \<noteq> CHR '':''" "(of_char c :: nat) < 128"
proof -
  show "plain_char (lower_char c)" "(of_char c :: nat) < 128"
    using assms by (auto simp: host_char_def plain_char_def lower_char_of Let_def)
  have "(of_char (lower_char c) :: nat) \<noteq> 47" "(of_char (lower_char c) :: nat) \<noteq> 58"
    using assms by (auto simp: host_char_def lower_char_of Let_def)
  then show "lower_char c \<noteq> CHR ''/''" "lower_char c \<noteq> CHR '':''" by auto
qed

lemma normalizeHost_plain:
  assumes "h \<noteq> []" "list_all host_char h"
  shows "normalizeHost ul h = map lower_char h"
proof -
  let ?h = "map lower_char h"
  have "is_ascii h" using assms(2) host_charD(4) by (auto simp: is_ascii_def list_all_iff)
  then have 1: "to_lower ul h = ?h" by (simp add: to_lower_def)
  have 2: "trim_space ?h = ?h"
    using assms host_charD(1) by (intro trim_space_id) (auto simp: list_all_iff hd_map last_map)
  have "CHR ''/'' \<notin> set ?h" using assms(2) host_charD(2) by (auto simp: list_all_iff) metis
  note 3 = no_slash_trims [OF this]
  have 4: "before (CHR '':'') ?h = ?h"
    unfolding before_def takeWhile_eq_all_conv using assms(2) host_charD(3) by (auto simp: list_all_iff)
  from assms(1) show ?thesis by (simp add: normalizeHost_def 1 2 3 4 Let_def)
qed

lemma normalizeHost_port:
  assumes "h \<noteq> []" "list_all host_char h" "p \<noteq> []" "list_all host_char p"
  shows "normalizeHost ul (h @ CHR '':'' # p) = map lower_char h"
proof -
  let ?s = "map lower_char h @ CHR '':'' # map lower_char p"
  have "is_ascii (h @ CHR '':'' # p)"
    using assms(2,4) host_charD(4) by (auto simp: is_ascii_def list_all_iff)
  moreover have "lower_char (CHR '':'') = CHR '':''" by (simp add: lower_char_def)
  ultimately have 1: "to_lower ul (h @ CHR '':'' # p) = ?s" by (simp add: to_lower_def)
  have 2: "trim_space ?s = ?s"
    using assms host_charD(1) by (intro trim_space_id) (auto simp: list_all_iff hd_append hd_map last_map)
  have "CHR ''/'' \<notin> set ?s" using assms(2,4) host_charD(2) by (auto simp: list_all_iff) metis+
  note 3 = no_slash_trims [OF this]
  have "\<forall>x \<in> set (map lower_char h). x \<noteq> CHR '':''"
    using assms(2) host_charD(3) by (auto simp: list_all_iff)
  then have 4: "before (CHR '':'') ?s = map lower_char h"
    unfolding before_def by (subst takeWhile_append2) auto
  from assms(1) show ?thesis by (simp add: normalizeHost_def 1 2 3 4 Let_def)
qed

subsection \<open>Validation\<close>

lemma validate_chains_Inr:
  "validate_chains m ids = Inr u \<longleftrightarrow> (\<forall>c \<in> set ids. \<forall>ch. m c = Some ch \<longrightarrow> ch_Nodes ch \<noteq> [])"
  by (induction ids) (auto split: option.split)

lemma validate_tokens_Inr:
  "validate_tokens plans ts = Inr u \<longleftrightarrow>
     (\<forall>t \<in> set ts. tc_Key t \<noteq> [] \<and> CHR ''/'' \<notin> set (tc_Key t) \<and>
        (plans = Map.empty \<or> plans (tc_Plan t) \<noteq> None))"
  by (induction ts) auto

end
