(* ===== verification/Json.thy ===== *)
theory Json
  imports Prelude
begin

section \<open>JSON: the part of \<open>encoding/json\<close> that the gateway uses\<close>

text \<open>
  A model of Go's \<open>json.Unmarshal\<close> on the byte level. \<open>parse_json\<close> checks the whole input against
  the JSON grammar, as the package's scanner does (nesting deeper than 10000 is an error), and
  builds a value in which every node keeps its source text, because \<open>json.RawMessage\<close> is that text.
  The \<open>dec_\<close> functions assign a parsed value to a Go variable: \<open>null\<close> leaves a string or a struct
  as it is, another kind of value is an \<open>UnmarshalTypeError\<close>, and the keys of an object are matched
  to field names without regard to case, the last one winning. \<open>None\<close> is the error result.
  The parser has fuel; \<open>pval_fuel\<close> shows that the fuel \<open>parse_json\<close> starts with is always enough.
\<close>

subsection \<open>Values\<close>

datatype jval =
    JNull
  | JBool bool
  | JNum string
  | JStr string string
  | JArr "jval list" string
  | JObj "(string \<times> jval) list" string

fun raw :: "jval \<Rightarrow> string" where
  "raw JNull = ''null''"
| "raw (JBool b) = (if b then ''true'' else ''false'')"
| "raw (JNum s) = s"
| "raw (JStr s r) = r"
| "raw (JArr vs r) = r"
| "raw (JObj ms r) = r"

subsection \<open>Lexical scanning\<close>

definition quote :: char where "quote = CHR 0x22"
definition backslash :: char where "backslash = CHR 0x5C"

definition is_ws :: "char \<Rightarrow> bool" where
  "is_ws c \<longleftrightarrow> c \<in> {CHR 0x20, CHR 0x09, CHR 0x0D, CHR 0x0A}"

definition skip_ws :: "string \<Rightarrow> string" where
  "skip_ws s = dropWhile is_ws s"

definition is_digit :: "char \<Rightarrow> bool" where
  "is_digit c \<longleftrightarrow> (let n = (of_char c :: nat) in 48 \<le> n \<and> n \<le> 57)"

definition is_hex :: "char \<Rightarrow> bool" where
  "is_hex c \<longleftrightarrow> (let n = (of_char c :: nat) in
     48 \<le> n \<and> n \<le> 57 \<or> 97 \<le> n \<and> n \<le> 102 \<or> 65 \<le> n \<and> n \<le> 70)"

text \<open>The text of a string literal after its opening quote, up to the closing one.\<close>

fun scan_str :: "string \<Rightarrow> (string \<times> string) option" where
  "scan_str [] = None"
| "scan_str (c # cs) =
     (if c = quote then Some ([], cs)
      else if c = backslash then
        (case cs of
           [] \<Rightarrow> None
         | e # es \<Rightarrow>
             if e = CHR ''u'' then
               (case es of
                  h1 # h2 # h3 # h4 # es' \<Rightarrow>
                    if is_hex h1 \<and> is_hex h2 \<and> is_hex h3 \<and> is_hex h4 then
                      map_option (\<lambda>(t, r). (c # e # h1 # h2 # h3 # h4 # t, r)) (scan_str es')
                    else None
                | _ \<Rightarrow> None)
             else if e \<in> set ''bfnrt/'' \<or> e = quote \<or> e = backslash then
               map_option (\<lambda>(t, r). (c # e # t, r)) (scan_str es)
             else None)
      else if (of_char c :: nat) < 32 then None
      else map_option (\<lambda>(t, r). (c # t, r)) (scan_str cs))"

text \<open>A number literal: sign, integer part without leading zeros, fraction, exponent.\<close>

definition scan_digits :: "string \<Rightarrow> (string \<times> string) option" where
  "scan_digits s =
     (case takeWhile is_digit s of [] \<Rightarrow> None | ds \<Rightarrow> Some (ds, dropWhile is_digit s))"

definition scan_int :: "string \<Rightarrow> (string \<times> string) option" where
  "scan_int s =
     (case s of
        c # cs \<Rightarrow> if c = CHR ''0'' then Some ([c], cs) else scan_digits s
      | [] \<Rightarrow> None)"

definition scan_frac :: "string \<Rightarrow> (string \<times> string) option" where
  "scan_frac s =
     (case s of
        c # cs \<Rightarrow> if c = CHR ''.'' then map_option (\<lambda>(d, r). (c # d, r)) (scan_digits cs) else Some ([], s)
      | [] \<Rightarrow> Some ([], s))"

definition scan_exp :: "string \<Rightarrow> (string \<times> string) option" where
  "scan_exp s =
     (case s of
        c # cs \<Rightarrow>
          if c = CHR ''e'' \<or> c = CHR ''E'' then
            (case cs of
               g # cs' \<Rightarrow>
                 if g = CHR ''+'' \<or> g = CHR ''-''
                 then map_option (\<lambda>(d, r). (c # g # d, r)) (scan_digits cs')
                 else map_option (\<lambda>(d, r). (c # d, r)) (scan_digits cs)
             | [] \<Rightarrow> None)
          else Some ([], s)
      | [] \<Rightarrow> Some ([], s))"

definition scan_unsigned :: "string \<Rightarrow> (string \<times> string) option" where
  "scan_unsigned s =
     (case scan_int s of
        None \<Rightarrow> None
      | Some (i, r1) \<Rightarrow>
          (case scan_frac r1 of
             None \<Rightarrow> None
           | Some (f, r2) \<Rightarrow> map_option (\<lambda>(e, r3). (i @ f @ e, r3)) (scan_exp r2)))"

definition scan_num :: "string \<Rightarrow> (string \<times> string) option" where
  "scan_num s =
     (case s of
        c # cs \<Rightarrow>
          if c = CHR ''-'' then map_option (\<lambda>(t, r). (c # t, r)) (scan_unsigned cs)
          else scan_unsigned s
      | [] \<Rightarrow> None)"

subsection \<open>The contents of a string literal\<close>

fun tail_ok :: "(nat \<times> nat) list \<Rightarrow> string \<Rightarrow> bool" where
  "tail_ok [] s = True"
| "tail_ok ((lo, hi) # bs) s =
     (case s of [] \<Rightarrow> False | c # cs \<Rightarrow> lo \<le> (of_char c :: nat) \<and> of_char c \<le> hi \<and> tail_ok bs cs)"

text \<open>The length of the valid UTF-8 sequence that starts a string, 0 if there is none.\<close>

definition utf8_size :: "string \<Rightarrow> nat" where
  "utf8_size s =
     (case s of
        [] \<Rightarrow> 0
      | c # cs \<Rightarrow>
          let n = (of_char c :: nat); t = (128, 191)
          in if n < 128 then 1
             else if 194 \<le> n \<and> n \<le> 223 \<and> tail_ok [t] cs then 2
             else if n = 224 \<and> tail_ok [(160, 191), t] cs then 3
             else if n = 237 \<and> tail_ok [(128, 159), t] cs then 3
             else if 225 \<le> n \<and> n \<le> 239 \<and> n \<noteq> 237 \<and> tail_ok [t, t] cs then 3
             else if n = 240 \<and> tail_ok [(144, 191), t, t] cs then 4
             else if 241 \<le> n \<and> n \<le> 243 \<and> tail_ok [t, t, t] cs then 4
             else if n = 244 \<and> tail_ok [(128, 143), t, t] cs then 4
             else 0)"

definition utf8_encode :: "nat \<Rightarrow> string" where
  "utf8_encode r =
     (if r < 128 then [char_of r]
      else if r < 2048 then [char_of (192 + r div 64), char_of (128 + r mod 64)]
      else if r < 65536 then
        [char_of (224 + r div 4096), char_of (128 + r div 64 mod 64), char_of (128 + r mod 64)]
      else
        [char_of (240 + r div 262144), char_of (128 + r div 4096 mod 64),
         char_of (128 + r div 64 mod 64), char_of (128 + r mod 64)])"

definition replacement :: string where
  "replacement = [CHR 0xEF, CHR 0xBF, CHR 0xBD]"

definition hex_val :: "char \<Rightarrow> nat" where
  "hex_val c =
     (let n = (of_char c :: nat) in if n \<le> 57 then n - 48 else if n \<le> 70 then n - 55 else n - 87)"

text \<open>\<open>getu4\<close>: the value of an escape \<open>\uXXXX\<close> at the start of a string.\<close>

definition getu4 :: "string \<Rightarrow> nat option" where
  "getu4 s =
     (case s of
        b # u # h1 # h2 # h3 # h4 # _ \<Rightarrow>
          if b = backslash \<and> u = CHR ''u'' \<and> is_hex h1 \<and> is_hex h2 \<and> is_hex h3 \<and> is_hex h4
          then Some (((hex_val h1 * 16 + hex_val h2) * 16 + hex_val h3) * 16 + hex_val h4)
          else None
      | _ \<Rightarrow> None)"

definition escape_char :: "char \<Rightarrow> char" where
  "escape_char e =
     (if e = CHR ''b'' then CHR 0x08 else if e = CHR ''f'' then CHR 0x0C
      else if e = CHR ''n'' then CHR 0x0A else if e = CHR ''r'' then CHR 0x0D
      else if e = CHR ''t'' then CHR 0x09 else e)"

definition surrogate_pair :: "nat \<Rightarrow> string \<Rightarrow> nat option" where
  "surrogate_pair hi s =
     (case getu4 s of
        Some lo \<Rightarrow>
          if hi < 56320 \<and> 56320 \<le> lo \<and> lo < 57344
          then Some ((hi - 55296) * 1024 + (lo - 56320) + 65536) else None
      | None \<Rightarrow> None)"

function unquote :: "string \<Rightarrow> string" where
  "unquote [] = []"
| "unquote (c # cs) =
     (if c = backslash then
        (case getu4 (c # cs) of
           Some r \<Rightarrow>
             if 55296 \<le> r \<and> r < 57344 then
               (case surrogate_pair r (drop 5 cs) of
                  Some r2 \<Rightarrow> utf8_encode r2 @ unquote (drop 11 cs)
                | None \<Rightarrow> replacement @ unquote (drop 5 cs))
             else utf8_encode r @ unquote (drop 5 cs)
         | None \<Rightarrow> (case cs of [] \<Rightarrow> [] | e # es \<Rightarrow> escape_char e # unquote es))
      else
        let k = utf8_size (c # cs)
        in if k = 0 then replacement @ unquote cs
           else take k (c # cs) @ unquote (drop (k - 1) cs))"
  by pat_completeness auto
termination
  by (relation "measure length") auto

subsection \<open>The parser\<close>

definition max_depth :: nat where "max_depth = 10000"

definition consumed :: "string \<Rightarrow> string \<Rightarrow> string" where
  "consumed s rest = take (length s - length rest) s"

fun pval :: "nat \<Rightarrow> nat \<Rightarrow> string \<Rightarrow> (jval \<times> string) option"
  and pelems :: "nat \<Rightarrow> nat \<Rightarrow> string \<Rightarrow> (jval list \<times> string) option"
  and pmems :: "nat \<Rightarrow> nat \<Rightarrow> string \<Rightarrow> ((string \<times> jval) list \<times> string) option" where
  "pval 0 d s = None"
| "pval (Suc n) d s =
     (case s of
        [] \<Rightarrow> None
      | c # cs \<Rightarrow>
          if c = quote then
            map_option (\<lambda>(t, r). (JStr (unquote t) (consumed s r), r)) (scan_str cs)
          else if c = CHR ''{'' then
            (if max_depth \<le> d then None
             else (case skip_ws cs of
                     [] \<Rightarrow> None
                   | c' # r \<Rightarrow>
                       if c' = CHR ''}'' then Some (JObj [] (consumed s r), r)
                       else map_option (\<lambda>(ms, r). (JObj ms (consumed s r), r)) (pmems n (Suc d) (c' # r))))
          else if c = CHR ''['' then
            (if max_depth \<le> d then None
             else (case skip_ws cs of
                     [] \<Rightarrow> None
                   | c' # r \<Rightarrow>
                       if c' = CHR '']'' then Some (JArr [] (consumed s r), r)
                       else map_option (\<lambda>(vs, r). (JArr vs (consumed s r), r)) (pelems n (Suc d) (c' # r))))
          else if has_prefix ''true'' s then Some (JBool True, drop 4 s)
          else if has_prefix ''false'' s then Some (JBool False, drop 5 s)
          else if has_prefix ''null'' s then Some (JNull, drop 4 s)
          else map_option (\<lambda>(t, r). (JNum t, r)) (scan_num s))"
| "pelems 0 d s = None"
| "pelems (Suc n) d s =
     (case pval n d s of
        None \<Rightarrow> None
      | Some (v, r) \<Rightarrow>
          (case skip_ws r of
             [] \<Rightarrow> None
           | c # r' \<Rightarrow>
               if c = CHR '','' then
                 map_option (\<lambda>(vs, r''). (v # vs, r'')) (pelems n d (skip_ws r'))
               else if c = CHR '']'' then Some ([v], r')
               else None))"
| "pmems 0 d s = None"
| "pmems (Suc n) d s =
     (case s of
        [] \<Rightarrow> None
      | c # cs \<Rightarrow>
          if c = quote then
            (case scan_str cs of
               None \<Rightarrow> None
             | Some (k, r0) \<Rightarrow>
                 (case skip_ws r0 of
                    [] \<Rightarrow> None
                  | c1 # r1 \<Rightarrow>
                      if c1 = CHR '':'' then
                        (case pval n d (skip_ws r1) of
                           None \<Rightarrow> None
                         | Some (v, r2) \<Rightarrow>
                             (case skip_ws r2 of
                                [] \<Rightarrow> None
                              | c3 # r3 \<Rightarrow>
                                  if c3 = CHR '','' then
                                    map_option (\<lambda>(ms, r4). ((unquote k, v) # ms, r4))
                                      (pmems n d (skip_ws r3))
                                  else if c3 = CHR ''}'' then Some ([(unquote k, v)], r3)
                                  else None))
                      else None))
          else None)"

definition parse_json :: "string \<Rightarrow> jval option" where
  "parse_json s =
     (let t = skip_ws s
      in case pval (2 * length t + 2) 0 t of
           None \<Rightarrow> None
         | Some (v, r) \<Rightarrow> if skip_ws r = [] then Some v else None)"

text \<open>For writing JSON texts in examples: a backquote stands for the double quote.\<close>

definition dq :: "string \<Rightarrow> string" where
  "dq s = map (\<lambda>c. if c = CHR 0x60 then quote else c) s"

subsection \<open>Assigning a value to a Go variable\<close>

text \<open>
  Key matching: \<open>foldName\<close> upper-cases ASCII letters and maps every other rune to the smallest rune
  of its case folding class; the only non-ASCII runes whose class has an ASCII member are U+017F
  (long s) and U+212A (Kelvin sign).
\<close>

definition upper_char :: "char \<Rightarrow> char" where
  "upper_char c = (let n = (of_char c :: nat) in if 97 \<le> n \<and> n \<le> 122 then char_of (n - 32) else c)"

fun fold_name :: "string \<Rightarrow> string" where
  "fold_name (a # b # c # s) =
     (if a = CHR 0xC5 \<and> b = CHR 0xBF then CHR ''S'' # fold_name (c # s)
      else if a = CHR 0xE2 \<and> b = CHR 0x84 \<and> c = CHR 0xAA then CHR ''K'' # fold_name s
      else upper_char a # fold_name (b # c # s))"
| "fold_name [a, b] = (if a = CHR 0xC5 \<and> b = CHR 0xBF then ''S'' else [upper_char a, upper_char b])"
| "fold_name [a] = [upper_char a]"
| "fold_name [] = []"

definition is_field :: "string \<Rightarrow> string \<Rightarrow> bool" where
  "is_field name key \<longleftrightarrow> fold_name key = fold_name name"

text \<open>A \<open>string\<close> variable with old value \<open>s\<close>.\<close>

fun dec_string :: "string \<Rightarrow> jval \<Rightarrow> string option" where
  "dec_string s JNull = Some s"
| "dec_string s (JStr t r) = Some t"
| "dec_string s (JBool b) = None"
| "dec_string s (JNum n) = None"
| "dec_string s (JArr vs r) = None"
| "dec_string s (JObj ms r) = None"

text \<open>
  A struct variable with old value \<open>z\<close>, where \<open>assign z key v\<close> assigns one member. A type error
  does not stop the decoder, but it makes the result an error.
\<close>

fun dec_members :: "('r \<Rightarrow> string \<Rightarrow> jval \<Rightarrow> 'r option) \<Rightarrow> 'r \<Rightarrow> (string \<times> jval) list \<Rightarrow> 'r option" where
  "dec_members assign z [] = Some z"
| "dec_members assign z ((k, v) # ms) =
     (case assign z k v of None \<Rightarrow> None | Some z' \<Rightarrow> dec_members assign z' ms)"

fun dec_struct :: "('r \<Rightarrow> string \<Rightarrow> jval \<Rightarrow> 'r option) \<Rightarrow> 'r \<Rightarrow> jval \<Rightarrow> 'r option" where
  "dec_struct assign z JNull = Some z"
| "dec_struct assign z (JObj ms r) = dec_members assign z ms"
| "dec_struct assign z (JStr t r) = None"
| "dec_struct assign z (JBool b) = None"
| "dec_struct assign z (JNum n) = None"
| "dec_struct assign z (JArr vs r) = None"

fun dec_list :: "(jval \<Rightarrow> 'a option) \<Rightarrow> jval list \<Rightarrow> 'a list option" where
  "dec_list f [] = Some []"
| "dec_list f (v # vs) =
     (case f v of None \<Rightarrow> None | Some x \<Rightarrow> map_option (\<lambda>xs. x # xs) (dec_list f vs))"

text \<open>A slice variable whose old value is nil.\<close>

fun dec_slice :: "(jval \<Rightarrow> 'a option) \<Rightarrow> jval \<Rightarrow> 'a list option" where
  "dec_slice f JNull = Some []"
| "dec_slice f (JArr vs r) = dec_list f vs"
| "dec_slice f (JStr t r) = None"
| "dec_slice f (JBool b) = None"
| "dec_slice f (JNum n) = None"
| "dec_slice f (JObj ms r) = None"

text \<open>\<open>json.Unmarshal(s, &x)\<close>: a syntax error anywhere in \<open>s\<close> comes first.\<close>

definition unmarshal :: "(jval \<Rightarrow> 'a option) \<Rightarrow> string \<Rightarrow> 'a option" where
  "unmarshal dec s = (case parse_json s of None \<Rightarrow> None | Some v \<Rightarrow> dec v)"

text \<open>A \<open>json.Number\<close> variable: number literals only (a string is decoded before it is tried).\<close>

fun dec_number :: "jval \<Rightarrow> string option" where
  "dec_number JNull = Some []"
| "dec_number (JNum n) = Some n"
| "dec_number (JStr t r) = (case scan_num t of Some (n, []) \<Rightarrow> Some t | _ \<Rightarrow> None)"
| "dec_number (JBool b) = None"
| "dec_number (JArr vs r) = None"
| "dec_number (JObj ms r) = None"

subsection \<open>Writing JSON strings\<close>

text \<open>
  The string encoder of \<open>json.NewEncoder\<close>, with its HTML escaping: control characters, quotes,
  backslashes, \<open><\<close>, \<open>>\<close>, \<open>&\<close>, U+2028 and U+2029 are escaped, invalid UTF-8 is replaced.
\<close>

definition hex_digit :: "nat \<Rightarrow> char" where
  "hex_digit n = (if n < 10 then char_of (48 + n) else char_of (87 + n))"

definition escape_u :: "nat \<Rightarrow> string" where
  "escape_u n = [backslash, CHR ''u'', CHR ''0'', CHR ''0'', hex_digit (n div 16), hex_digit (n mod 16)]"

definition escape_byte :: "char \<Rightarrow> string" where
  "escape_byte c =
     (if c = quote \<or> c = backslash then [backslash, c]
      else if c = CHR 0x08 then [backslash, CHR ''b'']
      else if c = CHR 0x0C then [backslash, CHR ''f'']
      else if c = CHR 0x0A then [backslash, CHR ''n'']
      else if c = CHR 0x0D then [backslash, CHR ''r'']
      else if c = CHR 0x09 then [backslash, CHR ''t'']
      else if (of_char c :: nat) < 32 \<or> c \<in> set ''<>&'' then escape_u (of_char c)
      else [c])"

function escape_string :: "string \<Rightarrow> string" where
  "escape_string [] = []"
| "escape_string (c # cs) =
     (if (of_char c :: nat) < 128 then escape_byte c @ escape_string cs
      else
        let k = utf8_size (c # cs)
        in if k = 0 then backslash # ''ufffd'' @ escape_string cs
           else if has_prefix [CHR 0xE2, CHR 0x80, CHR 0xA8] (c # cs)
             then backslash # ''u2028'' @ escape_string (drop 2 cs)
           else if has_prefix [CHR 0xE2, CHR 0x80, CHR 0xA9] (c # cs)
             then backslash # ''u2029'' @ escape_string (drop 2 cs)
           else take k (c # cs) @ escape_string (drop (k - 1) cs))"
  by pat_completeness auto
termination
  by (relation "measure length") auto

definition json_quote :: "string \<Rightarrow> string" where
  "json_quote s = quote # escape_string s @ [quote]"

end
