(* ===== verification/Json_Lemmas.thy ===== *)
theory Json_Lemmas
  imports Json
begin

section \<open>Properties of the JSON parser\<close>

text \<open>
  Every parser consumes a nonempty prefix of its input (the relation \<open>ate\<close>), the text a value keeps
  is exactly that prefix, and the fuel that \<open>parse_json\<close> starts with is enough: more fuel never
  changes a result.
\<close>

subsection \<open>Consumption\<close>

definition ate :: "string \<Rightarrow> string \<Rightarrow> bool" where
  "ate s r \<longleftrightarrow> (\<exists>p. p \<noteq> [] \<and> s = p @ r)"

named_theorems ate_intros

lemma ate_length: "ate s r \<Longrightarrow> length r < length s"
  by (auto simp: ate_def)

lemma ate_cons [ate_intros]: "ate (c # r) r"
  by (auto simp: ate_def intro: exI [of _ "[c]"])

lemma ate_trans: "ate s t \<Longrightarrow> ate t r \<Longrightarrow> ate s r"
proof -
  assume "ate s t" "ate t r"
  then obtain p q where "p \<noteq> []" "s = p @ t" "t = q @ r" by (auto simp: ate_def)
  then show ?thesis unfolding ate_def by (intro exI [of _ "p @ q"]) simp
qed

lemma ate_consI: "r = cs \<or> ate cs r \<Longrightarrow> ate (c # cs) r"
  using ate_cons ate_trans by blast

lemma ate_dropWhile: "dropWhile P s = s \<or> ate s (dropWhile P s)"
proof (cases "takeWhile P s = []")
  case True
  then have "dropWhile P s = s" by (metis append_Nil takeWhile_dropWhile_id)
  then show ?thesis ..
next
  case False
  then show ?thesis
    by (metis ate_def takeWhile_dropWhile_id)
qed

lemma ate_skip: "skip_ws s = s \<or> ate s (skip_ws s)"
  unfolding skip_ws_def by (rule ate_dropWhile)

lemma ate_skip_trans: "ate (skip_ws s) r \<Longrightarrow> ate s r"
  using ate_skip [of s] ate_trans by auto

lemma skip_ws_eqD: "skip_ws s = c # cs \<Longrightarrow> ate s cs"
  using ate_skip [of s] ate_cons [of c cs] ate_trans by auto

lemma consumed_append [simp]: "ate s r \<Longrightarrow> consumed s r @ r = s"
  by (auto simp: ate_def consumed_def)

lemma scan_str_ate: "scan_str s = Some (t, r) \<Longrightarrow> ate s r"
proof (induction s arbitrary: t r rule: scan_str.induct)
  case 1
  then show ?case by simp
next
  case (2 c cs)
  note IH = "2.IH" and prem = "2.prems"
  consider (q) "c = quote" | (b) "c \<noteq> quote" "c = backslash" | (p) "c \<noteq> quote" "c \<noteq> backslash"
    by blast
  then show ?case
  proof cases
    case q
    with prem show ?thesis by (auto intro: ate_intros)
  next
    case b
    from b prem obtain e es where cs: "cs = e # es" by (cases cs) auto
    show ?thesis
    proof (cases "e = CHR ''u''")
      case True
      with b cs prem obtain h1 h2 h3 h4 es' where es: "es = h1 # h2 # h3 # h4 # es'"
        and hx: "is_hex h1 \<and> is_hex h2 \<and> is_hex h3 \<and> is_hex h4"
        by (auto split: list.splits if_splits)
      with b cs prem True obtain t' where "scan_str es' = Some (t', r)"
        by auto
      with IH(1) [OF b cs True] es hx have "ate es' r" by auto
      with cs es show ?thesis by (auto intro!: ate_consI)
    next
      case False
      with b cs prem obtain t' where "scan_str es = Some (t', r)"
        by (auto split: if_splits)
      with IH(2) [OF b cs False] b cs prem False have "ate es r" by (auto split: if_splits)
      with cs show ?thesis by (auto intro!: ate_consI)
    qed
  next
    case p
    with prem obtain t' where "scan_str cs = Some (t', r)" "\<not> (of_char c :: nat) < 32"
      by (auto split: if_splits)
    with IH(3) p have "ate cs r" by auto
    then show ?thesis by (auto intro!: ate_consI)
  qed
qed

lemma scan_digits_eq: "scan_digits s = Some (t, r) \<Longrightarrow> t \<noteq> [] \<and> s = t @ r"
  by (auto simp: scan_digits_def split: list.splits)

lemma scan_int_eq: "scan_int s = Some (t, r) \<Longrightarrow> t \<noteq> [] \<and> s = t @ r"
  by (auto simp: scan_int_def dest: scan_digits_eq split: list.splits if_splits)

lemma scan_frac_eq: "scan_frac s = Some (t, r) \<Longrightarrow> s = t @ r"
  by (auto simp: scan_frac_def dest: scan_digits_eq split: list.splits if_splits)

lemma scan_exp_eq: "scan_exp s = Some (t, r) \<Longrightarrow> s = t @ r"
  by (auto simp: scan_exp_def dest: scan_digits_eq split: list.splits if_splits)

lemma scan_unsigned_eq: "scan_unsigned s = Some (t, r) \<Longrightarrow> t \<noteq> [] \<and> s = t @ r"
  by (auto simp: scan_unsigned_def dest!: scan_int_eq scan_frac_eq scan_exp_eq split: option.splits)

lemma scan_num_eq: "scan_num s = Some (t, r) \<Longrightarrow> t \<noteq> [] \<and> s = t @ r"
  by (auto simp: scan_num_def dest: scan_unsigned_eq split: list.splits if_splits)

text \<open>A value's text is the part of the input it was read from.\<close>

lemma parser_consumes:
  "pval n d s = Some (v, r) \<Longrightarrow> ate s r \<and> s = raw v @ r"
  "pelems n d s = Some (vs, r) \<Longrightarrow> ate s r"
  "pmems n d s = Some (ms, r) \<Longrightarrow> ate s r"
proof (induction n d s and n d s and n d s arbitrary: v r and vs r and ms r
    rule: pval_pelems_pmems.induct)
  case (2 n d s)
  show ?case
  proof (cases s)
    case Nil
    with "2.prems" show ?thesis by simp
  next
    case (Cons c cs)
    note IHm = "2.IH"(1) [OF Cons] and IHe = "2.IH"(2) [OF Cons]
    consider (str) "c = quote" | (obj) "c \<noteq> quote" "c = CHR ''{''"
      | (arr) "c \<noteq> quote" "c \<noteq> CHR ''{''" "c = CHR ''[''"
      | (lit) "c \<noteq> quote" "c \<noteq> CHR ''{''" "c \<noteq> CHR ''[''" by blast
    then show ?thesis
    proof cases
      case str
      with "2.prems" Cons obtain t where t: "scan_str cs = Some (t, r)"
        and v: "v = JStr (unquote t) (consumed s r)" by auto
      from t have "ate s r" unfolding Cons by (auto intro: ate_consI scan_str_ate)
      with v show ?thesis by simp
    next
      case obj
      with "2.prems" Cons obtain c' r' where sk: "skip_ws cs = c' # r'" and d: "\<not> max_depth \<le> d"
        by (auto split: if_splits list.splits)
      have "ate cs r \<and> raw v = consumed s r"
      proof (cases "c' = CHR ''}''")
        case True
        with obj "2.prems" Cons sk d show ?thesis
          by (auto intro: skip_ws_eqD)
      next
        case False
        with obj "2.prems" Cons sk d obtain ms where "pmems n (Suc d) (c' # r') = Some (ms, r)"
          and v: "v = JObj ms (consumed s r)" by auto
        with IHm [OF obj d sk False] have "ate (skip_ws cs) r" by (simp add: sk)
        with v show ?thesis by (auto intro: ate_skip_trans)
      qed
      then show ?thesis
        using ate_consI [of r cs c] consumed_append [of s r] Cons by simp
    next
      case arr
      with "2.prems" Cons obtain c' r' where sk: "skip_ws cs = c' # r'" and d: "\<not> max_depth \<le> d"
        by (auto split: if_splits list.splits)
      have "ate cs r \<and> raw v = consumed s r"
      proof (cases "c' = CHR '']''")
        case True
        with arr "2.prems" Cons sk d show ?thesis
          by (auto intro: skip_ws_eqD)
      next
        case False
        with arr "2.prems" Cons sk d obtain vs where "pelems n (Suc d) (c' # r') = Some (vs, r)"
          and v: "v = JArr vs (consumed s r)" by auto
        with IHe [OF arr d sk False] have "ate (skip_ws cs) r" by (simp add: sk)
        with v show ?thesis by (auto intro: ate_skip_trans)
      qed
      then show ?thesis
        using ate_consI [of r cs c] consumed_append [of s r] Cons by simp
    next
      case lit
      with "2.prems" Cons show ?thesis
        by (auto split: if_splits dest!: scan_num_eq simp: has_prefix_iff ate_def)
    qed
  qed
next
  case (4 n d s)
  then obtain v r1 c r' where v: "pval n d s = Some (v, r1)" and sk: "skip_ws r1 = c # r'"
    by (auto split: option.splits list.splits)
  from "4.IH"(1) [OF v] have s: "ate s r1" by blast
  show ?case
  proof (cases "c = CHR '',''")
    case True
    with "4.prems" v sk obtain vs' where "pelems n d (skip_ws r') = Some (vs', r)" by auto
    with "4.IH"(2) [OF v refl sk True] have "ate (skip_ws r') r" by simp
    then show ?thesis using s sk ate_skip_trans skip_ws_eqD ate_trans by blast
  next
    case False
    with "4.prems" v sk have "r = r'" by (auto split: if_splits)
    then show ?thesis using s sk skip_ws_eqD ate_trans by blast
  qed
next
  case (6 n d s)
  from "6.prems" obtain cs k r0 r1 v r2 c3 r3 where s: "s = quote # cs"
    and k: "scan_str cs = Some (k, r0)" and s0: "skip_ws r0 = CHR '':'' # r1"
    and v: "pval n d (skip_ws r1) = Some (v, r2)" and s2: "skip_ws r2 = c3 # r3"
    by (auto split: option.splits list.splits if_splits)
  from "6.IH"(1) [OF s refl k refl s0 refl v] have "ate (skip_ws r1) r2" by blast
  then have a: "ate s r2"
    unfolding s using k s0 scan_str_ate ate_skip_trans skip_ws_eqD ate_trans ate_consI by metis
  show ?case
  proof (cases "c3 = CHR '',''")
    case True
    with "6.prems" s k s0 v s2 obtain ms' where "pmems n d (skip_ws r3) = Some (ms', r)" by auto
    with "6.IH"(2) [OF s refl k refl s0 refl v refl s2 True] have "ate (skip_ws r3) r" by simp
    then show ?thesis using a s2 ate_skip_trans skip_ws_eqD ate_trans by blast
  next
    case False
    with "6.prems" s k s0 v s2 have "r = r3" by (auto split: if_splits)
    then show ?thesis using a s2 skip_ws_eqD ate_trans by blast
  qed
qed simp_all

lemmas pval_consumes = parser_consumes(1)

lemma pval_raw: "pval n d s = Some (v, r) \<Longrightarrow> s = raw v @ r"
  using pval_consumes by blast

lemma pval_raw_nonempty: "pval n d s = Some (v, r) \<Longrightarrow> raw v \<noteq> []"
  using pval_consumes by (fastforce simp: ate_def)

subsection \<open>Enough fuel\<close>

lemma skip_ws_length: "length (skip_ws s) \<le> length s"
  by (simp add: skip_ws_def length_dropWhile_le)

lemma pval_length: "pval n d s = Some (v, r) \<Longrightarrow> length r < length s"
  using pval_consumes ate_length by blast

lemma skip_ws_Cons_length: "skip_ws s = c # cs \<Longrightarrow> length cs < length s"
  using skip_ws_eqD ate_length by blast

lemma parser_fuel_step:
  "2 * length s + 1 \<le> n \<Longrightarrow> pval (Suc n) d s = pval n d s"
  "2 * length s + 2 \<le> n \<Longrightarrow> pelems (Suc n) d s = pelems n d s"
  "2 * length s + 2 \<le> n \<Longrightarrow> pmems (Suc n) d s = pmems n d s"
proof (induction n d s and n d s and n d s rule: pval_pelems_pmems.induct)
  case (2 n d s)
  show ?case
  proof (cases s)
    case Nil
    then show ?thesis by simp
  next
    case (Cons c cs)
    have len: "2 * length (c' # r) + 2 \<le> n" if "skip_ws cs = c' # r" for c' r
      using "2.prems" skip_ws_length [of cs] that Cons by simp
    have obj: "pmems (Suc n) (Suc d) (c' # r) = pmems n (Suc d) (c' # r)"
      if "c \<noteq> quote" "c = CHR ''{''" "\<not> max_depth \<le> d" "skip_ws cs = c' # r" "c' \<noteq> CHR ''}''" for c' r
      using "2.IH"(1) [OF Cons that] len [OF that(4)] by simp
    have arr: "pelems (Suc n) (Suc d) (c' # r) = pelems n (Suc d) (c' # r)"
      if "c \<noteq> quote" "c \<noteq> CHR ''{''" "c = CHR ''[''" "\<not> max_depth \<le> d" "skip_ws cs = c' # r"
        "c' \<noteq> CHR '']''" for c' r
      using "2.IH"(2) [OF Cons that] len [OF that(5)] by simp
    show ?thesis
      unfolding pval.simps(2) [of "Suc n" d s] pval.simps(2) [of n d s]
      unfolding Cons
      using obj arr by (auto split: list.split simp del: pval.simps pelems.simps pmems.simps)
  qed
next
  case (4 n d s)
  from "4.prems" have v: "pval (Suc n) d s = pval n d s" by (intro "4.IH"(1)) simp
  have e: "pelems (Suc n) d (skip_ws r') = pelems n d (skip_ws r')"
    if "pval n d s = Some (x, r)" "skip_ws r = CHR '','' # r'" for x r r'
    using "4.IH"(2) [OF that(1) refl that(2) refl] "4.prems" pval_length [OF that(1)]
      skip_ws_Cons_length [OF that(2)] skip_ws_length [of r'] by simp
  show ?case
    unfolding pelems.simps(2) [of "Suc n" d s] pelems.simps(2) [of n d s] v
    using e by (auto split: option.split list.split simp del: pval.simps pelems.simps pmems.simps)
next
  case (6 n d s)
  have v: "pval (Suc n) d (skip_ws r1) = pval n d (skip_ws r1)"
    if "s = quote # cs" "scan_str cs = Some (k, r0)" "skip_ws r0 = CHR '':'' # r1" for cs k r0 r1
    using "6.IH"(1) [OF that(1) refl that(2) refl that(3) refl] "6.prems" that(1)
      ate_length [OF scan_str_ate [OF that(2)]] skip_ws_Cons_length [OF that(3)] skip_ws_length [of r1]
    by simp
  have m: "pmems (Suc n) d (skip_ws r3) = pmems n d (skip_ws r3)"
    if "s = quote # cs" "scan_str cs = Some (k, r0)" "skip_ws r0 = CHR '':'' # r1"
      "pval n d (skip_ws r1) = Some (x, r2)" "skip_ws r2 = CHR '','' # r3" for cs k r0 r1 x r2 r3
    using "6.IH"(2) [OF that(1) refl that(2) refl that(3) refl that(4) refl that(5) refl]
      "6.prems" that(1) ate_length [OF scan_str_ate [OF that(2)]] skip_ws_Cons_length [OF that(3)]
      skip_ws_length [of r1] pval_length [OF that(4)] skip_ws_Cons_length [OF that(5)]
      skip_ws_length [of r3] by simp
  show ?case
    unfolding pmems.simps(2) [of "Suc n" d s] pmems.simps(2) [of n d s]
    using v m by (auto split: option.split list.split simp del: pval.simps pelems.simps pmems.simps)
qed simp_all

lemma pval_fuel:
  assumes "2 * length s + 1 \<le> n"
  shows "pval n d s = pval (2 * length s + 1) d s"
  using assms
proof (induction n rule: dec_induct)
  case base
  show ?case ..
next
  case (step n)
  then show ?case using parser_fuel_step(1) [of s n d] by simp
qed

lemma parse_json_fuel:
  assumes "2 * length (skip_ws s) + 1 \<le> n"
  shows "parse_json s =
    (case pval n 0 (skip_ws s) of
       None \<Rightarrow> None | Some (v, r) \<Rightarrow> if skip_ws r = [] then Some v else None)"
  using pval_fuel [OF assms, of 0] pval_fuel [of "skip_ws s" "2 * length (skip_ws s) + 2" 0]
  by (simp add: parse_json_def Let_def)

subsection \<open>Struct decoding\<close>

lemma dec_list_length: "dec_list f vs = Some xs \<Longrightarrow> length xs = length vs"
  by (induction vs arbitrary: xs) (auto split: option.splits)

end
