(* ===== verification/Balancer.thy ===== *)
theory Balancer
  imports Config Json_Lemmas
begin

section \<open>Upstream pools: \<open>internal/balancer\<close>\<close>

text \<open>
  Nodes are shared by pointer: a pool holds the addresses of its nodes, requests in flight keep the
  address they were given, and a reload installs new addresses. The heap is explicit. The HTTP
  client that health probes use is a parameter, log lines are not modelled, and the loop around
  \<open>checkAll\<close> is in Theory \<open>Background\<close>.
\<close>

subsection \<open>Nodes, pools, registry\<close>

record node =
  nd_Name :: string
  nd_URL :: string
  nd_WSURL :: string
  nd_Weight :: int
  nd_healthy :: bool
  nd_failCount :: int
  nd_okCount :: int

record node_view =
  nv_Name :: string
  nv_URL :: string
  nv_WSURL :: string
  nv_Weight :: int
  nv_Healthy :: bool

record heap =
  hp_node :: "nat \<Rightarrow> node"
  hp_next :: nat

record pool =
  po_chainID :: string
  po_nodes :: "nat list"
  po_rr :: int
  po_unhealthyThreshold :: int
  po_healthyThreshold :: int

record registry =
  rg_heap :: heap
  rg_pools :: "string \<rightharpoonup> pool"
  rg_unhealthyThreshold :: int
  rg_healthyThreshold :: int

definition Healthy :: "heap \<Rightarrow> nat \<Rightarrow> bool" where
  "Healthy h a = nd_healthy (hp_node h a)"

definition weight :: "heap \<Rightarrow> nat \<Rightarrow> int" where
  "weight h a = nd_Weight (hp_node h a)"

definition set_node :: "heap \<Rightarrow> nat \<Rightarrow> node \<Rightarrow> heap" where
  "set_node h a n = h\<lparr>hp_node := (hp_node h)(a := n)\<rparr>"

definition alloc :: "node \<Rightarrow> heap \<Rightarrow> nat \<times> heap" where
  "alloc n h = (hp_next h, h\<lparr>hp_node := (hp_node h)(hp_next h := n), hp_next := Suc (hp_next h)\<rparr>)"

subsection \<open>Building pools\<close>

definition DeriveWSURL :: "string \<Rightarrow> string \<Rightarrow> string" where
  "DeriveWSURL httpURL explicit =
     (if explicit \<noteq> [] then explicit
      else if has_prefix ''https://'' httpURL then ''wss://'' @ trim_prefix ''https://'' httpURL
      else if has_prefix ''http://'' httpURL then ''ws://'' @ trim_prefix ''http://'' httpURL
      else if has_prefix ''wss://'' httpURL \<or> has_prefix ''ws://'' httpURL then httpURL
      else [])"

definition make_node :: "nat \<Rightarrow> node_config \<Rightarrow> node" where
  "make_node i n =
     \<lparr>nd_Name = (if nc_Name n = [] then ''node-'' @ show_nat (i + 1) else nc_Name n),
      nd_URL = nc_URL n,
      nd_WSURL = DeriveWSURL (nc_URL n) (nc_WSURL n),
      nd_Weight = (if nc_Weight n \<le> 0 then 1 else nc_Weight n),
      nd_healthy = True, nd_failCount = 0, nd_okCount = 0\<rparr>"

fun build_nodes_from :: "nat \<Rightarrow> node_config list \<Rightarrow> heap \<Rightarrow> nat list \<times> heap" where
  "build_nodes_from i [] h = ([], h)"
| "build_nodes_from i (n # ns) h =
     (let (a, h) = alloc (make_node i n) h;
          (as, h) = build_nodes_from (Suc i) ns h
      in (a # as, h))"

definition buildNodes :: "node_config list \<Rightarrow> heap \<Rightarrow> nat list \<times> heap" where
  "buildNodes cfgs h = build_nodes_from 0 cfgs h"

definition newPool :: "string \<Rightarrow> node_config list \<Rightarrow> int \<Rightarrow> int \<Rightarrow> heap \<Rightarrow> pool \<times> heap" where
  "newPool chainID cfgs unhealthy healthy h =
     (let (nodes, h) = buildNodes cfgs h
      in (\<lparr>po_chainID = chainID, po_nodes = nodes, po_rr = 0,
           po_unhealthyThreshold = unhealthy, po_healthyThreshold = healthy\<rparr>, h))"

text \<open>\<open>ids\<close> is the order in which the configuration's chains are visited.\<close>

fun new_pools :: "(string \<rightharpoonup> chain) \<Rightarrow> string list \<Rightarrow> registry \<Rightarrow> registry" where
  "new_pools m [] r = r"
| "new_pools m (c # cs) r =
     (case m c of
        None \<Rightarrow> new_pools m cs r
      | Some ch \<Rightarrow>
          let (p, h) = newPool c (ch_Nodes ch) (rg_unhealthyThreshold r) (rg_healthyThreshold r) (rg_heap r)
          in new_pools m cs (r\<lparr>rg_heap := h, rg_pools := (rg_pools r)(c \<mapsto> p)\<rparr>))"

definition NewRegistry :: "heap \<Rightarrow> string list \<Rightarrow> config \<Rightarrow> registry" where
  "NewRegistry h ids cfg =
     new_pools (cf_Chains cfg) ids
       \<lparr>rg_heap = h, rg_pools = Map.empty,
        rg_unhealthyThreshold = wrap32 (hc_UnhealthyThreshold (cf_HealthCheck cfg)),
        rg_healthyThreshold = wrap32 (hc_HealthyThreshold (cf_HealthCheck cfg))\<rparr>"

definition ReplaceNodes :: "node_config list \<Rightarrow> pool \<Rightarrow> heap \<Rightarrow> pool \<times> heap" where
  "ReplaceNodes cfgs p h =
     (let (next, h) = buildNodes cfgs h in (p\<lparr>po_nodes := next, po_rr := 0\<rparr>, h))"

subsection \<open>The registry\<close>

definition lookup_pool :: "registry \<Rightarrow> string \<Rightarrow> pool option" where
  "lookup_pool r chainID = rg_pools r chainID"

text \<open>The loop of \<open>ReloadNodes\<close> over the pools; \<open>Some\<close> is the error that ends it early.\<close>

fun reload_pools :: "(string \<rightharpoonup> chain) \<Rightarrow> string list \<Rightarrow> registry \<Rightarrow> string option \<times> registry" where
  "reload_pools m [] r = (None, r)"
| "reload_pools m (c # cs) r =
     (case rg_pools r c of
        None \<Rightarrow> reload_pools m cs r
      | Some p \<Rightarrow>
          (case m c of
             None \<Rightarrow> reload_pools m cs r
           | Some ch \<Rightarrow>
               if length (ch_Nodes ch) = 0 then (Some (''chain '' @ show_quoted c @ '' has no nodes''), r)
               else
                 let (p, h) = ReplaceNodes (ch_Nodes ch) p (rg_heap r)
                 in reload_pools m cs (r\<lparr>rg_heap := h, rg_pools := (rg_pools r)(c \<mapsto> p)\<rparr>)))"

definition ReloadNodes :: "string list \<Rightarrow> (string \<rightharpoonup> chain) \<Rightarrow> registry \<Rightarrow> string option \<times> registry" where
  "ReloadNodes ids m r = reload_pools m ids r"

definition node_snapshot :: "heap \<Rightarrow> nat \<Rightarrow> node_view" where
  "node_snapshot h a =
     (let n = hp_node h a
      in \<lparr>nv_Name = nd_Name n, nv_URL = nd_URL n, nv_WSURL = nd_WSURL n,
          nv_Weight = nd_Weight n, nv_Healthy = nd_healthy n\<rparr>)"

definition pool_snapshot :: "heap \<Rightarrow> pool \<Rightarrow> node_view list" where
  "pool_snapshot h p = map (node_snapshot h) (po_nodes p)"

definition registry_snapshot :: "registry \<Rightarrow> (string \<rightharpoonup> node_view list)" where
  "registry_snapshot r = (\<lambda>c. map_option (pool_snapshot (rg_heap r)) (rg_pools r c))"

subsection \<open>Choosing a node\<close>

text \<open>
  A call of \<open>Next\<close> or \<open>NextWS\<close> gives a node, no node, or a runtime panic (a remainder by zero or a
  negative index).
\<close>

datatype pick = Pick nat | NoNode | Panicked

definition total_weight :: "heap \<Rightarrow> nat list \<Rightarrow> int" where
  "total_weight h as = fold (\<lambda>a t. wrap64 (t + weight h a)) as 0"

fun pick_loop :: "heap \<Rightarrow> int \<Rightarrow> int \<Rightarrow> nat list \<Rightarrow> nat option" where
  "pick_loop h rr cursor [] = None"
| "pick_loop h rr cursor (a # as) =
     (let cursor = wrap64 (cursor + weight h a)
      in if rr < cursor then Some a else pick_loop h rr cursor as)"

definition pick_weighted :: "heap \<Rightarrow> int \<Rightarrow> nat list \<Rightarrow> pick" where
  "pick_weighted h rr as = (case pick_loop h rr 0 as of Some a \<Rightarrow> Pick a | None \<Rightarrow> Pick (hd as))"

definition Next :: "heap \<Rightarrow> pool \<Rightarrow> pick \<times> pool" where
  "Next h p =
     (let healthy = filter (Healthy h) (po_nodes p);
          totalWeight = total_weight h healthy
      in if length healthy = 0 then
           if length (po_nodes p) = 0 then (NoNode, p)
           else
             let rr = wrap64 (po_rr p + 1) smod int (length (po_nodes p)); p = p\<lparr>po_rr := rr\<rparr>
             in if rr < 0 then (Panicked, p) else (Pick (po_nodes p ! nat rr), p)
         else if totalWeight = 0 then (Panicked, p)
         else
           let rr = wrap64 (po_rr p + 1) smod totalWeight; p = p\<lparr>po_rr := rr\<rparr>
           in (pick_weighted h rr healthy, p))"

definition has_ws :: "heap \<Rightarrow> nat \<Rightarrow> bool" where
  "has_ws h a \<longleftrightarrow> nd_WSURL (hp_node h a) \<noteq> []"

definition ws_candidates :: "heap \<Rightarrow> nat list \<Rightarrow> nat list" where
  "ws_candidates h as =
     (let c = filter (\<lambda>a. has_ws h a \<and> Healthy h a) as
      in if length c = 0 then filter (has_ws h) as else c)"

definition NextWS :: "heap \<Rightarrow> pool \<Rightarrow> pick \<times> pool" where
  "NextWS h p =
     (let candidates = ws_candidates h (po_nodes p);
          totalWeight = total_weight h candidates
      in if length candidates = 0 \<or> totalWeight \<le> 0 then (NoNode, p)
         else
           let rr = wrap64 (po_rr p + 1) smod totalWeight; p = p\<lparr>po_rr := rr\<rparr>
           in (pick_weighted h rr candidates, p))"

subsection \<open>Health\<close>

definition report_success :: "int \<Rightarrow> node \<Rightarrow> node" where
  "report_success healthyThreshold n =
     (let n = n\<lparr>nd_failCount := 0\<rparr>;
          ok = wrap32 (nd_okCount n + 1);
          n = n\<lparr>nd_okCount := ok\<rparr>
      in if \<not> nd_healthy n \<and> ok \<ge> healthyThreshold
         then n\<lparr>nd_healthy := True, nd_okCount := 0\<rparr> else n)"

definition report_failure :: "int \<Rightarrow> node \<Rightarrow> node" where
  "report_failure unhealthyThreshold n =
     (let n = n\<lparr>nd_okCount := 0\<rparr>;
          fails = wrap32 (nd_failCount n + 1);
          n = n\<lparr>nd_failCount := fails\<rparr>
      in if nd_healthy n \<and> fails \<ge> unhealthyThreshold then n\<lparr>nd_healthy := False\<rparr> else n)"

definition ReportSuccess :: "pool \<Rightarrow> nat \<Rightarrow> heap \<Rightarrow> heap" where
  "ReportSuccess p a h = set_node h a (report_success (po_healthyThreshold p) (hp_node h a))"

definition ReportFailure :: "pool \<Rightarrow> nat \<Rightarrow> heap \<Rightarrow> heap" where
  "ReportFailure p a h = set_node h a (report_failure (po_unhealthyThreshold p) (hp_node h a))"

text \<open>
  One probe: \<open>post url\<close> is the outcome of the POST request, an error or a status with a body. The
  decoder reads the first JSON value of the body.
\<close>

definition assign_error :: "string \<Rightarrow> string \<Rightarrow> jval \<Rightarrow> string option" where
  "assign_error e k v = (if is_field ''error'' k then Some (raw v) else Some e)"

definition decode_first :: "(jval \<Rightarrow> 'a option) \<Rightarrow> string \<Rightarrow> 'a option" where
  "decode_first dec s =
     (let t = skip_ws s
      in case pval (2 * length t + 2) 0 t of None \<Rightarrow> None | Some (v, r) \<Rightarrow> dec v)"

definition probe :: "(string \<Rightarrow> string + int \<times> string) \<Rightarrow> string \<Rightarrow> string option" where
  "probe post url =
     (case post url of
        Inl e \<Rightarrow> Some e
      | Inr (status, body) \<Rightarrow>
          if status \<ge> 500 then Some (''status '' @ show_int status)
          else
            (case decode_first (dec_struct assign_error []) body of
               None \<Rightarrow> Some ''invalid response''
             | Some e \<Rightarrow> if length e > 0 \<and> e \<noteq> ''null'' then Some ''json-rpc error'' else None))"

definition check_node :: "(string \<Rightarrow> string + int \<times> string) \<Rightarrow> pool \<Rightarrow> nat \<Rightarrow> heap \<Rightarrow> heap" where
  "check_node post p a h =
     (case probe post (nd_URL (hp_node h a)) of
        Some e \<Rightarrow> ReportFailure p a h
      | None \<Rightarrow> ReportSuccess p a h)"

definition checkAll :: "(string \<Rightarrow> string + int \<times> string) \<Rightarrow> pool \<Rightarrow> heap \<Rightarrow> heap" where
  "checkAll post p h = fold (check_node post p) (po_nodes p) h"

end
