(* ===== verification/Balancer_Rotation.thy ===== *)
theory Balancer_Rotation
  imports Balancer
begin

section \<open>Weighted round robin\<close>

text \<open>
  \<open>Next\<close> and \<open>NextWS\<close> choose among different candidates but turn the same wheel: the list in which
  every candidate is repeated as often as its weight says. The locale \<open>weighted_rotation\<close> states
  that contract once; the fairness of a full turn is proved inside it and both functions interpret
  it.
\<close>

subsection \<open>The wheel\<close>

definition expand :: "heap \<Rightarrow> nat list \<Rightarrow> nat list" where
  "expand h as = concat (map (\<lambda>a. replicate (nat (weight h a)) a) as)"

definition weights_ok :: "heap \<Rightarrow> nat list \<Rightarrow> bool" where
  "weights_ok h as \<longleftrightarrow>
     (\<forall>a \<in> set as. 0 < weight h a) \<and> sum_list (map (weight h) as) < 9223372036854775808"

definition rr_ok :: "pool \<Rightarrow> bool" where
  "rr_ok p \<longleftrightarrow> 0 \<le> po_rr p \<and> po_rr p < 9223372036854775807"

lemma expand_Nil [simp]: "expand h [] = []"
  by (simp add: expand_def)

lemma expand_Cons [simp]: "expand h (a # as) = replicate (nat (weight h a)) a @ expand h as"
  by (simp add: expand_def)

lemma sum_weight_nonneg: "\<forall>a \<in> set as. 0 < weight h a \<Longrightarrow> 0 \<le> sum_list (map (weight h) as)"
  by (induction as) auto

lemma length_expand:
  "\<forall>a \<in> set as. 0 < weight h a \<Longrightarrow> int (length (expand h as)) = sum_list (map (weight h) as)"
  by (induction as) auto

lemma set_expand: "\<forall>a \<in> set as. 0 < weight h a \<Longrightarrow> set (expand h as) = set as"
  by (induction as) auto

lemma count_expand:
  "distinct as \<Longrightarrow> count_list (expand h as) a = (if a \<in> set as then nat (weight h a) else 0)"
proof (induction as)
  case Nil
  then show ?case by simp
next
  case (Cons b as)
  have rep: "count_list (replicate n b) a = (if a = b then n else 0)" for n
    by (induction n) auto
  from Cons show ?case by (auto simp: count_list_append rep)
qed

lemma weights_ok_Cons:
  "weights_ok h (a # as) \<Longrightarrow>
     0 < weight h a \<and> weight h a < 9223372036854775808 \<and> weights_ok h as \<and>
     weight h a + sum_list (map (weight h) as) < 9223372036854775808"
  using sum_weight_nonneg [of as h] by (auto simp: weights_ok_def)

lemma weights_ok_filter: "weights_ok h as \<Longrightarrow> weights_ok h (filter P as)"
proof -
  assume ok: "weights_ok h as"
  then have "sum_list (map (weight h) (filter P as)) \<le> sum_list (map (weight h) as)"
    by (induction as) (auto simp: weights_ok_def dest!: weights_ok_Cons)
  with ok show ?thesis by (auto simp: weights_ok_def)
qed

lemma total_weight_from:
  "\<forall>a \<in> set as. 0 < weight h a \<Longrightarrow> 0 \<le> t \<Longrightarrow>
   t + sum_list (map (weight h) as) < 9223372036854775808 \<Longrightarrow>
   fold (\<lambda>a t. wrap64 (t + weight h a)) as t = t + sum_list (map (weight h) as)"
proof (induction as arbitrary: t)
  case Nil
  then show ?case by simp
next
  case (Cons a as)
  have "wrap64 (t + weight h a) = t + weight h a"
    using Cons.prems sum_weight_nonneg [of as h] by (intro wrap64_id) auto
  with Cons show ?case by simp
qed

lemma total_weight_expand: "weights_ok h as \<Longrightarrow> total_weight h as = int (length (expand h as))"
  using total_weight_from [of as h 0] by (simp add: total_weight_def weights_ok_def length_expand)

lemma pick_loop_expand:
  "\<forall>a \<in> set as. 0 < weight h a \<Longrightarrow> 0 \<le> t \<Longrightarrow>
   t + sum_list (map (weight h) as) < 9223372036854775808 \<Longrightarrow>
   t \<le> rr \<Longrightarrow> rr < t + sum_list (map (weight h) as) \<Longrightarrow>
   pick_loop h rr t as = Some (expand h as ! nat (rr - t))"
proof (induction as arbitrary: t)
  case Nil
  then show ?case by simp
next
  case (Cons a as)
  have w: "wrap64 (t + weight h a) = t + weight h a"
    using Cons.prems sum_weight_nonneg [of as h] by (intro wrap64_id) auto
  show ?case
  proof (cases "rr < t + weight h a")
    case True
    with Cons.prems have "nat (rr - t) < nat (weight h a)" by auto
    then show ?thesis using True by (simp add: w nth_append)
  next
    case False
    have "nat (rr - t) - nat (weight h a) = nat (rr - (t + weight h a))"
      using False Cons.prems by auto
    with False Cons.prems Cons.IH [of "t + weight h a"] show ?thesis
      by (simp add: w nth_append)
  qed
qed

lemma pick_weighted_expand:
  assumes "weights_ok h as" "k < length (expand h as)"
  shows "pick_weighted h (int k) as = Pick (expand h as ! k)"
proof -
  from assms(1) have pos: "\<forall>a \<in> set as. 0 < weight h a"
    and fit: "sum_list (map (weight h) as) < 9223372036854775808" by (auto simp: weights_ok_def)
  have "int k < sum_list (map (weight h) as)"
    using assms(2) by (simp add: length_expand [OF pos, symmetric])
  from pick_loop_expand [OF pos, of 0 "int k"] this fit show ?thesis
    by (simp add: pick_weighted_def)
qed

subsection \<open>The contract\<close>

fun run_sel :: "(pool \<Rightarrow> pick \<times> pool) \<Rightarrow> nat \<Rightarrow> pool \<Rightarrow> pick list \<times> pool" where
  "run_sel f 0 p = ([], p)"
| "run_sel f (Suc n) p = (let (x, p) = f p; (xs, p) = run_sel f n p in (x # xs, p))"

locale weighted_rotation =
  fixes sel :: "heap \<Rightarrow> pool \<Rightarrow> pick \<times> pool"
    and cands :: "heap \<Rightarrow> pool \<Rightarrow> nat list"
  assumes cands_rr: "cands h (p\<lparr>po_rr := r\<rparr>) = cands h p"
    and cands_nodes: "set (cands h p) \<subseteq> set (po_nodes p)"
    and sel_eq: "cands h p \<noteq> [] \<Longrightarrow> weights_ok h (cands h p) \<Longrightarrow> rr_ok p \<Longrightarrow>
      sel h p =
        (let k = (po_rr p + 1) mod int (length (expand h (cands h p)))
         in (Pick (expand h (cands h p) ! nat k), p\<lparr>po_rr := k\<rparr>))"
begin

lemma wheel_nonempty: "cands h p \<noteq> [] \<Longrightarrow> weights_ok h (cands h p) \<Longrightarrow> expand h (cands h p) \<noteq> []"
  using set_expand [of "cands h p" h] by (auto simp: weights_ok_def)

lemma wheel_short:
  "weights_ok h (cands h p) \<Longrightarrow> int (length (expand h (cands h p))) < 9223372036854775808"
  by (simp add: weights_ok_def length_expand)

lemma wheel_rr_ok:
  assumes "cands h p \<noteq> []" "weights_ok h (cands h p)"
  shows "rr_ok (q\<lparr>po_rr := x mod int (length (expand h (cands h p)))\<rparr>)"
proof -
  let ?L = "int (length (expand h (cands h p)))"
  have "0 < ?L" using wheel_nonempty [OF assms] by simp
  then have "0 \<le> x mod ?L" "x mod ?L < ?L" by simp_all
  then show ?thesis using wheel_short [OF assms(2)] by (simp add: rr_ok_def)
qed

lemma sel_cand:
  assumes "cands h p \<noteq> []" "weights_ok h (cands h p)" "rr_ok p"
  obtains a r where "sel h p = (Pick a, p\<lparr>po_rr := r\<rparr>)" "a \<in> set (cands h p)" "rr_ok (p\<lparr>po_rr := r\<rparr>)"
proof -
  let ?E = "expand h (cands h p)"
  let ?k = "(po_rr p + 1) mod int (length ?E)"
  have ne: "?E \<noteq> []" by (rule wheel_nonempty [OF assms(1,2)])
  then have k: "0 \<le> ?k" "?k < int (length ?E)" by simp_all
  then have "?E ! nat ?k \<in> set ?E" by (intro nth_mem) linarith
  moreover have "set ?E = set (cands h p)"
    using assms(2) by (intro set_expand) (simp add: weights_ok_def)
  moreover have "rr_ok (p\<lparr>po_rr := ?k\<rparr>)"
    by (rule wheel_rr_ok [OF assms(1,2)])
  moreover have "sel h p = (Pick (?E ! nat ?k), p\<lparr>po_rr := ?k\<rparr>)"
    using sel_eq [OF assms] by (simp add: Let_def)
  ultimately show thesis using that by blast
qed

text \<open>The \<open>n\<close> calls after position \<open>rr\<close> read the next \<open>n\<close> places of the wheel.\<close>

lemma run_wheel:
  assumes "cands h p \<noteq> []" "weights_ok h (cands h p)" "rr_ok p"
  shows "fst (run_sel (sel h) n p) =
    map (\<lambda>k. Pick (expand h (cands h p) ! ((nat (po_rr p) + Suc k) mod length (expand h (cands h p))))) [0..<n]"
  using assms
proof (induction n arbitrary: p)
  case 0
  then show ?case by simp
next
  case (Suc n)
  let ?E = "expand h (cands h p)"
  let ?k = "(po_rr p + 1) mod int (length ?E)"
  let ?p = "p\<lparr>po_rr := ?k\<rparr>"
  have rr: "po_rr p = int (nat (po_rr p))" using Suc.prems(3) by (simp add: rr_ok_def)
  have k: "nat ?k = Suc (nat (po_rr p)) mod length ?E"
    by (subst rr) (metis nat_int of_nat_Suc zmod_int add.commute)
  have "rr_ok ?p" by (rule wheel_rr_ok [OF Suc.prems(1,2)])
  then have IH: "fst (run_sel (sel h) n ?p) =
      map (\<lambda>j. Pick (?E ! ((nat ?k + Suc j) mod length ?E))) [0..<n]"
    using Suc.IH [of ?p] Suc.prems(1,2) by (simp add: cands_rr)
  have step: "fst (run_sel (sel h) (Suc n) p) = Pick (?E ! nat ?k) # fst (run_sel (sel h) n ?p)"
    using sel_eq [OF Suc.prems] by (simp add: Let_def split: prod.split)
  have shift: "Suc (Suc a mod m + j) mod m = Suc (Suc (a + j)) mod m" for a j m :: nat
    by (metis add_Suc add_Suc_right mod_add_left_eq)
  have split: "[0..<Suc n] = 0 # map Suc [0..<n]" by (simp add: upt_conv_Cons map_Suc_upt del: upt_Suc)
  show ?case unfolding step IH split by (simp add: k shift o_def del: upt_Suc)
qed

text \<open>One full turn gives the wheel itself, rotated.\<close>

lemma full_turn:
  assumes "cands h p \<noteq> []" "weights_ok h (cands h p)" "rr_ok p"
  shows "fst (run_sel (sel h) (length (expand h (cands h p))) p) =
    map Pick (rotate (Suc (nat (po_rr p))) (expand h (cands h p)))"
  unfolding run_wheel [OF assms]
  by (rule nth_equalityI) (simp_all add: nth_rotate del: rotate_Suc)

lemma fair_turn:
  assumes "cands h p \<noteq> []" "weights_ok h (cands h p)" "rr_ok p" "distinct (cands h p)"
  shows "count_list (fst (run_sel (sel h) (nat (total_weight h (cands h p))) p)) (Pick a) =
    (if a \<in> set (cands h p) then nat (weight h a) else 0)"
proof -
  let ?E = "expand h (cands h p)"
  have cp: "count_list (map Pick xs) (Pick a) = count_list xs a" for xs
    by (induction xs) auto
  have cr: "count_list (rotate m xs) a = count_list xs a" for m and xs :: "nat list"
    by (metis (no_types, lifting) append_take_drop_id count_list_append add.commute rotate_drop_take)
  have "nat (total_weight h (cands h p)) = length ?E"
    using total_weight_expand [OF assms(2)] by simp
  then show ?thesis
    by (simp only: full_turn [OF assms(1-3)] cp cr count_expand [OF assms(4)])
qed

end

subsection \<open>Both selectors satisfy it\<close>

lemma rr_step:
  assumes "weights_ok h as" "as \<noteq> []" "rr_ok p"
  shows "wrap64 (po_rr p + 1) smod total_weight h as = (po_rr p + 1) mod int (length (expand h as))"
    and "0 < total_weight h as"
proof -
  have "wrap64 (po_rr p + 1) = po_rr p + 1"
    using assms(3) by (intro wrap64_id) (auto simp: rr_ok_def)
  moreover have "expand h as \<noteq> []"
    using assms(1,2) set_expand [of as h] by (auto simp: weights_ok_def)
  ultimately show "wrap64 (po_rr p + 1) smod total_weight h as = (po_rr p + 1) mod int (length (expand h as))"
    "0 < total_weight h as"
    using assms(3) total_weight_expand [OF assms(1)] by (auto simp: rr_ok_def smod_pos)
qed

lemma pick_weighted_mod:
  assumes "weights_ok h as" "as \<noteq> []"
  shows "pick_weighted h (r mod int (length (expand h as))) as =
    Pick (expand h as ! nat (r mod int (length (expand h as))))"
proof -
  have "expand h as \<noteq> []" using assms set_expand [of as h] by (auto simp: weights_ok_def)
  then have "nat (r mod int (length (expand h as))) < length (expand h as)"
    by (simp add: nat_less_iff)
  from pick_weighted_expand [OF assms(1) this] show ?thesis
    using \<open>expand h as \<noteq> []\<close> by simp
qed

interpretation http_rotation: weighted_rotation Next "\<lambda>h p. filter (Healthy h) (po_nodes p)"
proof (unfold_locales, goal_cases)
  case (3 h p)
  then show ?case
    using rr_step [OF 3(2,1,3)] pick_weighted_mod [OF 3(2,1)] by (simp add: Next_def Let_def)
qed auto

lemma ws_candidates_subset: "set (ws_candidates h as) \<subseteq> set as"
  by (auto simp: ws_candidates_def Let_def)

interpretation ws_rotation: weighted_rotation NextWS "\<lambda>h p. ws_candidates h (po_nodes p)"
proof (unfold_locales, goal_cases)
  case (3 h p)
  then show ?case
    using rr_step [OF 3(2,1,3)] pick_weighted_mod [OF 3(2,1)] by (simp add: NextWS_def Let_def)
qed (use ws_candidates_subset in auto)

end
