(* ===== verification/Balancer_Health.thy ===== *)
theory Balancer_Health
  imports Balancer_Rotation
begin

section \<open>The health state machine of a node\<close>

text \<open>
  What the two counters of a node promise: a node goes down after \<open>unhealthyThreshold\<close> consecutive
  failures and comes back after \<open>healthyThreshold\<close> consecutive successes. The abstract machine
  counts in natural numbers and only the counter that matters; the code counts both in \<open>int32\<close>,
  which may wrap while they do not matter. \<open>abs_health\<close> relates the two.
\<close>

datatype health = Up nat | Down nat

fun health_fail :: "nat \<Rightarrow> health \<Rightarrow> health" where
  "health_fail u (Up k) = (if u \<le> Suc k then Down 0 else Up (Suc k))"
| "health_fail u (Down k) = Down 0"

fun health_succ :: "nat \<Rightarrow> health \<Rightarrow> health" where
  "health_succ t (Up k) = Up 0"
| "health_succ t (Down k) = (if t \<le> Suc k then Up 0 else Down (Suc k))"

definition abs_health :: "node \<Rightarrow> health" where
  "abs_health n = (if nd_healthy n then Up (nat (nd_failCount n)) else Down (nat (nd_okCount n)))"

text \<open>The counter that matters is below its threshold.\<close>

definition node_ok :: "int \<Rightarrow> int \<Rightarrow> node \<Rightarrow> bool" where
  "node_ok u t n \<longleftrightarrow>
     (nd_healthy n \<longrightarrow> 0 \<le> nd_failCount n \<and> nd_failCount n < u) \<and>
     (\<not> nd_healthy n \<longrightarrow> 0 \<le> nd_okCount n \<and> nd_okCount n < t)"

definition thresholds_ok :: "int \<Rightarrow> int \<Rightarrow> bool" where
  "thresholds_ok u t \<longleftrightarrow> 0 < u \<and> u < 2147483648 \<and> 0 < t \<and> t < 2147483648"

lemma node_ok_fresh: "thresholds_ok u t \<Longrightarrow> node_ok u t (make_node i n)"
  by (simp add: node_ok_def make_node_def thresholds_ok_def)

lemma report_failure_ok:
  assumes "thresholds_ok u t" "node_ok u t n"
  shows "node_ok u t (report_failure u n)"
proof (cases "nd_healthy n")
  case True
  with assms have "wrap32 (nd_failCount n + 1) = nd_failCount n + 1"
    by (intro wrap32_id) (auto simp: node_ok_def thresholds_ok_def)
  with True assms show ?thesis by (auto simp: node_ok_def report_failure_def thresholds_ok_def Let_def)
next
  case False
  with assms show ?thesis by (auto simp: node_ok_def report_failure_def thresholds_ok_def Let_def)
qed

lemma report_success_ok:
  assumes "thresholds_ok u t" "node_ok u t n"
  shows "node_ok u t (report_success t n)"
proof (cases "nd_healthy n")
  case True
  with assms show ?thesis by (auto simp: node_ok_def report_success_def thresholds_ok_def Let_def)
next
  case False
  with assms have "wrap32 (nd_okCount n + 1) = nd_okCount n + 1"
    by (intro wrap32_id) (auto simp: node_ok_def thresholds_ok_def)
  with False assms show ?thesis by (auto simp: node_ok_def report_success_def thresholds_ok_def Let_def)
qed

lemma abs_report_failure:
  assumes "thresholds_ok u t" "node_ok u t n"
  shows "abs_health (report_failure u n) = health_fail (nat u) (abs_health n)"
proof (cases "nd_healthy n")
  case True
  with assms have "wrap32 (nd_failCount n + 1) = nd_failCount n + 1"
    by (intro wrap32_id) (auto simp: node_ok_def thresholds_ok_def)
  with True assms show ?thesis
    by (auto simp: abs_health_def report_failure_def node_ok_def Let_def nat_add_distrib)
next
  case False
  then show ?thesis by (simp add: abs_health_def report_failure_def Let_def)
qed

lemma abs_report_success:
  assumes "thresholds_ok u t" "node_ok u t n"
  shows "abs_health (report_success t n) = health_succ (nat t) (abs_health n)"
proof (cases "nd_healthy n")
  case True
  then show ?thesis by (simp add: abs_health_def report_success_def Let_def)
next
  case False
  with assms have "wrap32 (nd_okCount n + 1) = nd_okCount n + 1"
    by (intro wrap32_id) (auto simp: node_ok_def thresholds_ok_def)
  with False assms show ?thesis
    by (auto simp: abs_health_def report_success_def node_ok_def Let_def nat_add_distrib)
qed

text \<open>Reports keep everything about a node but its health.\<close>

lemma report_static [simp]:
  "nd_Weight (report_failure u n) = nd_Weight n" "nd_Weight (report_success u n) = nd_Weight n"
  "nd_URL (report_failure u n) = nd_URL n" "nd_URL (report_success u n) = nd_URL n"
  "nd_WSURL (report_failure u n) = nd_WSURL n" "nd_WSURL (report_success u n) = nd_WSURL n"
  "nd_Name (report_failure u n) = nd_Name n" "nd_Name (report_success u n) = nd_Name n"
  by (simp_all add: report_failure_def report_success_def Let_def)

text \<open>A history of reports, \<open>True\<close> for a success.\<close>

definition report :: "int \<Rightarrow> int \<Rightarrow> bool \<Rightarrow> node \<Rightarrow> node" where
  "report u t b n = (if b then report_success t n else report_failure u n)"

definition health_step :: "nat \<Rightarrow> nat \<Rightarrow> bool \<Rightarrow> health \<Rightarrow> health" where
  "health_step u t b s = (if b then health_succ t s else health_fail u s)"

lemma report_history_ok:
  "thresholds_ok u t \<Longrightarrow> node_ok u t n \<Longrightarrow> node_ok u t (fold (report u t) bs n)"
  by (induction bs arbitrary: n) (auto simp: report_def report_failure_ok report_success_ok)

lemma history_abs:
  assumes "thresholds_ok u t" "node_ok u t n"
  shows "abs_health (fold (report u t) bs n) = fold (health_step (nat u) (nat t)) bs (abs_health n)"
  using assms(2)
proof (induction bs arbitrary: n)
  case Nil
  then show ?case by simp
next
  case (Cons b bs)
  have "node_ok u t (report u t b n)"
    using assms(1) Cons.prems by (simp add: report_def report_failure_ok report_success_ok)
  moreover have "abs_health (report u t b n) = health_step (nat u) (nat t) b (abs_health n)"
    using assms(1) Cons.prems
    by (simp add: report_def health_step_def abs_report_failure abs_report_success)
  ultimately show ?case using Cons.IH by simp
qed

text \<open>
  C18: the counters refine the abstract health machine: for thresholds that fit in \<open>int32\<close> and a
  node within its bounds (a fresh node is), any history of success and failure reports takes the
  node to the state that the machine counting consecutive reports reaches, and the bounds stay.
\<close>

theorem health_refinement:
  assumes "thresholds_ok u t" "node_ok u t n"
  shows "abs_health (fold (report u t) bs n) = fold (health_step (nat u) (nat t)) bs (abs_health n)
    \<and> node_ok u t (fold (report u t) bs n)"
  using history_abs [OF assms] report_history_ok [OF assms] by blast

definition sample_node :: node where
  "sample_node = make_node 0 \<lparr>nc_Name = ''a'', nc_URL = ''http://a'', nc_WSURL = [], nc_Weight = 2\<rparr>"

theorem health_refinement_witness:
  "abs_health (fold (report 3 2) [False, False, True, False, False, False] sample_node) = Down 0"
proof -
  have t: "thresholds_ok 3 2" by (simp add: thresholds_ok_def)
  have n: "node_ok 3 2 sample_node" unfolding sample_node_def by (rule node_ok_fresh [OF t])
  have a: "abs_health sample_node = Up 0" by (simp add: sample_node_def make_node_def abs_health_def)
  from health_refinement [OF t n, of "[False, False, True, False, False, False]"] show ?thesis
    by (simp add: a health_step_def)
qed

lemma failures_run:
  "0 < u \<Longrightarrow> k + m < u \<Longrightarrow> (health_step u t False ^^ m) (Up k) = Up (k + m)"
  by (induction m) (auto simp: health_step_def)

lemma failures_down: "(health_step u t False ^^ m) (Down 0) = Down 0"
  by (induction m) (auto simp: health_step_def)

lemma successes_run:
  "0 < t \<Longrightarrow> k + m < t \<Longrightarrow> (health_step u t True ^^ m) (Down k) = Down (k + m)"
  by (induction m) (auto simp: health_step_def)

lemma successes_up: "(health_step u t True ^^ m) (Up 0) = Up 0"
  by (induction m) (auto simp: health_step_def)

lemma exact_failures:
  assumes "0 < u" "u \<le> m"
  shows "(health_step u t False ^^ m) (Up 0) = Down 0"
proof -
  have m: "m = (m - u) + Suc (u - 1)" using assms by simp
  have "(health_step u t False ^^ (u - 1)) (Up 0) = Up (u - 1)"
    using assms failures_run [of u 0 "u - 1"] by simp
  then have "(health_step u t False ^^ Suc (u - 1)) (Up 0) = Down 0"
    using assms(1) by (simp only: funpow.simps o_apply) (simp add: health_step_def)
  then show ?thesis by (subst m) (simp only: funpow_add o_apply failures_down)
qed

lemma exact_successes:
  assumes "0 < t" "t \<le> m"
  shows "(health_step u t True ^^ m) (Down 0) = Up 0"
proof -
  have m: "m = (m - t) + Suc (t - 1)" using assms by simp
  have "(health_step u t True ^^ (t - 1)) (Down 0) = Down (t - 1)"
    using assms successes_run [of t 0 "t - 1"] by simp
  then have "(health_step u t True ^^ Suc (t - 1)) (Down 0) = Up 0"
    using assms(1) by (simp only: funpow.simps o_apply) (simp add: health_step_def)
  then show ?thesis by (subst m) (simp only: funpow_add o_apply successes_up)
qed

lemma abs_health_healthy: "nd_healthy n \<longleftrightarrow> (\<exists>k. abs_health n = Up k)"
  by (simp add: abs_health_def)

text \<open>
  A node that has just had a success goes down exactly when \<open>unhealthyThreshold\<close> failures
  follow in a row, and a node that is down and has just had a failure comes back exactly when
  \<open>healthyThreshold\<close> successes follow in a row, however long the run (wrap-around included).
\<close>

lemma health_thresholds_exact:
  assumes "thresholds_ok u t" "node_ok u t n"
  shows "if nd_healthy n
    then nd_healthy (fold (report u t) (replicate m False) (report_success t n)) = (int m < u)
    else nd_healthy (fold (report u t) (replicate m True) (report_failure u n)) = (t \<le> int m)"
proof (cases "nd_healthy n")
  case True
  have ok: "node_ok u t (report_success t n)" by (rule report_success_ok [OF assms])
  have "abs_health (report_success t n) = Up 0"
    using True by (simp add: abs_report_success [OF assms]) (simp add: abs_health_def)
  then have "abs_health (fold (report u t) (replicate m False) (report_success t n)) =
      (if int m < u then Up m else Down 0)"
    using history_abs [OF assms(1) ok, of "replicate m False"] assms(1)
      failures_run [of "nat u" 0 m "nat t"] exact_failures [of "nat u" m "nat t"]
    by (simp add: thresholds_ok_def zless_nat_eq_int_zless del: fold_replicate)
      (simp add: fold_replicate)
  with True show ?thesis by (auto simp: abs_health_healthy)
next
  case False
  have ok: "node_ok u t (report_failure u n)" by (rule report_failure_ok [OF assms])
  have "abs_health (report_failure u n) = Down 0"
    using False by (simp add: abs_report_failure [OF assms]) (simp add: abs_health_def)
  then have "abs_health (fold (report u t) (replicate m True) (report_failure u n)) =
      (if int m < t then Down m else Up 0)"
    using history_abs [OF assms(1) ok, of "replicate m True"] assms(1)
      successes_run [of "nat t" 0 m "nat u"] exact_successes [of "nat t" m "nat u"]
    by (simp add: thresholds_ok_def fold_replicate)
  with False show ?thesis by (auto simp: abs_health_healthy)
qed

lemma health_thresholds_exact_example:
  "nd_healthy (fold (report 3 2) (replicate 2 False) (report_success 2 sample_node)) \<and>
   \<not> nd_healthy (fold (report 3 2) (replicate 3 False) (report_success 2 sample_node))"
proof -
  have t: "thresholds_ok 3 2" by (simp add: thresholds_ok_def)
  have n: "node_ok 3 2 sample_node" unfolding sample_node_def by (rule node_ok_fresh [OF t])
  have h: "nd_healthy sample_node" by (simp add: sample_node_def make_node_def)
  from health_thresholds_exact [OF t n, of 2] health_thresholds_exact [OF t n, of 3] h show ?thesis
    by simp
qed

end
