(* ===== verification/Balancer_Registry.thy ===== *)
theory Balancer_Registry
  imports Balancer_Health
begin

section \<open>The registry: invariant, reload, reachable states\<close>

text \<open>
  The registry's invariant, its preservation by every operation that requests, health checks and
  reloads perform, in any interleaving, and what follows for a request: choosing a node never
  panics and never fails.
\<close>

subsection \<open>Configurations\<close>

definition cfg_weight :: "node_config \<Rightarrow> int" where
  "cfg_weight n = (if nc_Weight n \<le> 0 then 1 else nc_Weight n)"

text \<open>The total weight of a chain's nodes fits in an \<open>int\<close>.\<close>

definition fits :: "node_config list \<Rightarrow> bool" where
  "fits cfgs \<longleftrightarrow> sum_list (map cfg_weight cfgs) < 9223372036854775808"

definition chains_ok :: "(string \<rightharpoonup> chain) \<Rightarrow> bool" where
  "chains_ok m \<longleftrightarrow> (\<forall>c ch. m c = Some ch \<longrightarrow> ch_Nodes ch \<noteq> [] \<and> fits (ch_Nodes ch))"

definition config_view :: "nat \<Rightarrow> node_config \<Rightarrow> node_view" where
  "config_view i n =
     \<lparr>nv_Name = (if nc_Name n = [] then ''node-'' @ show_nat (i + 1) else nc_Name n),
      nv_URL = nc_URL n, nv_WSURL = DeriveWSURL (nc_URL n) (nc_WSURL n),
      nv_Weight = cfg_weight n, nv_Healthy = True\<rparr>"

definition config_views :: "node_config list \<Rightarrow> node_view list" where
  "config_views ns = map (\<lambda>(i, n). config_view i n) (enumerate 0 ns)"

subsection \<open>Allocation\<close>

lemma build_nodes_from_spec:
  "build_nodes_from i ns h = (as, h') \<Longrightarrow>
     as = [hp_next h..<hp_next h + length ns] \<and> hp_next h' = hp_next h + length ns \<and>
     (\<forall>k < length ns. hp_node h' (hp_next h + k) = make_node (i + k) (ns ! k)) \<and>
     (\<forall>a < hp_next h. hp_node h' a = hp_node h a)"
proof (induction ns arbitrary: i h as h')
  case Nil
  then show ?case by simp
next
  case (Cons n ns)
  define h1 where "h1 = snd (alloc (make_node i n) h)"
  obtain as' h2 where r: "build_nodes_from (Suc i) ns h1 = (as', h2)"
    by (cases "build_nodes_from (Suc i) ns h1")
  have h1: "hp_next h1 = Suc (hp_next h)" "hp_node h1 (hp_next h) = make_node i n"
    "\<And>b. b < hp_next h \<Longrightarrow> hp_node h1 b = hp_node h b"
    by (simp_all add: h1_def alloc_def)
  have as: "as = hp_next h # as'" "h' = h2"
    using Cons.prems r by (simp_all add: alloc_def h1_def Let_def)
  note IH = Cons.IH [OF r, unfolded h1]
  have "hp_node h2 (hp_next h + k) = make_node (i + k) ((n # ns) ! k)" if "k < Suc (length ns)" for k
  proof (cases k)
    case 0
    then show ?thesis using IH h1(2) by simp
  next
    case (Suc j)
    then show ?thesis using IH that by (auto dest!: spec [of _ j])
  qed
  moreover have "hp_node h2 b = hp_node h b" if "b < hp_next h" for b
    using IH that h1(3) [OF that] by simp
  ultimately show ?case
    using IH by (simp add: as upt_conv_Cons del: upt_Suc)
qed

lemma weight_make_node: "nd_Weight (make_node i n) = cfg_weight n"
  by (simp add: make_node_def cfg_weight_def)

lemma snapshot_make_node:
  "hp_node h a = make_node i n \<Longrightarrow> node_snapshot h a = config_view i n"
  by (simp add: node_snapshot_def make_node_def config_view_def cfg_weight_def)

text \<open>What a freshly built list of nodes looks like.\<close>

definition fresh_nodes :: "heap \<Rightarrow> heap \<Rightarrow> nat list \<Rightarrow> node_config list \<Rightarrow> bool" where
  "fresh_nodes h h' as ns \<longleftrightarrow>
     as = [hp_next h..<hp_next h + length ns] \<and> hp_next h' = hp_next h + length ns \<and>
     (\<forall>k < length ns. hp_node h' (hp_next h + k) = make_node k (ns ! k)) \<and>
     (\<forall>a < hp_next h. hp_node h' a = hp_node h a)"

lemma buildNodes_fresh: "buildNodes ns h = (as, h') \<Longrightarrow> fresh_nodes h h' as ns"
  unfolding buildNodes_def fresh_nodes_def
  using build_nodes_from_spec [of 0 ns h as h'] by simp

lemma fresh_snapshot: "fresh_nodes h h' as ns \<Longrightarrow> map (node_snapshot h') as = config_views ns"
  by (rule nth_equalityI)
    (auto simp: fresh_nodes_def config_views_def nth_enumerate_eq snapshot_make_node)

lemma fresh_weights: "fresh_nodes h h' as ns \<Longrightarrow> map (weight h') as = map cfg_weight ns"
  by (rule nth_equalityI) (auto simp: fresh_nodes_def weight_def weight_make_node)

subsection \<open>The invariant\<close>

definition pool_inv :: "heap \<Rightarrow> pool \<Rightarrow> bool" where
  "pool_inv h p \<longleftrightarrow>
     po_nodes p \<noteq> [] \<and> distinct (po_nodes p) \<and> (\<forall>a \<in> set (po_nodes p). a < hp_next h) \<and>
     weights_ok h (po_nodes p) \<and> rr_ok p"

definition reg_inv :: "registry \<Rightarrow> bool" where
  "reg_inv r \<longleftrightarrow> (\<forall>c p. rg_pools r c = Some p \<longrightarrow> pool_inv (rg_heap r) p)"

text \<open>Heaps only grow, and a node's configuration never changes.\<close>

definition heap_ext :: "heap \<Rightarrow> heap \<Rightarrow> bool" where
  "heap_ext h h' \<longleftrightarrow> hp_next h \<le> hp_next h' \<and> (\<forall>a < hp_next h. weight h' a = weight h a)"

lemma pool_inv_ext: "pool_inv h p \<Longrightarrow> heap_ext h h' \<Longrightarrow> pool_inv h' p"
proof -
  assume inv: "pool_inv h p" and ext: "heap_ext h h'"
  then have "map (weight h') (po_nodes p) = map (weight h) (po_nodes p)"
    by (auto simp: pool_inv_def heap_ext_def)
  then have "sum_list (map (weight h') (po_nodes p)) = sum_list (map (weight h) (po_nodes p))"
    by (rule arg_cong)
  with inv ext show ?thesis by (auto simp: pool_inv_def heap_ext_def weights_ok_def)
qed

lemma fresh_ext: "fresh_nodes h h' as ns \<Longrightarrow> heap_ext h h'"
  by (simp add: fresh_nodes_def heap_ext_def weight_def)

lemma fresh_pool_inv:
  assumes "fresh_nodes h h' as ns" "ns \<noteq> []" "fits ns" "po_nodes p = as" "po_rr p = 0"
  shows "pool_inv h' p"
proof -
  have "\<forall>w \<in> set (map (weight h') as). 0 < w"
    unfolding fresh_weights [OF assms(1)] by (auto simp: cfg_weight_def)
  then have "\<forall>a \<in> set as. 0 < weight h' a" by simp
  moreover have "sum_list (map (weight h') as) < 9223372036854775808"
    unfolding fresh_weights [OF assms(1)] using assms(3) by (simp add: fits_def)
  ultimately have "weights_ok h' as" by (simp add: weights_ok_def)
  with assms show ?thesis by (auto simp: pool_inv_def fresh_nodes_def rr_ok_def)
qed

lemma report_ext: "heap_ext h (ReportSuccess p a h)" "heap_ext h (ReportFailure p a h)"
  by (auto simp: heap_ext_def ReportSuccess_def ReportFailure_def set_node_def weight_def)

lemma reg_inv_pool_update:
  "reg_inv r \<Longrightarrow> pool_inv (rg_heap r) p \<Longrightarrow> reg_inv (r\<lparr>rg_pools := (rg_pools r)(c \<mapsto> p)\<rparr>)"
  by (auto simp: reg_inv_def)

lemma reg_inv_heap: "reg_inv r \<Longrightarrow> heap_ext (rg_heap r) h \<Longrightarrow> reg_inv (r\<lparr>rg_heap := h\<rparr>)"
  using pool_inv_ext by (fastforce simp: reg_inv_def)

lemma reg_inv_replace:
  assumes "reg_inv r" "heap_ext (rg_heap r) h" "pool_inv h p"
  shows "reg_inv (r\<lparr>rg_heap := h, rg_pools := (rg_pools r)(c \<mapsto> p)\<rparr>)"
  using assms pool_inv_ext by (fastforce simp: reg_inv_def)

subsection \<open>Choosing a node under the invariant\<close>

lemma weights_ok_sub: "weights_ok h as \<Longrightarrow> weights_ok h (ws_candidates h as)"
  by (simp add: ws_candidates_def Let_def weights_ok_filter)

lemma length_le_weights:
  "\<forall>a \<in> set as. 0 < weight h a \<Longrightarrow> int (length as) \<le> sum_list (map (weight h) as)"
  by (induction as) auto

text \<open>With a healthy node in the pool, \<open>Next\<close> gives one; else it goes round all the nodes.\<close>

lemma Next_none_healthy:
  assumes "pool_inv h p" "filter (Healthy h) (po_nodes p) = []"
  defines "r \<equiv> (po_rr p + 1) mod int (length (po_nodes p))"
  shows "Next h p = (Pick (po_nodes p ! nat r), p\<lparr>po_rr := r\<rparr>)"
    and "nat r < length (po_nodes p)" and "rr_ok (p\<lparr>po_rr := r\<rparr>)"
proof -
  let ?n = "int (length (po_nodes p))"
  have pos: "0 < ?n" and rr: "0 \<le> po_rr p" "po_rr p < 9223372036854775807"
    using assms(1) by (auto simp: pool_inv_def rr_ok_def)
  have "?n \<le> sum_list (map (weight h) (po_nodes p))"
    using assms(1) by (intro length_le_weights) (simp add: pool_inv_def weights_ok_def)
  then have n: "?n < 9223372036854775808"
    using assms(1) by (simp add: pool_inv_def weights_ok_def)
  have r: "0 \<le> r" "r < ?n" using pos by (simp_all add: r_def)
  have "wrap64 (po_rr p + 1) smod ?n = r"
    using rr pos by (simp add: r_def wrap64_id smod_pos)
  then show "Next h p = (Pick (po_nodes p ! nat r), p\<lparr>po_rr := r\<rparr>)"
    using assms(2) pos r by (auto simp: Next_def Let_def)
  show "nat r < length (po_nodes p)" "rr_ok (p\<lparr>po_rr := r\<rparr>)"
    using r n by (auto simp: rr_ok_def)
qed

lemma Next_cases:
  assumes "pool_inv h p"
  obtains a r where "Next h p = (Pick a, p\<lparr>po_rr := r\<rparr>)" "a \<in> set (po_nodes p)"
    "(\<exists>b \<in> set (po_nodes p). Healthy h b) \<longrightarrow> Healthy h a" "rr_ok (p\<lparr>po_rr := r\<rparr>)"
proof (cases "filter (Healthy h) (po_nodes p) = []")
  case False
  with assms obtain a r where "Next h p = (Pick a, p\<lparr>po_rr := r\<rparr>)"
    "a \<in> set (filter (Healthy h) (po_nodes p))" "rr_ok (p\<lparr>po_rr := r\<rparr>)"
    using http_rotation.sel_cand [of h p] weights_ok_filter by (metis pool_inv_def)
  then show thesis by (intro that [of a r]) auto
next
  case True
  note N = Next_none_healthy [OF assms True]
  show thesis
    by (rule that [OF N(1) _ _ N(3)]) (use True N(2) in \<open>auto simp: filter_empty_conv\<close>)
qed

lemma NextWS_cases:
  assumes "pool_inv h p"
  obtains (none) "NextWS h p = (NoNode, p)" "\<forall>a \<in> set (po_nodes p). \<not> has_ws h a"
  | (some) a r where "NextWS h p = (Pick a, p\<lparr>po_rr := r\<rparr>)" "a \<in> set (po_nodes p)" "has_ws h a"
    "(\<exists>b \<in> set (po_nodes p). has_ws h b \<and> Healthy h b) \<longrightarrow> Healthy h a" "rr_ok (p\<lparr>po_rr := r\<rparr>)"
proof (cases "ws_candidates h (po_nodes p) = []")
  case True
  then have "\<forall>a \<in> set (po_nodes p). \<not> has_ws h a"
    by (auto simp: ws_candidates_def Let_def filter_empty_conv split: if_splits)
  with True show thesis by (intro none) (simp_all add: NextWS_def)
next
  case False
  with assms obtain a r where "NextWS h p = (Pick a, p\<lparr>po_rr := r\<rparr>)"
    and a: "a \<in> set (ws_candidates h (po_nodes p))" and "rr_ok (p\<lparr>po_rr := r\<rparr>)"
    using ws_rotation.sel_cand [of h p] weights_ok_sub by (metis pool_inv_def)
  then show thesis
    by (intro some [of a r]) (auto simp: ws_candidates_def Let_def filter_empty_conv split: if_splits)
qed

lemma pool_inv_rr: "pool_inv h p \<Longrightarrow> rr_ok (p\<lparr>po_rr := r\<rparr>) \<Longrightarrow> pool_inv h (p\<lparr>po_rr := r\<rparr>)"
  by (simp add: pool_inv_def)

lemma Next_inv: "pool_inv h p \<Longrightarrow> pool_inv h (snd (Next h p))"
  by (rule Next_cases [of h p]) (auto intro: pool_inv_rr)

lemma NextWS_inv: "pool_inv h p \<Longrightarrow> pool_inv h (snd (NextWS h p))"
  by (rule NextWS_cases [of h p]) (auto intro: pool_inv_rr)

subsection \<open>Construction and reload\<close>

lemma ReplaceNodes_fresh:
  "ReplaceNodes ns p h = (p', h') \<Longrightarrow> fresh_nodes h h' (po_nodes p') ns \<and> po_rr p' = 0"
  by (auto simp: ReplaceNodes_def Let_def split: prod.splits dest!: buildNodes_fresh)

lemma newPool_fresh:
  "newPool c ns u t h = (p', h') \<Longrightarrow> fresh_nodes h h' (po_nodes p') ns \<and> po_rr p' = 0"
  by (auto simp: newPool_def Let_def split: prod.splits dest!: buildNodes_fresh)

lemma new_pools_inv:
  "chains_ok m \<Longrightarrow> reg_inv r \<Longrightarrow> reg_inv (new_pools m cs r)"
proof (induction cs arbitrary: r)
  case Nil
  then show ?case by simp
next
  case (Cons c cs)
  show ?case
  proof (cases "m c")
    case None
    with Cons show ?thesis by simp
  next
    case (Some ch)
    obtain p h where n: "newPool c (ch_Nodes ch) (rg_unhealthyThreshold r) (rg_healthyThreshold r) (rg_heap r) = (p, h)"
      by fastforce
    note f = newPool_fresh [OF n]
    from Cons.prems(1) Some have "ch_Nodes ch \<noteq> []" "fits (ch_Nodes ch)" by (auto simp: chains_ok_def)
    with f have "pool_inv h p" by (blast intro: fresh_pool_inv)
    with f Cons.prems have "reg_inv (r\<lparr>rg_heap := h, rg_pools := (rg_pools r)(c \<mapsto> p)\<rparr>)"
      by (blast intro: reg_inv_replace fresh_ext)
    with Cons.IH Cons.prems(1) Some n show ?thesis by simp
  qed
qed

lemma new_pools_dom:
  "dom (rg_pools (new_pools m cs r)) = dom (rg_pools r) \<union> (set cs \<inter> dom m)"
  by (induction cs arbitrary: r) (auto split: option.split prod.split)

lemma NewRegistry_inv: "chains_ok (cf_Chains cfg) \<Longrightarrow> reg_inv (NewRegistry h ids cfg)"
  unfolding NewRegistry_def by (rule new_pools_inv) (simp_all add: reg_inv_def)

text \<open>Whatever it does, a reload keeps the set of networks and never touches a node in use.\<close>

lemma reload_pools_frame:
  "reload_pools m cs r = (e, r') \<Longrightarrow>
     dom (rg_pools r') = dom (rg_pools r) \<and> hp_next (rg_heap r) \<le> hp_next (rg_heap r') \<and>
     (\<forall>a < hp_next (rg_heap r). hp_node (rg_heap r') a = hp_node (rg_heap r) a) \<and>
     (\<forall>c. c \<notin> set cs \<or> m c = None \<longrightarrow> rg_pools r' c = rg_pools r c)"
proof (induction cs arbitrary: r)
  case Nil
  then show ?case by simp
next
  case (Cons c cs)
  show ?case
  proof (cases "rg_pools r c = None \<or> m c = None")
    case True
    with Cons.prems have "reload_pools m cs r = (e, r')" by (auto split: option.splits)
    from Cons.IH [OF this] show ?thesis by auto
  next
    case False
    then obtain p ch where p: "rg_pools r c = Some p" and ch: "m c = Some ch" by auto
    show ?thesis
    proof (cases "ch_Nodes ch = []")
      case True
      with Cons.prems p ch show ?thesis by simp
    next
      case ne: False
      obtain q h where n: "ReplaceNodes (ch_Nodes ch) p (rg_heap r) = (q, h)" by fastforce
      let ?r = "r\<lparr>rg_heap := h, rg_pools := (rg_pools r)(c \<mapsto> q)\<rparr>"
      from Cons.prems p ch ne n have "reload_pools m cs ?r = (e, r')" by simp
      note IH = Cons.IH [OF this]
      have d: "dom (rg_pools ?r) = dom (rg_pools r)" using p by auto
      from conjunct1 [OF IH] d have "dom (rg_pools r') = dom (rg_pools r)" by (rule trans)
      moreover have "d \<notin> set (c # cs) \<or> m d = None \<Longrightarrow> rg_pools r' d = rg_pools r d" for d
        using IH ch by auto
      ultimately show ?thesis
        using IH ReplaceNodes_fresh [OF n] by (simp add: fresh_nodes_def)
    qed
  qed
qed

lemma reload_pools_inv:
  assumes "\<And>c ch. m c = Some ch \<Longrightarrow> fits (ch_Nodes ch)"
  shows "reg_inv r \<Longrightarrow> reload_pools m cs r = (e, r') \<Longrightarrow> reg_inv r'"
proof (induction cs arbitrary: r)
  case Nil
  then show ?case by simp
next
  case (Cons c cs)
  show ?case
  proof (cases "rg_pools r c = None \<or> m c = None")
    case True
    with Cons.prems have "reload_pools m cs r = (e, r')" by (auto split: option.splits)
    with Cons show ?thesis by blast
  next
    case False
    then obtain p ch where p: "rg_pools r c = Some p" and ch: "m c = Some ch" by auto
    show ?thesis
    proof (cases "ch_Nodes ch = []")
      case True
      with Cons.prems p ch show ?thesis by simp
    next
      case ne: False
      obtain q h where n: "ReplaceNodes (ch_Nodes ch) p (rg_heap r) = (q, h)" by fastforce
      let ?r = "r\<lparr>rg_heap := h, rg_pools := (rg_pools r)(c \<mapsto> q)\<rparr>"
      note f = ReplaceNodes_fresh [OF n]
      have "pool_inv h q" using f ne assms [OF ch] by (blast intro: fresh_pool_inv)
      with f Cons.prems(1) have "reg_inv ?r" by (blast intro: reg_inv_replace fresh_ext)
      moreover from Cons.prems(2) p ch ne n have "reload_pools m cs ?r = (e, r')" by simp
      ultimately show ?thesis by (rule Cons.IH)
    qed
  qed
qed

lemma snapshot_set_node:
  "a \<notin> set as \<Longrightarrow> map (node_snapshot (set_node h a n)) as = map (node_snapshot h) as"
  by (auto simp: node_snapshot_def set_node_def)

lemma snapshot_frame:
  assumes "pool_inv h p" "\<forall>a < hp_next h. hp_node h' a = hp_node h a"
  shows "pool_snapshot h' p = pool_snapshot h p"
  using assms by (auto simp: pool_snapshot_def node_snapshot_def pool_inv_def)

text \<open>The views after a reload without error.\<close>

definition reloaded_views :: "(string \<rightharpoonup> chain) \<Rightarrow> registry \<Rightarrow> string \<Rightarrow> node_view list option" where
  "reloaded_views m r c =
     (case (rg_pools r c, m c) of
        (Some p, Some ch) \<Rightarrow> Some (config_views (ch_Nodes ch))
      | _ \<Rightarrow> registry_snapshot r c)"

lemma reload_pools_ok:
  assumes "chains_ok m"
  shows "reg_inv r \<Longrightarrow> distinct cs \<Longrightarrow> \<exists>r'. reload_pools m cs r = (None, r') \<and>
    (\<forall>c. registry_snapshot r' c = (if c \<in> set cs then reloaded_views m r c else registry_snapshot r c))"
proof (induction cs arbitrary: r)
  case Nil
  then show ?case by simp
next
  case (Cons c cs)
  show ?case
  proof (cases "rg_pools r c = None \<or> m c = None")
    case True
    then have same: "reloaded_views m r c = registry_snapshot r c"
      by (auto simp: reloaded_views_def split: option.splits)
    from True have eq: "reload_pools m (c # cs) r = reload_pools m cs r" by (auto split: option.splits)
    from Cons.IH [OF Cons.prems(1)] Cons.prems(2) same show ?thesis unfolding eq by auto
  next
    case False
    then obtain p ch where p: "rg_pools r c = Some p" and ch: "m c = Some ch" by auto
    have ne: "ch_Nodes ch \<noteq> []" and fit: "fits (ch_Nodes ch)"
      using assms ch by (auto simp: chains_ok_def)
    obtain q h where n: "ReplaceNodes (ch_Nodes ch) p (rg_heap r) = (q, h)" by fastforce
    let ?r = "r\<lparr>rg_heap := h, rg_pools := (rg_pools r)(c \<mapsto> q)\<rparr>"
    note f = ReplaceNodes_fresh [OF n]
    have "pool_inv h q" using f ne fit by (blast intro: fresh_pool_inv)
    with f Cons.prems(1) have inv: "reg_inv ?r" by (blast intro: reg_inv_replace fresh_ext)
    have old: "registry_snapshot ?r d = registry_snapshot r d" if "d \<noteq> c" for d
      using that f Cons.prems(1) snapshot_frame
      by (cases "rg_pools r d") (auto simp: registry_snapshot_def fresh_nodes_def reg_inv_def)
    have new: "registry_snapshot ?r c = reloaded_views m r c"
      using f fresh_snapshot
      by (auto simp: registry_snapshot_def reloaded_views_def p ch pool_snapshot_def)
    have views: "reloaded_views m ?r d = reloaded_views m r d" if "d \<noteq> c" for d
      unfolding reloaded_views_def using that old [OF that] by (auto split: option.split)
    have eq: "reload_pools m (c # cs) r = reload_pools m cs ?r" using p ch ne n by simp
    from Cons.IH [OF inv] Cons.prems(2) old new views show ?thesis
      unfolding eq by (fastforce split: if_splits)
  qed
qed

subsection \<open>Reachable registries\<close>

text \<open>
  What can happen to a registry, one step at a time: requests and WebSocket sessions choose a node,
  requests and health checks report on any node that was ever allocated (the pool may have been
  reloaded since the address was read), and a reload installs configured nodes. A health check is a
  sequence of reports, which other steps may interleave.
\<close>

inductive reg_step :: "registry \<Rightarrow> registry \<Rightarrow> bool" where
  next_http: "rg_pools r c = Some p \<Longrightarrow> Next (rg_heap r) p = (x, p') \<Longrightarrow>
     reg_step r (r\<lparr>rg_pools := (rg_pools r)(c \<mapsto> p')\<rparr>)"
| next_ws: "rg_pools r c = Some p \<Longrightarrow> NextWS (rg_heap r) p = (x, p') \<Longrightarrow>
     reg_step r (r\<lparr>rg_pools := (rg_pools r)(c \<mapsto> p')\<rparr>)"
| success: "rg_pools r c = Some p \<Longrightarrow> a < hp_next (rg_heap r) \<Longrightarrow>
     reg_step r (r\<lparr>rg_heap := ReportSuccess p a (rg_heap r)\<rparr>)"
| failure: "rg_pools r c = Some p \<Longrightarrow> a < hp_next (rg_heap r) \<Longrightarrow>
     reg_step r (r\<lparr>rg_heap := ReportFailure p a (rg_heap r)\<rparr>)"
| reload: "(\<And>c ch. m c = Some ch \<Longrightarrow> fits (ch_Nodes ch)) \<Longrightarrow> ReloadNodes ids m r = (e, r') \<Longrightarrow>
     reg_step r r'"

inductive reg_reachable :: "config \<Rightarrow> registry \<Rightarrow> bool" for cfg where
  start: "enumerates ids (cf_Chains cfg) \<Longrightarrow> reg_reachable cfg (NewRegistry h ids cfg)"
| step: "reg_reachable cfg r \<Longrightarrow> reg_step r r' \<Longrightarrow> reg_reachable cfg r'"

inductive_cases reg_stepE: "reg_step r r'"

lemma reg_step_inv: "reg_step r r' \<Longrightarrow> reg_inv r \<Longrightarrow> reg_inv r'"
proof (induction rule: reg_step.induct)
  case (next_http r c p x p')
  then have "pool_inv (rg_heap r) p'" using Next_inv by (fastforce simp: reg_inv_def)
  with next_http.prems show ?case by (rule reg_inv_pool_update)
next
  case (next_ws r c p x p')
  then have "pool_inv (rg_heap r) p'" using NextWS_inv by (fastforce simp: reg_inv_def)
  with next_ws.prems show ?case by (rule reg_inv_pool_update)
next
  case (success r c p a)
  then show ?case by (blast intro: reg_inv_heap report_ext)
next
  case (failure r c p a)
  then show ?case by (blast intro: reg_inv_heap report_ext)
next
  case (reload m ids r e r')
  then show ?case unfolding ReloadNodes_def using reload_pools_inv by blast
qed

lemma dom_replace: "m c = Some p \<Longrightarrow> dom (m(c \<mapsto> q)) = dom m"
  by auto

lemma reg_step_dom: "reg_step r r' \<Longrightarrow> dom (rg_pools r') = dom (rg_pools r)"
proof (induction rule: reg_step.induct)
  case (reload m ids r e r')
  then show ?case using reload_pools_frame unfolding ReloadNodes_def by blast
qed (simp_all add: dom_replace del: dom_fun_upd fun_upd_apply)

lemma reachable_inv:
  assumes "reg_reachable cfg r" "chains_ok (cf_Chains cfg)"
  shows "reg_inv r \<and> dom (rg_pools r) = dom (cf_Chains cfg)"
  using assms(1)
proof (induction rule: reg_reachable.induct)
  case (start ids h)
  then have "dom (rg_pools (NewRegistry h ids cfg)) = dom (cf_Chains cfg)"
    by (auto simp: NewRegistry_def new_pools_dom enumerates_def)
  with NewRegistry_inv [OF assms(2)] show ?case by blast
next
  case (step r r')
  then show ?case using reg_step_inv reg_step_dom by blast
qed

subsection \<open>Properties\<close>

text \<open>A registry with one network of two nodes, weights 2 and 1, for the witnesses.\<close>

definition sample_chain :: chain where
  "sample_chain =
     \<lparr>ch_Name = ''Ethereum'',
      ch_Nodes = [\<lparr>nc_Name = ''a'', nc_URL = ''http://a'', nc_WSURL = [], nc_Weight = 2\<rparr>,
                  \<lparr>nc_Name = [], nc_URL = ''https://b'', nc_WSURL = [], nc_Weight = 0\<rparr>]\<rparr>"

definition sample_chains :: "string \<rightharpoonup> chain" where
  "sample_chains = [''eth'' \<mapsto> sample_chain]"

definition sample_config :: config where
  "sample_config =
     \<lparr>cf_Server = \<lparr>sv_Addr = [], sv_ReadTimeout = 0, sv_WriteTimeout = 0, sv_Domains = []\<rparr>,
      cf_Redis = \<lparr>rd_Enabled = False, rd_Addr = [], rd_Password = [], rd_DB = 0\<rparr>,
      cf_Database = \<lparr>db_Enabled = False, db_DSN = [], db_MaxConns = 0, db_MinConns = 0, db_TokenRefresh = 0\<rparr>,
      cf_Plans = [''free'' \<mapsto> \<lparr>pl_TokenIPRateLimitPerSecond = 3, pl_TokenIPRateLimitBurst = 6,
        pl_TokenRateLimitPerSecond = 5, pl_TokenRateLimitBurst = 0, pl_DailyQuota = 10000,
        pl_DeniedMethods = [''debug_traceCall'']\<rparr>],
      cf_Tokens = [\<lparr>tc_Key = ''t1'', tc_Plan = ''free'', tc_Name = ''n1'', tc_Enabled = True, tc_BillingFree = True\<rparr>],
      cf_Chains = sample_chains,
      cf_HealthCheck = \<lparr>hc_Interval = 0, hc_Timeout = 0, hc_UnhealthyThreshold = 3, hc_HealthyThreshold = 2\<rparr>,
      cf_Billing = \<lparr>bl_Publisher = [], bl_StreamKey = []\<rparr>,
      cf_Admin = \<lparr>ad_Enabled = False, ad_JWT = \<lparr>aj_Secret = [], aj_Issuer = [], aj_Subject = [], aj_TTL = 0,
        aj_RotateEvery = 0, aj_RotateOnStart = False, aj_RevokePrevious = False, aj_CleanupRetention = 0,
        aj_LogToken = False\<rparr>\<rparr>,
      cf_WebSocket = \<lparr>ws_Enabled = True, ws_MaxConnectionsPerToken = 0, ws_MaxSubscriptionsPerConn = 0,
        ws_NotificationBillUnits = 0\<rparr>\<rparr>"

definition empty_heap :: heap where
  "empty_heap = \<lparr>hp_node = (\<lambda>a. sample_node), hp_next = 0\<rparr>"

definition sample_registry :: registry where
  "sample_registry = NewRegistry empty_heap [''eth''] sample_config"

lemma sample_chains_ok: "chains_ok sample_chains"
  by (auto simp: chains_ok_def sample_chains_def sample_chain_def fits_def cfg_weight_def)

lemma sample_enumerates: "enumerates [''eth''] sample_chains"
  by (simp add: enumerates_def sample_chains_def)

lemma sample_reachable: "reg_reachable sample_config sample_registry"
  unfolding sample_registry_def
  by (rule reg_reachable.start) (simp add: sample_config_def sample_enumerates)

lemma sample_pool: "rg_pools sample_registry ''eth'' =
    Some \<lparr>po_chainID = ''eth'', po_nodes = [0, 1], po_rr = 0, po_unhealthyThreshold = 3, po_healthyThreshold = 2\<rparr>"
  by (simp add: sample_registry_def NewRegistry_def sample_config_def sample_chains_def sample_chain_def
    newPool_def buildNodes_def alloc_def empty_heap_def wrap32_def)

lemma sample_inv: "reg_inv sample_registry"
  using reachable_inv [OF sample_reachable] sample_chains_ok by (simp add: sample_config_def)

lemma sample_pool_inv: "pool_inv (rg_heap sample_registry) (the (rg_pools sample_registry ''eth''))"
  using sample_inv sample_pool by (metis option.sel reg_inv_def)

lemma sample_nodes:
  "weight (rg_heap sample_registry) 0 = 2" "weight (rg_heap sample_registry) 1 = 1"
  "weight (rg_heap sample_registry) (Suc 0) = 1"
  "Healthy (rg_heap sample_registry) 0" "Healthy (rg_heap sample_registry) (Suc 0)"
  "hp_next (rg_heap sample_registry) = 2"
  by (simp_all add: sample_registry_def NewRegistry_def sample_config_def sample_chains_def sample_chain_def
    newPool_def buildNodes_def alloc_def empty_heap_def weight_def Healthy_def make_node_def)

text \<open>
  C15: weighted round robin is fair. In a pool that satisfies the invariant, with the health of its
  nodes unchanged, as many consecutive calls of \<open>Next\<close> as the total weight of the healthy nodes
  return every healthy node exactly as often as its weight says and no other node at all.
\<close>

theorem next_fair_turn:
  assumes "pool_inv h p" "\<exists>a \<in> set (po_nodes p). Healthy h a"
  shows "count_list (fst (run_sel (Next h) (nat (total_weight h (filter (Healthy h) (po_nodes p)))) p)) (Pick a) =
    (if a \<in> set (po_nodes p) \<and> Healthy h a then nat (weight h a) else 0)"
proof -
  have "filter (Healthy h) (po_nodes p) \<noteq> []" using assms(2) by (auto simp: filter_empty_conv)
  with assms(1) show ?thesis
    using http_rotation.fair_turn [of h p a] weights_ok_filter by (simp add: pool_inv_def)
qed

theorem next_fair_turn_witness:
  "count_list (fst (run_sel (Next (rg_heap sample_registry)) 3 (the (rg_pools sample_registry ''eth'')))) (Pick 0) = 2"
proof -
  from next_fair_turn [OF sample_pool_inv, of 0] show ?thesis
    by (simp add: sample_pool sample_nodes total_weight_def wrap64_id)
qed

text \<open>
  In every registry reachable from a configuration whose chains have nodes, through any
  interleaving of node choices, health reports and reloads, \<open>Next\<close> returns a node of the pool
  without a runtime panic for every configured network, and a healthy one if there is one.
\<close>

lemma next_never_panics:
  assumes "reg_reachable cfg r" "chains_ok (cf_Chains cfg)" "cf_Chains cfg c \<noteq> None"
  shows "\<exists>p a. rg_pools r c = Some p \<and> fst (Next (rg_heap r) p) = Pick a \<and> a \<in> set (po_nodes p) \<and>
    ((\<exists>b \<in> set (po_nodes p). Healthy (rg_heap r) b) \<longrightarrow> Healthy (rg_heap r) a)"
proof -
  from reachable_inv [OF assms(1,2)] assms(3) have "reg_inv r" and "c \<in> dom (rg_pools r)" by auto
  then obtain p where p: "rg_pools r c = Some p" and inv: "pool_inv (rg_heap r) p"
    by (auto simp: reg_inv_def)
  from inv show ?thesis by (rule Next_cases) (use p in auto)
qed

lemma next_never_panics_example:
  "\<exists>p a. rg_pools sample_registry ''eth'' = Some p \<and> fst (Next (rg_heap sample_registry) p) = Pick a \<and>
    a \<in> set (po_nodes p) \<and>
    ((\<exists>b \<in> set (po_nodes p). Healthy (rg_heap sample_registry) b) \<longrightarrow> Healthy (rg_heap sample_registry) a)"
  by (rule next_never_panics [OF sample_reachable])
    (simp_all add: sample_config_def sample_chains_ok, simp add: sample_chains_def)

text \<open>
  \<open>NextWS\<close> in a reachable registry never panics either, and the node it returns has a
  WebSocket URL; it returns none exactly when no node of the pool has one.
\<close>

lemma next_ws_url:
  assumes "reg_reachable cfg r" "chains_ok (cf_Chains cfg)" "rg_pools r c = Some p"
  shows "case fst (NextWS (rg_heap r) p) of
      Pick a \<Rightarrow> a \<in> set (po_nodes p) \<and> nd_WSURL (hp_node (rg_heap r) a) \<noteq> []
    | NoNode \<Rightarrow> \<forall>a. a \<in> set (po_nodes p) \<longrightarrow> nd_WSURL (hp_node (rg_heap r) a) = []
    | Panicked \<Rightarrow> False"
proof -
  from reachable_inv [OF assms(1,2)] assms(3) have "pool_inv (rg_heap r) p" by (auto simp: reg_inv_def)
  then show ?thesis by (rule NextWS_cases) (auto simp: has_ws_def)
qed

lemma next_ws_url_example:
  "case fst (NextWS (rg_heap sample_registry) (the (rg_pools sample_registry ''eth''))) of
      Pick a \<Rightarrow> a \<in> {0, 1} \<and> nd_WSURL (hp_node (rg_heap sample_registry) a) \<noteq> []
    | NoNode \<Rightarrow> \<forall>a. a \<in> {0, 1} \<longrightarrow> nd_WSURL (hp_node (rg_heap sample_registry) a) = []
    | Panicked \<Rightarrow> False"
proof -
  have ok: "chains_ok (cf_Chains sample_config)" by (simp add: sample_config_def sample_chains_ok)
  from next_ws_url [OF sample_reachable ok sample_pool] show ?thesis
    by (simp add: sample_pool cong: pick.case_cong)
qed

text \<open>
  C17: a reload with a configuration whose chains all have nodes succeeds in whatever order the
  pools are visited. Every network of the registry that the configuration names gets exactly the
  configured nodes, healthy and with their default names, weights and WebSocket URLs; the others
  keep what they have; no network appears or disappears.
\<close>

theorem reload_replaces_nodes:
  assumes "reg_inv r" "chains_ok m" "enumerates ids (rg_pools r)"
  shows "\<exists>r'. ReloadNodes ids m r = (None, r') \<and> dom (rg_pools r') = dom (rg_pools r) \<and>
    registry_snapshot r' = reloaded_views m r"
proof -
  have "distinct ids" using assms(3) by (simp add: enumerates_def)
  from reload_pools_ok [OF assms(2,1) this] obtain r' where r': "reload_pools m ids r = (None, r')"
    and v: "\<And>c. registry_snapshot r' c = (if c \<in> set ids then reloaded_views m r c else registry_snapshot r c)"
    by blast
  have "registry_snapshot r' c = reloaded_views m r c" for c
    using v [of c] assms(3) by (cases "rg_pools r c") (auto simp: enumerates_def reloaded_views_def)
  with r' reload_pools_frame [OF r'] show ?thesis by (auto simp: ReloadNodes_def)
qed

theorem reload_replaces_nodes_witness:
  "\<exists>r'. ReloadNodes [''eth''] sample_chains sample_registry = (None, r') \<and>
     dom (rg_pools r') = dom (rg_pools sample_registry) \<and>
     registry_snapshot r' = reloaded_views sample_chains sample_registry"
proof (rule reload_replaces_nodes [OF _ sample_chains_ok])
  show "reg_inv sample_registry" by (rule sample_inv)
  show "enumerates [''eth''] (rg_pools sample_registry)"
    using reachable_inv [OF sample_reachable] sample_chains_ok
    by (simp add: enumerates_def sample_config_def sample_chains_def)
qed

text \<open>
  A report that arrives late cannot spoil a reloaded network: after a reload, reports on any
  node that existed before it leave the snapshot of every replaced network as the configuration
  says.
\<close>

lemma stale_reports_harmless:
  assumes "reg_inv r" "rg_pools r c = Some p" "ns \<noteq> []" "fits ns"
    and "ReplaceNodes ns p (rg_heap r) = (q, h)" "a < hp_next (rg_heap r)"
  shows "pool_snapshot (ReportFailure p a h) q = config_views ns \<and>
    pool_snapshot (ReportSuccess p a h) q = config_views ns"
proof -
  from ReplaceNodes_fresh [OF assms(5)] have f: "fresh_nodes (rg_heap r) h (po_nodes q) ns" by blast
  then have "pool_snapshot h q = config_views ns" by (simp add: pool_snapshot_def fresh_snapshot)
  moreover have "a \<notin> set (po_nodes q)" using f assms(6) by (simp add: fresh_nodes_def)
  ultimately show ?thesis
    by (simp add: pool_snapshot_def ReportFailure_def ReportSuccess_def snapshot_set_node)
qed

lemma stale_reports_harmless_example:
  "pool_snapshot (ReportFailure (the (rg_pools sample_registry ''eth'')) 0
      (snd (ReplaceNodes (ch_Nodes sample_chain) (the (rg_pools sample_registry ''eth'')) (rg_heap sample_registry))))
    (fst (ReplaceNodes (ch_Nodes sample_chain) (the (rg_pools sample_registry ''eth'')) (rg_heap sample_registry))) =
   config_views (ch_Nodes sample_chain)"
proof -
  let ?R = "ReplaceNodes (ch_Nodes sample_chain) (the (rg_pools sample_registry ''eth'')) (rg_heap sample_registry)"
  have "rg_pools sample_registry ''eth'' = Some (the (rg_pools sample_registry ''eth''))"
    by (simp add: sample_pool)
  from stale_reports_harmless [OF sample_inv this _ _ prod.collapse [symmetric, of ?R], of 0] show ?thesis
    using sample_chains_ok by (simp add: chains_ok_def sample_chains_def sample_nodes)
qed

end
