(* ===== verification/Stats.thy ===== *)
theory Stats
  imports Prelude "HOL-Library.Word" "HOL-Library.List_Lexorder" "HOL-Library.Char_ord" "HOL-Library.Multiset"
begin

section \<open>Statistics: \<open>internal/stats\<close>\<close>

text \<open>
  The in-process counters: global, per token and per token and chain. A counter is an
  \<open>atomic.Int64\<close>, here a 64-bit word, so that sums wrap as they do in the code and the accounting
  equations hold without any bound. Token states are never removed, so a state is identified by its
  token key. The current time is an argument; a sequence of calls is a list of events.
\<close>

type_synonym i64 = "64 word"

subsection \<open>Metrics\<close>

record metrics =
  m_Requests :: i64
  m_Proxied :: i64
  m_SuccessCalls :: i64
  m_RPCErrors :: i64
  m_UpstreamErrors :: i64
  m_AuthFailed :: i64
  m_MethodDenied :: i64
  m_RateLimited :: i64
  m_DomainRejected :: i64
  m_BillableCalls :: i64
  m_FreeCalls :: i64
  m_WSConnections :: i64
  m_WSNotifications :: i64

record atomic_metrics =
  Requests :: i64
  Proxied :: i64
  SuccessCalls :: i64
  RPCErrors :: i64
  UpstreamErrors :: i64
  AuthFailed :: i64
  MethodDenied :: i64
  RateLimited :: i64
  DomainRejected :: i64
  BillableCalls :: i64
  FreeCalls :: i64
  WSConnections :: i64
  WSNotifications :: i64
  LastUnixNano :: time

definition zero_metrics :: atomic_metrics where
  "zero_metrics =
     \<lparr>Requests = 0, Proxied = 0, SuccessCalls = 0, RPCErrors = 0, UpstreamErrors = 0, AuthFailed = 0,
      MethodDenied = 0, RateLimited = 0, DomainRejected = 0, BillableCalls = 0, FreeCalls = 0,
      WSConnections = 0, WSNotifications = 0, LastUnixNano = 0\<rparr>"

definition snapshot :: "atomic_metrics \<Rightarrow> metrics" where
  "snapshot m =
     \<lparr>m_Requests = Requests m, m_Proxied = Proxied m, m_SuccessCalls = SuccessCalls m,
      m_RPCErrors = RPCErrors m, m_UpstreamErrors = UpstreamErrors m, m_AuthFailed = AuthFailed m,
      m_MethodDenied = MethodDenied m, m_RateLimited = RateLimited m, m_DomainRejected = DomainRejected m,
      m_BillableCalls = BillableCalls m, m_FreeCalls = FreeCalls m, m_WSConnections = WSConnections m,
      m_WSNotifications = WSNotifications m\<rparr>"

definition touch :: "time \<Rightarrow> atomic_metrics \<Rightarrow> atomic_metrics" where
  "touch now m = m\<lparr>LastUnixNano := now\<rparr>"

definition lastAt :: "atomic_metrics \<Rightarrow> time option" where
  "lastAt m = (if LastUnixNano m = 0 then None else Some (LastUnixNano m))"

subsection \<open>The collector\<close>

record token_meta =
  tm_Key :: string
  tm_Name :: string
  tm_Plan :: string
  tm_BillingFree :: bool
  tm_Enabled :: bool

record token_state =
  ts_meta :: token_meta
  ts_metrics :: atomic_metrics
  ts_chains :: "string \<rightharpoonup> atomic_metrics"

record collector =
  co_global :: atomic_metrics
  co_tokens :: "string \<rightharpoonup> token_state"

record token_snapshot =
  sn_TokenKey :: string
  sn_TokenName :: string
  sn_Plan :: string
  sn_BillingFree :: bool
  sn_Enabled :: bool
  sn_LastRequest :: "time option"
  sn_Metrics :: metrics
  sn_ByChain :: "string \<rightharpoonup> metrics"

record overview =
  ov_GeneratedAt :: time
  ov_Total :: metrics
  ov_TokenCount :: int
  ov_Tokens :: "token_snapshot list"

definition NewCollector :: collector where
  "NewCollector = \<lparr>co_global = zero_metrics, co_tokens = Map.empty\<rparr>"

definition ensureToken :: "token_meta \<Rightarrow> collector \<Rightarrow> collector" where
  "ensureToken meta c =
     c\<lparr>co_tokens := (co_tokens c)(tm_Key meta \<mapsto>
         (case co_tokens c (tm_Key meta) of
            Some st \<Rightarrow> st\<lparr>ts_meta := meta\<rparr>
          | None \<Rightarrow> \<lparr>ts_meta = meta, ts_metrics = zero_metrics, ts_chains = Map.empty\<rparr>))\<rparr>"

definition RegisterTokens :: "token_meta list \<Rightarrow> collector \<Rightarrow> collector" where
  "RegisterTokens metas c = fold ensureToken metas c"

text \<open>Updates through the pointers that \<open>ensureToken\<close> and \<open>chainMetrics\<close> return.\<close>

definition on_global :: "(atomic_metrics \<Rightarrow> atomic_metrics) \<Rightarrow> collector \<Rightarrow> collector" where
  "on_global f c = c\<lparr>co_global := f (co_global c)\<rparr>"

definition on_token :: "(token_state \<Rightarrow> token_state) \<Rightarrow> token_meta \<Rightarrow> collector \<Rightarrow> collector" where
  "on_token f meta c =
     (let c = ensureToken meta c
      in c\<lparr>co_tokens := (co_tokens c)(tm_Key meta := map_option f (co_tokens c (tm_Key meta)))\<rparr>)"

definition on_metrics :: "(atomic_metrics \<Rightarrow> atomic_metrics) \<Rightarrow> token_state \<Rightarrow> token_state" where
  "on_metrics f st = st\<lparr>ts_metrics := f (ts_metrics st)\<rparr>"

text \<open>\<open>chainMetrics\<close>: the counters of a chain, created on first use.\<close>

definition chain_key :: "string \<Rightarrow> string" where
  "chain_key chainID = (if chainID = [] then ''_'' else chainID)"

definition on_chain :: "(atomic_metrics \<Rightarrow> atomic_metrics) \<Rightarrow> string \<Rightarrow> token_state \<Rightarrow> token_state" where
  "on_chain f chainID st =
     (let k = chain_key chainID
      in st\<lparr>ts_chains := (ts_chains st)(k \<mapsto> f (map_get zero_metrics (ts_chains st) k))\<rparr>)"

definition IncDomainRejected :: "time \<Rightarrow> collector \<Rightarrow> collector" where
  "IncDomainRejected now c = on_global (\<lambda>m. touch now (m\<lparr>DomainRejected := DomainRejected m + 1\<rparr>)) c"

definition IncAuthFailed :: "time \<Rightarrow> collector \<Rightarrow> collector" where
  "IncAuthFailed now c =
     on_global (\<lambda>m. touch now (m\<lparr>AuthFailed := AuthFailed m + 1, Requests := Requests m + 1\<rparr>)) c"

definition add_denied :: "time \<Rightarrow> atomic_metrics \<Rightarrow> atomic_metrics" where
  "add_denied now m = touch now (m\<lparr>MethodDenied := MethodDenied m + 1, Requests := Requests m + 1\<rparr>)"

definition IncMethodDenied :: "time \<Rightarrow> token_meta \<Rightarrow> collector \<Rightarrow> collector" where
  "IncMethodDenied now meta c = on_token (on_metrics (add_denied now)) meta (on_global (add_denied now) c)"

definition add_limited :: "time \<Rightarrow> atomic_metrics \<Rightarrow> atomic_metrics" where
  "add_limited now m = touch now (m\<lparr>RateLimited := RateLimited m + 1, Requests := Requests m + 1\<rparr>)"

definition IncRateLimited :: "time \<Rightarrow> token_meta \<Rightarrow> collector \<Rightarrow> collector" where
  "IncRateLimited now meta c = on_token (on_metrics (add_limited now)) meta (on_global (add_limited now) c)"

text \<open>
  \<open>RecordProxy\<close> makes the same updates to the global, the token's and the chain's counters:
  \<open>add_proxy\<close>.
\<close>

definition add_proxy :: "time \<Rightarrow> int \<Rightarrow> int \<Rightarrow> bool \<Rightarrow> bool \<Rightarrow> atomic_metrics \<Rightarrow> atomic_metrics" where
  "add_proxy now successCalls rpcErrors upstreamErr billable m =
     (let m = touch now (m\<lparr>Requests := Requests m + 1, Proxied := Proxied m + 1\<rparr>)
      in if upstreamErr then m\<lparr>UpstreamErrors := UpstreamErrors m + 1\<rparr>
         else
           let m = (if successCalls > 0 then
                      let m = m\<lparr>SuccessCalls := SuccessCalls m + of_int successCalls\<rparr>
                      in if billable then m\<lparr>BillableCalls := BillableCalls m + of_int successCalls\<rparr>
                         else m\<lparr>FreeCalls := FreeCalls m + of_int successCalls\<rparr>
                    else m)
           in if rpcErrors > 0 then m\<lparr>RPCErrors := RPCErrors m + of_int rpcErrors\<rparr> else m)"

definition RecordProxy ::
  "time \<Rightarrow> token_meta \<Rightarrow> string \<Rightarrow> int \<Rightarrow> int \<Rightarrow> bool \<Rightarrow> bool \<Rightarrow> collector \<Rightarrow> collector" where
  "RecordProxy now meta chainID successCalls rpcErrors upstreamErr billable c =
     (let f = add_proxy now successCalls rpcErrors upstreamErr billable
      in on_token (\<lambda>st. on_chain f chainID (on_metrics f st)) meta (on_global f c))"

definition add_connect :: "time \<Rightarrow> atomic_metrics \<Rightarrow> atomic_metrics" where
  "add_connect now m = touch now (m\<lparr>WSConnections := WSConnections m + 1\<rparr>)"

definition RecordWSConnect :: "time \<Rightarrow> token_meta \<Rightarrow> string \<Rightarrow> collector \<Rightarrow> collector" where
  "RecordWSConnect now meta chainID c =
     (let f = add_connect now
      in on_token (\<lambda>st. on_chain f chainID (on_metrics f st)) meta (on_global f c))"

definition add_notification :: "time \<Rightarrow> int \<Rightarrow> int \<Rightarrow> bool \<Rightarrow> atomic_metrics \<Rightarrow> atomic_metrics" where
  "add_notification now rawCount billUnits billable m =
     (let m = touch now (m\<lparr>WSNotifications := WSNotifications m + of_int rawCount,
                           SuccessCalls := SuccessCalls m + of_int billUnits\<rparr>)
      in if billable then m\<lparr>BillableCalls := BillableCalls m + of_int billUnits\<rparr>
         else m\<lparr>FreeCalls := FreeCalls m + of_int billUnits\<rparr>)"

definition RecordWSNotification ::
  "time \<Rightarrow> token_meta \<Rightarrow> string \<Rightarrow> int \<Rightarrow> int \<Rightarrow> bool \<Rightarrow> collector \<Rightarrow> collector" where
  "RecordWSNotification now meta chainID rawCount billUnits billable c =
     (if rawCount \<le> 0 then c
      else
        let billUnits = (if billUnits \<le> 0 then rawCount else billUnits);
            f = add_notification now rawCount billUnits billable
        in on_token (\<lambda>st. on_chain f chainID (on_metrics f st)) meta (on_global f c))"

subsection \<open>Reading\<close>

definition token_view :: "token_state \<Rightarrow> token_snapshot" where
  "token_view st =
     \<lparr>sn_TokenKey = tm_Key (ts_meta st), sn_TokenName = tm_Name (ts_meta st), sn_Plan = tm_Plan (ts_meta st),
      sn_BillingFree = tm_BillingFree (ts_meta st), sn_Enabled = tm_Enabled (ts_meta st),
      sn_LastRequest = lastAt (ts_metrics st), sn_Metrics = snapshot (ts_metrics st),
      sn_ByChain = (\<lambda>k. map_option snapshot (ts_chains st k))\<rparr>"

text \<open>\<open>ks\<close> is the order in which the token map is visited (after the known tokens are ensured).\<close>

definition Snapshot :: "time \<Rightarrow> token_meta list \<Rightarrow> string list \<Rightarrow> collector \<Rightarrow> overview \<times> collector" where
  "Snapshot now known ks c =
     (let c = RegisterTokens known c;
          tokens = map token_view (List.map_filter (co_tokens c) ks);
          tokens = sort_key sn_TokenKey tokens
      in (\<lparr>ov_GeneratedAt = now, ov_Total = snapshot (co_global c),
           ov_TokenCount = int (length tokens), ov_Tokens = tokens\<rparr>, c))"

definition TokenSnapshot :: "string \<Rightarrow> collector \<Rightarrow> token_snapshot option" where
  "TokenSnapshot key c = map_option token_view (co_tokens c key)"

subsection \<open>Sequences of calls\<close>

datatype stat_event =
    Ev_DomainRejected time
  | Ev_AuthFailed time
  | Ev_MethodDenied time token_meta
  | Ev_RateLimited time token_meta
  | Ev_Proxy time token_meta string int int bool bool
  | Ev_WSConnect time token_meta string
  | Ev_WSNotification time token_meta string int int bool
  | Ev_Register "token_meta list"

fun apply_event :: "stat_event \<Rightarrow> collector \<Rightarrow> collector" where
  "apply_event (Ev_DomainRejected now) c = IncDomainRejected now c"
| "apply_event (Ev_AuthFailed now) c = IncAuthFailed now c"
| "apply_event (Ev_MethodDenied now meta) c = IncMethodDenied now meta c"
| "apply_event (Ev_RateLimited now meta) c = IncRateLimited now meta c"
| "apply_event (Ev_Proxy now meta ch s e u b) c = RecordProxy now meta ch s e u b c"
| "apply_event (Ev_WSConnect now meta ch) c = RecordWSConnect now meta ch c"
| "apply_event (Ev_WSNotification now meta ch n u b) c = RecordWSNotification now meta ch n u b c"
| "apply_event (Ev_Register metas) c = RegisterTokens metas c"

definition run_events :: "stat_event list \<Rightarrow> collector" where
  "run_events es = fold apply_event es NewCollector"

subsection \<open>Accounting: sums over maps\<close>

text \<open>
  The counters that a token's operations change, and those that its chains share. An update is
  \<open>additive\<close> on a counter when it adds an amount that does not depend on the counters' values.
\<close>

definition map_sum :: "('v \<Rightarrow> i64) \<Rightarrow> ('k \<rightharpoonup> 'v) \<Rightarrow> i64" where
  "map_sum f m = (\<Sum>k \<in> dom m. f (the (m k)))"

lemma map_sum_empty [simp]: "map_sum f Map.empty = 0"
  by (simp add: map_sum_def)

lemma map_sum_update:
  assumes "finite (dom m)"
  shows "map_sum f (m(k \<mapsto> v)) = map_sum f m + (f v - (case m k of None \<Rightarrow> 0 | Some w \<Rightarrow> f w))"
proof -
  let ?D = "dom m - {k}"
  have dom: "dom (m(k \<mapsto> v)) = insert k ?D" by auto
  have rest: "(\<Sum>j \<in> ?D. f (the ((m(k \<mapsto> v)) j))) = (\<Sum>j \<in> ?D. f (the (m j)))"
    by (rule sum.cong) auto
  have new: "map_sum f (m(k \<mapsto> v)) = f v + (\<Sum>j \<in> ?D. f (the (m j)))"
    unfolding map_sum_def dom
    by (subst sum.insert) (use assms in \<open>simp_all only: rest fun_upd_same option.sel finite_Diff, auto\<close>)
  show ?thesis
  proof (cases "m k")
    case None
    then have "?D = dom m" by auto
    with new None show ?thesis by (simp add: map_sum_def)
  next
    case (Some w)
    then have "map_sum f m = f w + (\<Sum>j \<in> ?D. f (the (m j)))"
      unfolding map_sum_def using assms by (subst sum.remove [of _ k]) auto
    with new Some show ?thesis by simp
  qed
qed

definition additive :: "(atomic_metrics \<Rightarrow> i64) \<Rightarrow> (atomic_metrics \<Rightarrow> atomic_metrics) \<Rightarrow> bool" where
  "additive f g \<longleftrightarrow> (\<forall>m. f (g m) = f m + f (g zero_metrics)) \<and> f zero_metrics = 0"

definition chain_counters :: "(atomic_metrics \<Rightarrow> i64) list" where
  "chain_counters =
     [Proxied, SuccessCalls, RPCErrors, UpstreamErrors, BillableCalls, FreeCalls, WSConnections, WSNotifications]"

definition token_counters :: "(atomic_metrics \<Rightarrow> i64) list" where
  "token_counters = MethodDenied # RateLimited # chain_counters"

text \<open>The accounting equations.\<close>

definition balanced :: "atomic_metrics \<Rightarrow> bool" where
  "balanced m \<longleftrightarrow> SuccessCalls m = BillableCalls m + FreeCalls m"

definition token_acct :: "token_state \<Rightarrow> bool" where
  "token_acct st \<longleftrightarrow>
     balanced (ts_metrics st) \<and>
     Requests (ts_metrics st) = Proxied (ts_metrics st) + MethodDenied (ts_metrics st) + RateLimited (ts_metrics st) \<and>
     finite (dom (ts_chains st)) \<and>
     (\<forall>k m. ts_chains st k = Some m \<longrightarrow> balanced m \<and> Requests m = Proxied m) \<and>
     (\<forall>f \<in> set chain_counters. f (ts_metrics st) = map_sum f (ts_chains st))"

definition collector_acct :: "collector \<Rightarrow> bool" where
  "collector_acct c \<longleftrightarrow>
     balanced (co_global c) \<and>
     Requests (co_global c) = Proxied (co_global c) + MethodDenied (co_global c) + RateLimited (co_global c)
       + AuthFailed (co_global c) \<and>
     finite (dom (co_tokens c)) \<and>
     (\<forall>k st. co_tokens c k = Some st \<longrightarrow> token_acct st \<and> tm_Key (ts_meta st) = k) \<and>
     (\<forall>f \<in> set token_counters. f (co_global c) = map_sum (\<lambda>st. f (ts_metrics st)) (co_tokens c))"

lemmas metric_defs = touch_def zero_metrics_def add_denied_def add_limited_def add_proxy_def
  add_connect_def add_notification_def

lemma zero_counters [simp]:
  "f \<in> set token_counters \<Longrightarrow> f zero_metrics = 0"
  "f \<in> set chain_counters \<Longrightarrow> f zero_metrics = 0"
  by (auto simp: token_counters_def chain_counters_def zero_metrics_def)

lemma chain_counter_token: "f \<in> set chain_counters \<Longrightarrow> f \<in> set token_counters"
  by (simp add: token_counters_def)

lemma additive_updates:
  assumes "f \<in> set token_counters"
  shows "additive f (add_denied now)" "additive f (add_limited now)" "additive f (add_connect now)"
    "additive f (add_proxy now s e u b)" "additive f (add_notification now n w b)"
  using assms by (auto simp: additive_def token_counters_def chain_counters_def metric_defs Let_def)

lemma balanced_updates:
  "balanced m \<Longrightarrow> balanced (add_denied now m)" "balanced m \<Longrightarrow> balanced (add_limited now m)"
  "balanced m \<Longrightarrow> balanced (add_connect now m)" "balanced m \<Longrightarrow> balanced (add_proxy now s e u b m)"
  "balanced m \<Longrightarrow> balanced (add_notification now n w b m)"
  by (auto simp: balanced_def metric_defs Let_def)

text \<open>
  What an update function must be for the equations to survive: balanced, additive on every shared
  counter, and with the request counter moving with its parts.
\<close>

definition fair_update :: "(atomic_metrics \<Rightarrow> atomic_metrics) \<Rightarrow> bool" where
  "fair_update g \<longleftrightarrow>
     (\<forall>m. balanced m \<longrightarrow> balanced (g m)) \<and> (\<forall>f \<in> set token_counters. additive f g) \<and>
     (\<forall>m. Requests (g m) - Requests m =
        (Proxied (g m) - Proxied m) + (MethodDenied (g m) - MethodDenied m) + (RateLimited (g m) - RateLimited m)) \<and>
     (\<forall>m. AuthFailed (g m) = AuthFailed m)"

definition chain_update :: "(atomic_metrics \<Rightarrow> atomic_metrics) \<Rightarrow> bool" where
  "chain_update g \<longleftrightarrow> (\<forall>m. Requests (g m) - Requests m = Proxied (g m) - Proxied m)"

lemma fair_updates:
  "fair_update (add_denied now)" "fair_update (add_limited now)" "fair_update (add_connect now)"
  "fair_update (add_proxy now s e u b)" "fair_update (add_notification now n w b)"
  by (simp_all add: fair_update_def additive_updates balanced_updates)
    (auto simp: metric_defs Let_def)

lemma chain_updates:
  "chain_update (add_connect now)" "chain_update (add_proxy now s e u b)"
  "chain_update (add_notification now n w b)"
  by (auto simp: chain_update_def metric_defs Let_def)

subsection \<open>The equations are kept\<close>

lemma fresh_token_acct:
  "token_acct \<lparr>ts_meta = meta, ts_metrics = zero_metrics, ts_chains = Map.empty\<rparr>"
  by (auto simp: token_acct_def balanced_def chain_counters_def zero_metrics_def)

lemma map_sum_chain:
  assumes "finite (dom m)" "additive f g"
  shows "map_sum f (m(k \<mapsto> g (map_get zero_metrics m k))) = map_sum f m + f (g zero_metrics)"
proof -
  let ?x = "map_get zero_metrics m k"
  have "f (g ?x) = f ?x + f (g zero_metrics)" "f zero_metrics = 0"
    using assms(2) unfolding additive_def by blast+
  then have "f (g ?x) - (case m k of None \<Rightarrow> 0 | Some w \<Rightarrow> f w) = f (g zero_metrics)"
    by (cases "m k") (simp_all add: map_get_def)
  then show ?thesis by (simp only: map_sum_update [OF assms(1)])
qed

lemma fair_requests:
  assumes "fair_update g" "Requests m = Proxied m + MethodDenied m + RateLimited m + x"
  shows "Requests (g m) = Proxied (g m) + MethodDenied (g m) + RateLimited (g m) + x"
proof -
  have d: "Requests (g m) - Requests m =
      (Proxied (g m) - Proxied m) + (MethodDenied (g m) - MethodDenied m) + (RateLimited (g m) - RateLimited m)"
    using assms(1) unfolding fair_update_def by blast
  have "Requests (g m) = (Requests (g m) - Requests m) + Requests m" by simp
  also have "\<dots> = Proxied (g m) + MethodDenied (g m) + RateLimited (g m) + x"
    unfolding d by (simp add: assms(2))
  finally show ?thesis .
qed

lemma token_acct_chain:
  assumes "fair_update g" "chain_update g" "token_acct st"
  shows "token_acct (on_chain g ch (on_metrics g st))"
proof -
  let ?k = "chain_key ch"
  let ?m = "map_get zero_metrics (ts_chains st) ?k"
  have "balanced ?m \<and> Requests ?m = Proxied ?m"
    using assms(3) by (auto simp: token_acct_def map_get_def balanced_def zero_metrics_def split: option.split)
  moreover have "Requests (g ?m) - Requests ?m = Proxied (g ?m) - Proxied ?m"
    using assms(2) by (simp add: chain_update_def)
  ultimately have m: "balanced (g ?m)" "Requests (g ?m) = Proxied (g ?m)"
    using assms(1) by (simp_all add: fair_update_def)
  have req: "Requests (g (ts_metrics st)) = Proxied (g (ts_metrics st)) + MethodDenied (g (ts_metrics st)) +
      RateLimited (g (ts_metrics st))"
    using fair_requests [OF assms(1), of "ts_metrics st" 0] assms(3) by (simp add: token_acct_def)
  have fin: "finite (dom (ts_chains st))" using assms(3) by (simp add: token_acct_def)
  have sums: "f (g (ts_metrics st)) = map_sum f ((ts_chains st)(?k \<mapsto> g ?m))" if f: "f \<in> set chain_counters" for f
  proof -
    have "additive f g" using assms(1) f by (simp add: fair_update_def chain_counter_token)
    moreover from this have "f (g (ts_metrics st)) = f (ts_metrics st) + f (g zero_metrics)"
      unfolding additive_def by blast
    moreover have "f (ts_metrics st) = map_sum f (ts_chains st)"
      using assms(3) f by (simp add: token_acct_def)
    ultimately show ?thesis using map_sum_chain [OF fin, of f g ?k] by (simp only:)
  qed
  from m req sums assms(1,3) show ?thesis
    by (auto simp: token_acct_def on_chain_def on_metrics_def fair_update_def Let_def)
qed

lemma token_acct_metrics:
  assumes "fair_update g" "\<And>f m. f \<in> set chain_counters \<Longrightarrow> f (g m) = f m" "token_acct st"
  shows "token_acct (on_metrics g st)"
proof -
  have "Requests (g (ts_metrics st)) = Proxied (g (ts_metrics st)) + MethodDenied (g (ts_metrics st)) +
      RateLimited (g (ts_metrics st))"
    using fair_requests [OF assms(1), of "ts_metrics st" 0] assms(3) by (simp add: token_acct_def)
  with assms show ?thesis by (auto simp: token_acct_def on_metrics_def fair_update_def)
qed

lemma collector_acct_ensure:
  assumes "collector_acct c"
  shows "collector_acct (ensureToken meta c)"
proof -
  let ?st = "case co_tokens c (tm_Key meta) of Some st \<Rightarrow> st\<lparr>ts_meta := meta\<rparr>
    | None \<Rightarrow> \<lparr>ts_meta = meta, ts_metrics = zero_metrics, ts_chains = Map.empty\<rparr>"
  have acct: "token_acct ?st \<and> tm_Key (ts_meta ?st) = tm_Key meta"
    using assms fresh_token_acct by (auto simp: collector_acct_def token_acct_def split: option.split)
  have "map_sum (\<lambda>st. f (ts_metrics st)) ((co_tokens c)(tm_Key meta \<mapsto> ?st)) =
      map_sum (\<lambda>st. f (ts_metrics st)) (co_tokens c)" if "f \<in> set token_counters" for f
    using assms that by (subst map_sum_update) (auto simp: collector_acct_def split: option.split)
  with assms acct show ?thesis by (auto simp: collector_acct_def ensureToken_def)
qed

lemma ensureToken_at: "\<exists>st. co_tokens (ensureToken meta c) (tm_Key meta) = Some st"
  by (simp add: ensureToken_def)

lemma ensureToken_global [simp]: "co_global (ensureToken meta c) = co_global c"
  by (simp add: ensureToken_def)

lemma ensureToken_on_global: "ensureToken meta (on_global g c) = on_global g (ensureToken meta c)"
  by (simp add: ensureToken_def on_global_def)

lemma collector_acct_update:
  assumes "collector_acct c" "fair_update g"
    and "\<And>st. token_acct st \<Longrightarrow> token_acct (F st)"
    and "\<And>st. ts_meta (F st) = ts_meta st" "\<And>st. ts_metrics (F st) = g (ts_metrics st)"
  shows "collector_acct (on_token F meta (on_global g c))"
proof -
  let ?k = "tm_Key meta"
  let ?c = "ensureToken meta c"
  obtain st where st: "co_tokens ?c ?k = Some st" using ensureToken_at by blast
  have acct: "collector_acct ?c" by (rule collector_acct_ensure [OF assms(1)])
  have c': "on_token F meta (on_global g c) =
      \<lparr>co_global = g (co_global c), co_tokens = (co_tokens ?c)(?k \<mapsto> F st)\<rparr>"
    using st by (simp add: on_token_def ensureToken_on_global Let_def) (simp add: on_global_def)
  have fin: "finite (dom (co_tokens ?c))" using acct by (simp add: collector_acct_def)
  have req: "Requests (g (co_global c)) = Proxied (g (co_global c)) + MethodDenied (g (co_global c)) +
      RateLimited (g (co_global c)) + AuthFailed (g (co_global c))"
    using fair_requests [OF assms(2), of "co_global c" "AuthFailed (co_global c)"] assms(1,2)
    by (simp add: collector_acct_def fair_update_def)
  have sums: "f (g (co_global c)) = map_sum (\<lambda>st. f (ts_metrics st)) ((co_tokens ?c)(?k \<mapsto> F st))"
    if f: "f \<in> set token_counters" for f
  proof -
    have "additive f g" using assms(2) f by (simp add: fair_update_def)
    then have add: "f (g (co_global c)) = f (co_global c) + f (g zero_metrics)"
      "f (g (ts_metrics st)) = f (ts_metrics st) + f (g zero_metrics)"
      unfolding additive_def by blast+
    have "map_sum (\<lambda>st. f (ts_metrics st)) (co_tokens ?c) = f (co_global c)"
      using acct f by (simp add: collector_acct_def)
    moreover have "map_sum (\<lambda>st. f (ts_metrics st)) ((co_tokens ?c)(?k \<mapsto> F st)) =
        map_sum (\<lambda>st. f (ts_metrics st)) (co_tokens ?c) + (f (g (ts_metrics st)) - f (ts_metrics st))"
      using map_sum_update [OF fin, of "\<lambda>st. f (ts_metrics st)" ?k "F st"] by (simp add: st assms(5))
    ultimately show ?thesis by (simp add: add)
  qed
  have "token_acct st \<and> tm_Key (ts_meta st) = ?k"
    using acct st by (simp add: collector_acct_def)
  with acct req sums assms st show ?thesis
    unfolding c' by (auto simp: collector_acct_def fair_update_def)
qed

lemmas stat_ops = IncDomainRejected_def IncAuthFailed_def IncMethodDenied_def IncRateLimited_def
  RecordProxy_def RecordWSConnect_def RecordWSNotification_def Let_def

lemma on_parts [simp]:
  "ts_meta (on_metrics g st) = ts_meta st" "ts_metrics (on_metrics g st) = g (ts_metrics st)"
  "ts_meta (on_chain g ch st) = ts_meta st" "ts_metrics (on_chain g ch st) = ts_metrics st"
  by (simp_all add: on_metrics_def on_chain_def Let_def)

lemma collector_acct_chain_update:
  "collector_acct c \<Longrightarrow> fair_update g \<Longrightarrow> chain_update g \<Longrightarrow>
     collector_acct (on_token (\<lambda>st. on_chain g ch (on_metrics g st)) meta (on_global g c))"
  by (rule collector_acct_update) (auto intro: token_acct_chain)

lemma collector_acct_metrics_update:
  "collector_acct c \<Longrightarrow> fair_update g \<Longrightarrow> (\<And>f m. f \<in> set chain_counters \<Longrightarrow> f (g m) = f m) \<Longrightarrow>
     collector_acct (on_token (on_metrics g) meta (on_global g c))"
  by (rule collector_acct_update) (auto intro: token_acct_metrics)

lemma collector_acct_register: "collector_acct c \<Longrightarrow> collector_acct (RegisterTokens metas c)"
  unfolding RegisterTokens_def
  by (induction metas arbitrary: c) (auto intro: collector_acct_ensure)

lemma collector_acct_event: "collector_acct c \<Longrightarrow> collector_acct (apply_event e c)"
proof (cases e)
  case (Ev_MethodDenied now meta)
  then show "collector_acct c \<Longrightarrow> ?thesis"
    by (auto simp: stat_ops chain_counters_def metric_defs intro!: collector_acct_metrics_update fair_updates)
next
  case (Ev_RateLimited now meta)
  then show "collector_acct c \<Longrightarrow> ?thesis"
    by (auto simp: stat_ops chain_counters_def metric_defs intro!: collector_acct_metrics_update fair_updates)
qed (auto simp: stat_ops intro!: collector_acct_chain_update fair_updates chain_updates collector_acct_register,
  auto simp: collector_acct_def on_global_def balanced_def touch_def token_counters_def chain_counters_def)

lemma collector_acct_new: "collector_acct NewCollector"
  by (auto simp: collector_acct_def NewCollector_def balanced_def token_counters_def chain_counters_def zero_metrics_def)

lemma collector_acct_run: "collector_acct (run_events es)"
proof -
  have "collector_acct c \<Longrightarrow> collector_acct (fold apply_event es c)" for c
    by (induction es arbitrary: c) (auto intro: collector_acct_event)
  then show ?thesis unfolding run_events_def using collector_acct_new by blast
qed

subsection \<open>Properties\<close>

text \<open>
  C19: the books balance. After any sequence of calls, modulo the width of the counters: successes
  are billable plus free calls in the global counters, in every token's and in every chain's; the
  requests are the proxied, denied, rate limited and (globally) unauthenticated ones; every shared
  global counter is the sum over the tokens, and every shared token counter the sum over the token's
  chains.
\<close>

theorem stats_accounting: "collector_acct (run_events es)"
  by (rule collector_acct_run)

text \<open>The snapshot is sorted by token key and does not depend on the map's iteration order.\<close>

lemma snapshot_tokens:
  assumes "collector_acct c" "enumerates ks (co_tokens c)" "enumerates ks' (co_tokens c)"
  defines "views \<equiv> \<lambda>ks. map token_view (List.map_filter (co_tokens c) ks)"
  shows "sort_key sn_TokenKey (views ks) = sort_key sn_TokenKey (views ks')"
    and "length (views ks) = card (dom (co_tokens c))"
    and "distinct (map sn_TokenKey (views ks))"
proof -
  have found: "filter (\<lambda>k. co_tokens c k \<noteq> None) js = js" if "enumerates js (co_tokens c)" for js
    using that by (auto simp: enumerates_def filter_id_conv)
  have views: "views js = map (\<lambda>k. token_view (the (co_tokens c k))) js" if "enumerates js (co_tokens c)" for js
    using found [OF that] by (simp add: views_def List.map_filter_def o_def)
  have key: "sn_TokenKey (token_view (the (co_tokens c k))) = k" if "k \<in> dom (co_tokens c)" for k
    using assms(1) that by (auto simp: collector_acct_def token_view_def)
  have keys: "map sn_TokenKey (views ks) = ks"
    unfolding views [OF assms(2)] using key assms(2) by (auto simp: enumerates_def intro!: map_idI)
  then show "distinct (map sn_TokenKey (views ks))"
    using assms(2) by (simp add: enumerates_def)
  then have inj: "inj_on sn_TokenKey (set (views ks))" by (simp add: distinct_map)
  have "mset ks = mset ks'"
    using assms(2,3) by (simp add: enumerates_def set_eq_iff_mset_eq_distinct [symmetric])
  then have "mset (views ks) = mset (views ks')"
    by (simp add: views [OF assms(2)] views [OF assms(3)])
  with inj show "sort_key sn_TokenKey (views ks) = sort_key sn_TokenKey (views ks')"
    by (intro sort_key_inj_key_eq) simp_all
  show "length (views ks) = card (dom (co_tokens c))"
    using assms(2) by (simp add: views enumerates_def) (metis distinct_card)
qed

text \<open>
  The overview lists every token exactly once, in increasing order of keys, and is the same
  whatever order the token map is visited in.
\<close>

lemma snapshot_deterministic:
  assumes "collector_acct c" "enumerates ks (co_tokens (RegisterTokens known c))"
    "enumerates ks' (co_tokens (RegisterTokens known c))"
  shows "fst (Snapshot now known ks c) = fst (Snapshot now known ks' c) \<and>
    sorted (map sn_TokenKey (ov_Tokens (fst (Snapshot now known ks c)))) \<and>
    distinct (map sn_TokenKey (ov_Tokens (fst (Snapshot now known ks c)))) \<and>
    ov_TokenCount (fst (Snapshot now known ks c)) = int (card (dom (co_tokens (RegisterTokens known c))))"
proof -
  let ?c = "RegisterTokens known c"
  let ?v = "map token_view (List.map_filter (co_tokens ?c) ks)"
  have acct: "collector_acct ?c" by (rule collector_acct_register [OF assms(1)])
  note S = snapshot_tokens [OF acct assms(2,3)] and S' = snapshot_tokens [OF acct assms(3,2)]
  have "distinct (map sn_TokenKey (sort_key sn_TokenKey ?v))"
    using S(3) by (metis distinct_map distinct_sort set_sort)
  moreover have "sorted (map sn_TokenKey (sort_key sn_TokenKey ?v))" by (rule sorted_sort_key)
  ultimately show ?thesis
    using S(1,2) S'(2) by (simp add: Snapshot_def Let_def)
qed

definition sample_meta :: token_meta where
  "sample_meta = \<lparr>tm_Key = ''t1'', tm_Name = ''n1'', tm_Plan = ''free'', tm_BillingFree = True, tm_Enabled = True\<rparr>"

definition sample_events :: "stat_event list" where
  "sample_events = [Ev_Register [sample_meta], Ev_Proxy 1 sample_meta ''eth'' 2 0 False False, Ev_RateLimited 2 sample_meta]"

lemmas sample_stats_defs = sample_events_def run_events_def sample_meta_def stat_ops RegisterTokens_def
  NewCollector_def on_token_def on_global_def on_metrics_def on_chain_def ensureToken_def metric_defs chain_key_def

lemma sample_tokens_enum:
  "enumerates [''t1''] (co_tokens (RegisterTokens [] (run_events sample_events)))"
  by (simp add: enumerates_def sample_stats_defs)

lemma snapshot_deterministic_example:
  "ov_TokenCount (fst (Snapshot 9 [] [''t1''] (run_events sample_events))) = 1"
proof -
  have "dom (co_tokens (RegisterTokens [] (run_events sample_events))) = {''t1''}"
    using sample_tokens_enum by (simp add: enumerates_def)
  with snapshot_deterministic [OF collector_acct_run sample_tokens_enum sample_tokens_enum, of 9] show ?thesis
    by simp
qed

end
