(* ===== verification/Model.thy ===== *)
theory Model
  imports Prelude
begin

section \<open>Shared data: \<open>internal/model\<close> and \<open>internal/gatewayctx\<close>\<close>

text \<open>
  The records every handler passes around: the API token with its plan limits, the billing event,
  the rate-limit log entry, and the request context that the middleware fills and the handlers read.
  A Go map to the empty struct is a set; a nil pointer is \<open>None\<close>.
\<close>

record token =
  tok_Key :: string
  tok_Name :: string
  tok_Plan :: string
  tok_UserID :: string
  tok_PricePerSuccessCents :: int
  tok_Enabled :: bool
  tok_BillingFree :: bool
  tok_TokenRateLimitPerSecond :: int
  tok_TokenRateLimitBurst :: int
  tok_TokenIPRateLimitPerSecond :: int
  tok_TokenIPRateLimitBurst :: int
  tok_DailyQuota :: int
  tok_DeniedMethods :: "string set"

record billing_event =
  ev_EventID :: string
  ev_TokenKey :: string
  ev_TokenName :: string
  ev_UserID :: string
  ev_Plan :: string
  ev_ChainID :: string
  ev_Methods :: "string list"
  ev_SuccessN :: int
  ev_Billable :: bool
  ev_AmountCents :: int
  ev_Transport :: string
  ev_EventKind :: string
  ev_Upstream :: string
  ev_LatencyMs :: int
  ev_ClientIP :: string
  ev_At :: time

record rate_limit_log =
  rl_TokenKey :: string
  rl_TokenName :: string
  rl_ChainID :: string
  rl_ClientIP :: string
  rl_Reason :: string
  rl_At :: time

subsection \<open>The request context\<close>

record req_context =
  cx_token :: "token option"
  cx_chain :: "string option"
  cx_methods :: "string list option"

definition empty_context :: req_context where
  "empty_context = \<lparr>cx_token = None, cx_chain = None, cx_methods = None\<rparr>"

definition WithToken :: "req_context \<Rightarrow> token option \<Rightarrow> req_context" where
  "WithToken ctx t = ctx\<lparr>cx_token := t\<rparr>"

definition ctx_Token :: "req_context \<Rightarrow> token option" where
  "ctx_Token ctx = cx_token ctx"

definition WithChainID :: "req_context \<Rightarrow> string \<Rightarrow> req_context" where
  "WithChainID ctx c = ctx\<lparr>cx_chain := Some c\<rparr>"

definition ctx_ChainID :: "req_context \<Rightarrow> string" where
  "ctx_ChainID ctx = (case cx_chain ctx of None \<Rightarrow> [] | Some c \<Rightarrow> c)"

definition WithMethods :: "req_context \<Rightarrow> string list \<Rightarrow> req_context" where
  "WithMethods ctx ms = ctx\<lparr>cx_methods := Some ms\<rparr>"

definition ctx_Methods :: "req_context \<Rightarrow> string list" where
  "ctx_Methods ctx = (case cx_methods ctx of None \<Rightarrow> [] | Some ms \<Rightarrow> ms)"

lemmas context_defs [go_simps] =
  empty_context_def WithToken_def ctx_Token_def WithChainID_def ctx_ChainID_def
  WithMethods_def ctx_Methods_def

text \<open>Each value reads back what was stored under its own key, whatever else is stored.\<close>

lemma context_reads [simp]:
  "ctx_Token (WithToken c t) = t"
  "ctx_Token (WithChainID c i) = ctx_Token c"
  "ctx_Token (WithMethods c ms) = ctx_Token c"
  "ctx_ChainID (WithChainID c i) = i"
  "ctx_ChainID (WithToken c t) = ctx_ChainID c"
  "ctx_ChainID (WithMethods c ms) = ctx_ChainID c"
  "ctx_Methods (WithMethods c ms) = ms"
  "ctx_Methods (WithToken c t) = ctx_Methods c"
  "ctx_Methods (WithChainID c i) = ctx_Methods c"
  by (simp_all add: context_defs)

end
