(* ===== verification/Ratelimit.thy ===== *)
theory Ratelimit
  imports Model Complex_Main
begin

section \<open>Rate limiting: \<open>internal/ratelimit\<close> and the keys of \<open>internal/store\<close>\<close>

text \<open>
  The limiter checks the daily quota, the token's bucket and the bucket of the token and client
  address, in that order. Redis and \<open>golang.org/x/time/rate\<close> are not part of the repository: the
  calls the code makes are the fields of the records \<open>redis_ops\<close> and \<open>rate_ops\<close>, and their states
  are type parameters. The Lua script that Redis runs is part of the repository; it is \<open>bucket_script\<close>,
  over rational numbers. One call of the limiter reads the clock once in the model.
\<close>

subsection \<open>Keys\<close>

definition DailySuccessKey :: "string \<Rightarrow> string \<Rightarrow> string" where
  "DailySuccessKey tokenKey day = ''rpc:success:'' @ tokenKey @ '':'' @ day"

definition RateLimitTokenKey :: "string \<Rightarrow> string" where
  "RateLimitTokenKey tokenKey = ''rpc:ratelimit:token:'' @ tokenKey"

definition RateLimitTokenIPKey :: "string \<Rightarrow> string \<Rightarrow> string" where
  "RateLimitTokenIPKey tokenKey ip = ''rpc:ratelimit:tokenip:'' @ tokenKey @ '':'' @ ip"

subsection \<open>The services\<close>

datatype redis_error = RedisNil | RedisError string

record 'r redis_ops =
  rop_Get :: "string \<Rightarrow> 'r \<Rightarrow> redis_error + int"
  rop_IncrBy :: "string \<Rightarrow> int \<Rightarrow> 'r \<Rightarrow> 'r"
  rop_Expire :: "string \<Rightarrow> duration \<Rightarrow> 'r \<Rightarrow> 'r"
  rop_EvalBucket :: "string \<Rightarrow> int \<Rightarrow> int \<Rightarrow> rat \<Rightarrow> 'r \<Rightarrow> (redis_error + int) \<times> 'r"

record 'l rate_ops =
  lop_New :: "int \<Rightarrow> int \<Rightarrow> 'l"
  lop_Allow :: "time \<Rightarrow> 'l \<Rightarrow> bool \<times> 'l"

subsection \<open>The script\<close>

text \<open>
  The bucket is the hash's two fields, the tokens left and the time of the last call, \<open>None\<close> when
  the key does not exist. The result is whether the call is allowed and the fields that HMSET writes.
\<close>

definition bucket_script :: "rat \<Rightarrow> rat \<Rightarrow> rat \<Rightarrow> (rat \<times> rat) option \<Rightarrow> bool \<times> rat \<times> rat" where
  "bucket_script rate burst now data =
     (let (tokens, ts) = (case data of None \<Rightarrow> (burst, now) | Some d \<Rightarrow> d);
          delta = max 0 (now - ts);
          fill = delta * rate;
          tokens = min burst (tokens + fill)
      in if 1 \<le> tokens then (True, tokens - 1, now) else (False, tokens, now))"

text \<open>
  With EXPIRE key 2: the hash and the second it expires at. A key that has expired does not exist.
\<close>

definition live :: "rat \<Rightarrow> ((rat \<times> rat) \<times> rat) option \<Rightarrow> (rat \<times> rat) option" where
  "live now e = (case e of None \<Rightarrow> None | Some (d, expires) \<Rightarrow> if now < expires then Some d else None)"

definition script_step ::
  "rat \<Rightarrow> rat \<Rightarrow> ((rat \<times> rat) \<times> rat) option \<Rightarrow> rat \<Rightarrow> bool \<times> ((rat \<times> rat) \<times> rat) option" where
  "script_step rate burst e now =
     (let (ok, d) = bucket_script rate burst now (live now e) in (ok, Some (d, now + 2)))"

subsection \<open>The limiter\<close>

record result =
  res_Allowed :: bool
  res_Reason :: string

record ('l, 'r) limiter =
  lm_rdb :: "'r option"
  lm_local :: "string \<rightharpoonup> 'l"
  lm_daily :: "string \<rightharpoonup> int"
  lm_onReject :: bool
  lm_rejects :: "rate_limit_log list"

definition New :: "'r option \<Rightarrow> bool \<Rightarrow> ('l, 'r) limiter" where
  "New rdb onReject =
     \<lparr>lm_rdb = rdb, lm_local = Map.empty, lm_daily = Map.empty, lm_onReject = onReject, lm_rejects = []\<rparr>"

definition dailyUsed :: "'r redis_ops \<Rightarrow> string \<Rightarrow> string \<Rightarrow> ('l, 'r) limiter \<Rightarrow> redis_error + int" where
  "dailyUsed rops tokenKey day l =
     (case lm_rdb l of
        Some r \<Rightarrow>
          (case rop_Get rops (DailySuccessKey tokenKey day) r of
             Inl RedisNil \<Rightarrow> Inr 0
           | res \<Rightarrow> res)
      | None \<Rightarrow> Inr (map_get 0 (lm_daily l) (tokenKey @ '':'' @ day)))"

definition IncrSuccess ::
  "'r redis_ops \<Rightarrow> time \<Rightarrow> string \<Rightarrow> int \<Rightarrow> ('l, 'r) limiter \<Rightarrow> ('l, 'r) limiter" where
  "IncrSuccess rops now tokenKey n l =
     (if n \<le> 0 then l
      else
        let day = format_day now
        in case lm_rdb l of
             Some r \<Rightarrow>
               (let key = DailySuccessKey tokenKey day;
                    r = rop_IncrBy rops key n r;
                    r = rop_Expire rops key (48 * hour) r
                in l\<lparr>lm_rdb := Some r\<rparr>)
           | None \<Rightarrow>
               (let k = tokenKey @ '':'' @ day
                in l\<lparr>lm_daily := (lm_daily l)(k \<mapsto> wrap64 (map_get 0 (lm_daily l) k + n))\<rparr>))"

definition localAllow ::
  "'l rate_ops \<Rightarrow> time \<Rightarrow> string \<Rightarrow> int \<Rightarrow> int \<Rightarrow> ('l, 'r) limiter \<Rightarrow> bool \<times> ('l, 'r) limiter" where
  "localAllow lops now key rps burst l =
     (let bucket = (case lm_local l key of Some bucket \<Rightarrow> bucket | None \<Rightarrow> lop_New lops rps burst);
          (ok, bucket) = lop_Allow lops now bucket
      in (ok, l\<lparr>lm_local := (lm_local l)(key \<mapsto> bucket)\<rparr>))"

text \<open>\<open>float64(time.Now().UnixMilli()) / 1000.0\<close>.\<close>

definition unix_seconds :: "time \<Rightarrow> rat" where
  "unix_seconds now = of_int (now div 1000000) / 1000"

definition redisAllow ::
  "'r redis_ops \<Rightarrow> time \<Rightarrow> string \<Rightarrow> int \<Rightarrow> int \<Rightarrow> 'r \<Rightarrow> (string + bool) \<times> 'r" where
  "redisAllow rops now key rps burst r =
     (case rop_EvalBucket rops key rps burst (unix_seconds now) r of
        (Inl RedisNil, r) \<Rightarrow> (Inr False, r)
      | (Inl (RedisError e), r) \<Rightarrow> (Inl (''redis rate limit: '' @ e), r)
      | (Inr res, r) \<Rightarrow> (Inr (res = 1), r))"

definition allowBucket ::
  "'r redis_ops \<Rightarrow> 'l rate_ops \<Rightarrow> time \<Rightarrow> string \<Rightarrow> int \<Rightarrow> int \<Rightarrow> ('l, 'r) limiter
    \<Rightarrow> bool \<times> ('l, 'r) limiter" where
  "allowBucket rops lops now key rps burst l =
     (if rps \<le> 0 then (True, l)
      else
        let burst = (if burst \<le> 0 then rps else burst)
        in case lm_rdb l of
             Some r \<Rightarrow>
               (case redisAllow rops now key rps burst r of
                  (Inl e, r) \<Rightarrow> localAllow lops now key rps burst (l\<lparr>lm_rdb := Some r\<rparr>)
                | (Inr ok, r) \<Rightarrow> (ok, l\<lparr>lm_rdb := Some r\<rparr>))
           | None \<Rightarrow> localAllow lops now key rps burst l)"

definition reject :: "time \<Rightarrow> token \<Rightarrow> string \<Rightarrow> string \<Rightarrow> string \<Rightarrow> ('l, 'r) limiter \<Rightarrow> ('l, 'r) limiter" where
  "reject now t chainID clientIP reason l =
     (if \<not> lm_onReject l then l
      else l\<lparr>lm_rejects := lm_rejects l @
        [\<lparr>rl_TokenKey = tok_Key t, rl_TokenName = tok_Name t, rl_ChainID = chainID,
          rl_ClientIP = clientIP, rl_Reason = reason, rl_At = now\<rparr>]\<rparr>)"

definition quota_reached :: "token \<Rightarrow> redis_error + int \<Rightarrow> bool" where
  "quota_reached t used =
     (case used of Inl e \<Rightarrow> False | Inr n \<Rightarrow> tok_DailyQuota t > 0 \<and> n \<ge> tok_DailyQuota t)"

definition Allow ::
  "'r redis_ops \<Rightarrow> 'l rate_ops \<Rightarrow> time \<Rightarrow> token \<Rightarrow> string \<Rightarrow> string \<Rightarrow> ('l, 'r) limiter
    \<Rightarrow> result \<times> ('l, 'r) limiter" where
  "Allow rops lops now t chainID clientIP l =
     (let day = format_day now
      in if quota_reached t (dailyUsed rops (tok_Key t) day l) then
           (\<lparr>res_Allowed = False, res_Reason = ''daily_quota''\<rparr>, reject now t chainID clientIP ''daily_quota'' l)
         else
           case allowBucket rops lops now (RateLimitTokenKey (tok_Key t))
                  (tok_TokenRateLimitPerSecond t) (tok_TokenRateLimitBurst t) l of
             (False, l) \<Rightarrow>
               (\<lparr>res_Allowed = False, res_Reason = ''token_rate_limit''\<rparr>,
                reject now t chainID clientIP ''token_rate_limit'' l)
           | (True, l) \<Rightarrow>
               (case allowBucket rops lops now (RateLimitTokenIPKey (tok_Key t) clientIP)
                       (tok_TokenIPRateLimitPerSecond t) (tok_TokenIPRateLimitBurst t) l of
                  (False, l) \<Rightarrow>
                    (\<lparr>res_Allowed = False, res_Reason = ''token_ip_rate_limit''\<rparr>,
                     reject now t chainID clientIP ''token_ip_rate_limit'' l)
                | (True, l) \<Rightarrow> (\<lparr>res_Allowed = True, res_Reason = []\<rparr>, l)))"

end
