(* ===== verification/Ratelimit_Bound.thy ===== *)
theory Ratelimit_Bound
  imports Ratelimit
begin

section \<open>What the rate limiter promises\<close>

text \<open>
  The locale \<open>token_bucket\<close> is the contract of a rate bucket: a level that never exceeds the burst,
  grows at most at the rate, and pays one for every allowed call. It implies the bound on the calls
  allowed in any run. The Lua script satisfies it, first without the expiry of its key; the expiry
  changes nothing as long as the burst is at most twice the rate, and breaks the bound otherwise.
\<close>

subsection \<open>The contract of a bucket\<close>

text \<open>A run: the calls at the given times, and how many are allowed.\<close>

fun run_bucket :: "('s \<Rightarrow> rat \<Rightarrow> bool \<times> 's) \<Rightarrow> 's \<Rightarrow> rat list \<Rightarrow> bool list \<times> 's" where
  "run_bucket step s [] = ([], s)"
| "run_bucket step s (t # ts) =
     (let (ok, s) = step s t; (oks, s) = run_bucket step s ts in (ok # oks, s))"

definition allowed :: "bool list \<Rightarrow> nat" where
  "allowed oks = length (filter (\<lambda>b. b) oks)"

lemma allowed_simps [simp]: "allowed [] = 0" "allowed (b # bs) = (if b then Suc (allowed bs) else allowed bs)"
  by (simp_all add: allowed_def)

locale token_bucket =
  fixes step :: "'s \<Rightarrow> rat \<Rightarrow> bool \<times> 's" and level :: "'s \<Rightarrow> rat \<Rightarrow> rat" and rate burst :: rat
  assumes rate_nonneg: "0 \<le> rate"
    and level_burst: "level s t \<le> burst"
    and level_grows: "t \<le> t' \<Longrightarrow> level s t' \<le> level s t + rate * (t' - t)"
    and step_pays: "fst (step s t) \<Longrightarrow> 1 \<le> level s t \<and> level (snd (step s t)) t \<le> level s t - 1"
    and step_denies: "\<not> fst (step s t) \<Longrightarrow> level s t < 1 \<and> level (snd (step s t)) t \<le> level s t"
begin

lemma run_level:
  "sorted (t # ts) \<Longrightarrow>
     of_nat (allowed (fst (run_bucket step s ts))) \<le> max 0 (level s t) + rate * (last (t # ts) - t)"
proof (induction ts arbitrary: s t)
  case Nil
  then show ?case by simp
next
  case (Cons u ts)
  obtain ok s' where step: "step s u = (ok, s')" by fastforce
  let ?n = "of_nat (allowed (fst (run_bucket step s' ts))) :: rat"
  let ?d = "rate * (last (u # ts) - u)"
  have IH: "?n \<le> max 0 (level s' u) + ?d"
    using Cons.IH [of u s'] Cons.prems by simp
  have tu: "t \<le> u" using Cons.prems by simp
  have grow: "level s u \<le> level s t + rate * (u - t)" by (rule level_grows [OF tu])
  have pos: "0 \<le> rate * (u - t)" using rate_nonneg tu by simp
  have split: "rate * (last (t # u # ts) - t) = rate * (u - t) + ?d"
    by (simp add: algebra_simps)
  have run: "fst (run_bucket step s (u # ts)) = ok # fst (run_bucket step s' ts)"
    by (simp add: step split: prod.split)
  show ?case
  proof (cases ok)
    case True
    then have "1 \<le> level s u" "level s' u \<le> level s u - 1"
      using step_pays [of s u] by (simp_all add: step)
    then have "max 0 (level s' u) \<le> level s u - 1" by simp
    then have "?n + 1 \<le> max 0 (level s t) + (rate * (u - t) + ?d)" using IH grow by linarith
    then show ?thesis unfolding run split using True by simp
  next
    case False
    then have "level s' u \<le> level s u" using step_denies [of s u] by (simp add: step)
    then have "max 0 (level s' u) \<le> max 0 (level s t) + rate * (u - t)" using grow pos by linarith
    then have "?n \<le> max 0 (level s t) + (rate * (u - t) + ?d)" using IH by linarith
    then show ?thesis unfolding run split using False by simp
  qed
qed

text \<open>In a run the calls allowed are at most the burst plus what flows in.\<close>

lemma run_bound:
  assumes "sorted (t # ts)" "0 \<le> burst"
  shows "of_nat (allowed (fst (run_bucket step s (t # ts)))) \<le> burst + rate * (last (t # ts) - t)"
proof -
  have "sorted (t # t # ts)" using assms(1) by simp
  from run_level [OF this, of s] level_burst [of s t] assms(2)
  show ?thesis by (simp add: max_def split: if_splits)
qed

end

subsection \<open>The script without expiry\<close>

definition script_level :: "rat \<Rightarrow> rat \<Rightarrow> (rat \<times> rat) option \<Rightarrow> rat \<Rightarrow> rat" where
  "script_level rate burst s t =
     (case s of None \<Rightarrow> burst | Some (tokens, ts) \<Rightarrow> min burst (tokens + max 0 (t - ts) * rate))"

definition plain_step :: "rat \<Rightarrow> rat \<Rightarrow> (rat \<times> rat) option \<Rightarrow> rat \<Rightarrow> bool \<times> (rat \<times> rat) option" where
  "plain_step rate burst s t = (let (ok, d) = bucket_script rate burst t s in (ok, Some d))"

lemma script_level_grows:
  assumes "0 \<le> rate" "t \<le> t'"
  shows "script_level rate burst s t' \<le> script_level rate burst s t + rate * (t' - t)"
proof (cases s)
  case None
  with assms show ?thesis by (simp add: script_level_def)
next
  case (Some d)
  obtain tk ts where d: "d = (tk, ts)" by fastforce
  have "max 0 (t' - ts) \<le> max 0 (t - ts) + (t' - t)" using assms(2) by (simp add: max_def)
  then have "max 0 (t' - ts) * rate \<le> (max 0 (t - ts) + (t' - t)) * rate"
    using assms(1) by (rule mult_right_mono)
  then have "max 0 (t' - ts) * rate \<le> max 0 (t - ts) * rate + rate * (t' - t)"
    by (simp add: algebra_simps)
  moreover have "0 \<le> rate * (t' - t)" using assms by simp
  ultimately show ?thesis by (simp add: script_level_def Some d min_def)
qed

lemma bucket_script_level:
  "bucket_script rate burst t s =
     (if 1 \<le> script_level rate burst s t then (True, script_level rate burst s t - 1, t)
      else (False, min burst (script_level rate burst s t), t))"
  by (cases s) (auto simp: bucket_script_def script_level_def Let_def)

interpretation script_bucket:
  token_bucket "plain_step (of_nat r) (of_nat b)" "script_level (of_nat r) (of_nat b)" "of_nat r" "of_nat b"
  for r b :: nat
proof (unfold_locales, goal_cases)
  case 1
  show ?case by simp
next
  case (2 s t)
  show ?case by (simp add: script_level_def split: option.split)
next
  case (3 t t' s)
  then show ?case by (intro script_level_grows) simp_all
next
  case (4 s t)
  then show ?case
    by (auto simp: plain_step_def bucket_script_level script_level_def [of _ _ "Some _"] split: if_splits)
next
  case (5 s t)
  then show ?case
    by (auto simp: plain_step_def bucket_script_level script_level_def [of _ _ "Some _"] split: if_splits)
qed

subsection \<open>The expiry of the key\<close>

text \<open>
  The state with the expiry and the state without it agree on what they allow from now on: their
  levels are the same at all later times.
\<close>

definition same_bucket :: "rat \<Rightarrow> rat \<Rightarrow> rat \<Rightarrow> ((rat \<times> rat) \<times> rat) option \<Rightarrow> (rat \<times> rat) option \<Rightarrow> bool" where
  "same_bucket rate burst t e s \<longleftrightarrow>
     (\<forall>u \<ge> t. script_level rate burst (live u e) u = script_level rate burst s u) \<and>
     (case s of None \<Rightarrow> True | Some d \<Rightarrow> 0 \<le> fst d)"

lemma script_level_nonneg:
  "0 \<le> rate \<Longrightarrow> 0 \<le> burst \<Longrightarrow> (case s of None \<Rightarrow> True | Some d \<Rightarrow> 0 \<le> fst d) \<Longrightarrow>
     0 \<le> script_level rate burst s t"
  by (auto simp: script_level_def split: option.splits)

lemma same_bucket_step:
  assumes "0 \<le> rate" "0 \<le> burst" "burst \<le> 2 * rate" "same_bucket rate burst t e s" "t \<le> t'"
  shows "fst (script_step rate burst e t') = fst (plain_step rate burst s t')
    \<and> same_bucket rate burst t' (snd (script_step rate burst e t')) (snd (plain_step rate burst s t'))"
proof -
  let ?l = "script_level rate burst s t'"
  have l: "script_level rate burst (live t' e) t' = ?l" using assms(4,5) by (simp add: same_bucket_def)
  have nn: "0 \<le> ?l" using assms(1,2,4) by (intro script_level_nonneg) (auto simp: same_bucket_def)
  define tk where "tk = (if 1 \<le> ?l then ?l - 1 else min burst ?l)"
  have tk: "0 \<le> tk" using nn assms(2) by (simp add: tk_def)
  have e': "script_step rate burst e t' = (1 \<le> ?l, Some ((tk, t'), t' + 2))"
    by (simp add: script_step_def bucket_script_level l tk_def)
  have s': "plain_step rate burst s t' = (1 \<le> ?l, Some (tk, t'))"
    by (simp add: plain_step_def bucket_script_level tk_def)
  have "script_level rate burst (live u (Some ((tk, t'), t' + 2))) u = script_level rate burst (Some (tk, t')) u"
    if "t' \<le> u" for u
  proof (cases "u < t' + 2")
    case True
    then show ?thesis by (simp add: live_def)
  next
    case False
    then have "2 * rate \<le> (u - t') * rate" using assms(1) by (intro mult_right_mono) auto
    with assms(3) tk have "burst \<le> tk + (u - t') * rate" by linarith
    with False that show ?thesis by (simp add: live_def script_level_def)
  qed
  with tk show ?thesis by (simp add: e' s' same_bucket_def)
qed

lemma same_bucket_run:
  assumes "0 \<le> rate" "0 \<le> burst" "burst \<le> 2 * rate"
  shows "same_bucket rate burst t e s \<Longrightarrow> sorted (t # ts) \<Longrightarrow>
    fst (run_bucket (script_step rate burst) e ts) = fst (run_bucket (plain_step rate burst) s ts)"
proof (induction ts arbitrary: t e s)
  case Nil
  then show ?case by simp
next
  case (Cons u ts)
  have "t \<le> u" using Cons.prems(2) by simp
  note same = same_bucket_step [OF assms Cons.prems(1) this]
  obtain ok e' where e': "script_step rate burst e u = (ok, e')" by fastforce
  obtain s' where s': "plain_step rate burst s u = (ok, s')"
    using same e' by (cases "plain_step rate burst s u") simp
  have "same_bucket rate burst u e' s'" using same by (simp add: e' s')
  moreover have "sorted (u # ts)" using Cons.prems(2) by simp
  ultimately have "fst (run_bucket (script_step rate burst) e' ts) = fst (run_bucket (plain_step rate burst) s' ts)"
    by (rule Cons.IH)
  then show ?case by (simp add: e' s' split_beta)
qed

lemma same_bucket_start: "same_bucket rate burst t None None"
  by (simp add: same_bucket_def live_def)

subsection \<open>Properties\<close>

text \<open>
  C20: the token bucket bounds the traffic. For a plan whose burst is at most twice its rate, of the
  calls of the Redis script on one key at nondecreasing times, starting without the key, at most
  burst + rate * (elapsed seconds) are allowed, expiry of the key after two idle seconds included.
\<close>

theorem redis_bucket_bound:
  fixes r b :: nat
  assumes "sorted (t # ts)" "b \<le> 2 * r"
  shows "of_nat (allowed (fst (run_bucket (script_step (of_nat r) (of_nat b)) None (t # ts)))) \<le>
    (of_nat b :: rat) + of_nat r * (last (t # ts) - t)"
proof -
  have "(of_nat b :: rat) \<le> 2 * of_nat r" using assms(2) by (metis of_nat_le_iff of_nat_mult of_nat_numeral)
  moreover have "sorted (t # t # ts)" using assms(1) by simp
  ultimately have "fst (run_bucket (script_step (of_nat r) (of_nat b)) None (t # ts)) =
      fst (run_bucket (plain_step (of_nat r) (of_nat b)) None (t # ts))"
    by (intro same_bucket_run [of _ _ t]) (simp_all add: same_bucket_start)
  then show ?thesis using script_bucket.run_bound [OF assms(1), of b r None] by simp
qed

lemmas bucket_eval = script_step_def bucket_script_def live_def Let_def

theorem redis_bucket_bound_witness:
  "allowed (fst (run_bucket (script_step (of_nat 1) (of_nat 2)) None [0, 0, 0, 1/2, 1])) = 3 \<and>
   (of_nat 3 :: rat) \<le> of_nat 2 + of_nat 1 * (last [0, 0, 0, 1/2, 1] - 0)"
proof -
  have a: "allowed (fst (run_bucket (script_step (of_nat 1) (of_nat 2)) None [0, 0, 0, 1/2, 1])) = 3"
    by (simp add: bucket_eval)
  from redis_bucket_bound [of 0 "[0, 0, 1/2, 1]" 2 1] a show ?thesis by simp
qed

text \<open>
  With a burst above twice the rate the expiry breaks the bound: at rate 1 and burst 6, six
  calls at once empty the bucket, and two seconds later six more are allowed, where the bucket
  would have refilled by two.
\<close>

lemma redis_expiry_breaks_bound:
  "allowed (fst (run_bucket (script_step 1 6) None (replicate 6 0 @ replicate 6 2))) = 12 \<and>
   allowed (fst (run_bucket (plain_step 1 6) None (replicate 6 0 @ replicate 6 2))) = 8"
  by (simp add: bucket_eval plain_step_def numeral_eq_Suc)

end
