(* ===== verification/Ratelimit_Spec.thy ===== *)
theory Ratelimit_Spec
  imports Ratelimit
begin

section \<open>What the limiter promises its callers\<close>

text \<open>
  The rejection log, the exact daily quota, the independence of the verdict from billing and the
  separation of tokens, for the limiter with and without Redis as stated.
\<close>

subsection \<open>The services a call leaves alone\<close>

lemma reject_simps [simp]:
  "lm_rdb (reject now t c ip why l) = lm_rdb l"
  "lm_local (reject now t c ip why l) = lm_local l"
  "lm_daily (reject now t c ip why l) = lm_daily l"
  "lm_onReject (reject now t c ip why l) = lm_onReject l"
  by (simp_all add: reject_def)

lemma allowBucket_keeps:
  assumes "allowBucket rops lops now key rps burst l = (ok, l')"
  shows "lm_daily l' = lm_daily l" "lm_onReject l' = lm_onReject l" "lm_rejects l' = lm_rejects l"
    "k \<noteq> key \<Longrightarrow> lm_local l' k = lm_local l k"
    "lm_rdb l' = None \<longleftrightarrow> lm_rdb l = None"
  using assms
  by (auto simp: allowBucket_def localAllow_def Let_def
      split: if_splits option.splits prod.splits sum.splits)

text \<open>The entry that a rejection of this call appends to the log.\<close>

definition reject_entry :: "time \<Rightarrow> token \<Rightarrow> string \<Rightarrow> string \<Rightarrow> string \<Rightarrow> rate_limit_log" where
  "reject_entry now t chainID clientIP reason =
     \<lparr>rl_TokenKey = tok_Key t, rl_TokenName = tok_Name t, rl_ChainID = chainID,
      rl_ClientIP = clientIP, rl_Reason = reason, rl_At = now\<rparr>"

lemma reject_rejects:
  "lm_rejects (reject now t c ip why l) =
     lm_rejects l @ (if lm_onReject l then [reject_entry now t c ip why] else [])"
  by (simp add: reject_def reject_entry_def)

lemma allow_effect:
  "case Allow rops lops now t chainID clientIP l of (res, l') \<Rightarrow>
     (res_Allowed res \<longleftrightarrow> res_Reason res = []) \<and>
     res_Reason res \<in> {[], ''daily_quota'', ''token_rate_limit'', ''token_ip_rate_limit''} \<and>
     lm_rejects l' = lm_rejects l @
       (if lm_onReject l \<and> \<not> res_Allowed res then [reject_entry now t chainID clientIP (res_Reason res)] else []) \<and>
     lm_daily l' = lm_daily l \<and> (lm_rdb l' = None \<longleftrightarrow> lm_rdb l = None)"
proof -
  let ?k1 = "RateLimitTokenKey (tok_Key t)" and ?k2 = "RateLimitTokenIPKey (tok_Key t) clientIP"
  obtain ok1 l1 where b1: "allowBucket rops lops now ?k1 (tok_TokenRateLimitPerSecond t)
      (tok_TokenRateLimitBurst t) l = (ok1, l1)" by fastforce
  obtain ok2 l2 where b2: "allowBucket rops lops now ?k2 (tok_TokenIPRateLimitPerSecond t)
      (tok_TokenIPRateLimitBurst t) l1 = (ok2, l2)" by fastforce
  show ?thesis
    using allowBucket_keeps(1-3,5) [OF b1] allowBucket_keeps(1-3,5) [OF b2]
    by (cases ok1; cases ok2) (simp_all add: Allow_def b1 b2 reject_rejects Let_def)
qed

text \<open>
  Every verdict explains itself. A call that is allowed has the empty reason and writes no log
  entry; a call that is rejected has one of the three documented reasons and writes exactly one
  entry, with that reason and the token, network and address of the call. The count of successes of
  the day is not touched, and the limiter without Redis stays without Redis.
\<close>

lemma allow_explains:
  "case Allow rops lops now t chainID clientIP l of (res, l') \<Rightarrow>
     (res_Allowed res \<longleftrightarrow> res_Reason res = []) \<and>
     res_Reason res \<in> {[], ''daily_quota'', ''token_rate_limit'', ''token_ip_rate_limit''} \<and>
     lm_rejects l' = lm_rejects l @
       (if lm_onReject l \<and> \<not> res_Allowed res then [reject_entry now t chainID clientIP (res_Reason res)] else []) \<and>
     lm_daily l' = lm_daily l \<and> (lm_rdb l' = None \<longleftrightarrow> lm_rdb l = None)"
  by (rule allow_effect)

subsection \<open>Billing does not matter\<close>

text \<open>
  Free tokens are limited exactly like paid ones: the verdict, the buckets, the quota and the
  log do not depend on whether the token is billed, nor on its price, plan name or user.
\<close>

lemma allow_ignores_billing:
  fixes l :: "('l, 'r) limiter"
  shows "Allow rops lops now
     (t\<lparr>tok_BillingFree := free, tok_PricePerSuccessCents := price, tok_Plan := pl, tok_UserID := u\<rparr>)
     chainID clientIP l =
   Allow rops lops now t chainID clientIP l"
  (is "Allow rops lops now ?t chainID clientIP l = _")
proof -
  have "reject now ?t c ip why l = reject now t c ip why l" for c ip why and l :: "('l, 'r) limiter"
    by (simp add: reject_def)
  moreover have "quota_reached ?t = quota_reached t"
    by (rule ext) (simp add: quota_reached_def split: sum.split)
  ultimately show ?thesis by (simp add: Allow_def cong: prod.case_cong bool.case_cong)
qed

subsection \<open>The daily quota\<close>

text \<open>Every call of \<open>IncrSuccess\<close> is a time, a token key and a count.\<close>

definition count_all ::
  "'r redis_ops \<Rightarrow> (time \<times> string \<times> int) list \<Rightarrow> ('l, 'r) limiter \<Rightarrow> ('l, 'r) limiter" where
  "count_all rops es l = fold (\<lambda>(now, k, n). IncrSuccess rops now k n) es l"

definition successes :: "string \<Rightarrow> string \<Rightarrow> (time \<times> string \<times> int) list \<Rightarrow> int" where
  "successes day key es =
     sum_list (map (\<lambda>(now, k, n). if k = key \<and> format_day now = day \<and> 0 < n then n else 0) es)"

lemma IncrSuccess_keeps:
  "lm_rdb l = None \<Longrightarrow> lm_rdb (IncrSuccess rops now k n l) = None"
  by (simp add: IncrSuccess_def Let_def)

lemma digit_no_colon:
  assumes "n < 10"
  shows "digit n \<noteq> CHR '':''"
proof
  assume "digit n = CHR '':''"
  then have "(of_char (digit n) :: nat) = of_char (CHR '':'')" by simp
  with assms show False by (simp add: digit_def)
qed

lemma show_nat_no_colon: "CHR '':'' \<notin> set (show_nat n)"
proof (induction n rule: show_nat.induct)
  case (1 n)
  then show ?case using digit_no_colon [of n] digit_no_colon [of "n mod 10"]
    by (auto simp: show_nat.simps [of n])
qed

lemma pad_no_colon: "CHR '':'' \<notin> set (pad w n)"
  using show_nat_no_colon by (auto simp: pad_def show_int_def Let_def)

lemma format_day_no_colon: "CHR '':'' \<notin> set (format_day t)"
  using pad_no_colon by (auto simp: format_day_def split: prod.split)

lemma key_day_inject:
  assumes "CHR '':'' \<notin> set d" "CHR '':'' \<notin> set d'"
  shows "k @ '':'' @ d = k' @ '':'' @ d' \<longleftrightarrow> k = k' \<and> d = d'"
proof
  assume "k @ '':'' @ d = k' @ '':'' @ d'"
  then have "rev d @ '':'' @ rev k = rev d' @ '':'' @ rev k'"
    by (metis append.assoc rev_append rev_singleton_conv)
  then have "takeWhile (\<lambda>c. c \<noteq> CHR '':'') (rev d @ '':'' @ rev k) =
      takeWhile (\<lambda>c. c \<noteq> CHR '':'') (rev d' @ '':'' @ rev k')" by simp
  then have "rev d = rev d'" using assms by (subst (asm) (1 2) takeWhile_append2) auto
  then show "k = k' \<and> d = d'" using \<open>k @ '':'' @ d = k' @ '':'' @ d'\<close> by simp
qed simp

lemma IncrSuccess_used:
  assumes "lm_rdb l = None" "CHR '':'' \<notin> set day"
  shows "map_get 0 (lm_daily (IncrSuccess rops now k n l)) (key @ CHR '':'' # day) =
    (if k = key \<and> format_day now = day \<and> 0 < n
     then wrap64 (map_get 0 (lm_daily l) (key @ CHR '':'' # day) + n)
     else map_get 0 (lm_daily l) (key @ CHR '':'' # day))"
  using assms key_day_inject [OF assms(2) format_day_no_colon, of key k now]
  by (auto simp: IncrSuccess_def Let_def)

lemma count_all_used:
  assumes "CHR '':'' \<notin> set day"
  shows "lm_rdb l = None \<Longrightarrow>
    lm_rdb (count_all rops es l) = None \<and>
    wrap64 (map_get 0 (lm_daily (count_all rops es l)) (key @ CHR '':'' # day)) =
    wrap64 (map_get 0 (lm_daily l) (key @ CHR '':'' # day) + successes day key es)"
proof (induction es arbitrary: l)
  case Nil
  then show ?case by (simp add: count_all_def successes_def)
next
  case (Cons e es)
  obtain now k n where e: "e = (now, k, n)" by (cases e)
  let ?l = "IncrSuccess rops now k n l"
  have step: "count_all rops (e # es) l = count_all rops es ?l" by (simp add: count_all_def e)
  have "successes day key (e # es) =
      (if k = key \<and> format_day now = day \<and> 0 < n then n else 0) + successes day key es"
    by (simp add: successes_def e)
  with Cons.IH [OF IncrSuccess_keeps [OF Cons.prems], of rops now k n] show ?case
    unfolding step by (auto simp: IncrSuccess_used [OF Cons.prems assms] add.assoc)
qed

lemma IncrSuccess_in64:
  "(\<forall>k. in64 (map_get 0 (lm_daily l) k)) \<Longrightarrow> \<forall>k. in64 (map_get 0 (lm_daily (IncrSuccess rops now k' n l)) k)"
  by (auto simp: IncrSuccess_def Let_def split: option.split)

lemma count_all_in64:
  "(\<forall>k. in64 (map_get 0 (lm_daily l) k)) \<Longrightarrow> \<forall>k. in64 (map_get 0 (lm_daily (count_all rops es l)) k)"
proof (induction es arbitrary: l)
  case Nil
  then show ?case by (simp add: count_all_def)
next
  case (Cons e es)
  obtain now k n where e: "e = (now, k, n)" by (cases e)
  from Cons.IH [OF IncrSuccess_in64 [OF Cons.prems]] show ?case by (simp add: count_all_def e)
qed

lemma wrap64_in: "in64 x \<Longrightarrow> wrap64 x = x"
  by (simp add: in64_def wrap64_id)

lemma daily_used_eq:
  fixes rops :: "'r redis_ops"
  shows "dailyUsed rops key (format_day now) (count_all rops es (New None onReject :: ('l, 'r) limiter)) =
     Inr (wrap64 (successes (format_day now) key es))"
proof -
  let ?l = "New None onReject :: ('l, 'r) limiter"
  have l: "lm_rdb ?l = None" "\<forall>k. in64 (map_get 0 (lm_daily ?l) k)" by (simp_all add: New_def in64_def)
  have "map_get 0 (lm_daily ?l) k = 0" for k by (simp add: New_def)
  with count_all_used [OF format_day_no_colon l(1), of rops es key now] count_all_in64 [OF l(2), of rops es]
  show ?thesis by (simp add: dailyUsed_def wrap64_in)
qed

text \<open>
  The daily count without Redis is exact. After any calls of \<open>IncrSuccess\<close>, for any tokens at any
  times, the use that the quota check reads for a token and a day is the sum of the positive counts
  reported for that token on that UTC day, at 64 bits: nothing leaks between tokens or days,
  whatever characters the keys contain.
\<close>

lemma daily_count_exact:
  "dailyUsed rops key (format_day now) (count_all rops es (New None onReject)) =
     Inr (wrap64 (successes (format_day now) key es))"
  by (rule daily_used_eq)

lemma Allow_daily:
  "res_Reason (fst (Allow rops lops now t c ip l)) = ''daily_quota'' \<longleftrightarrow>
     quota_reached t (dailyUsed rops (tok_Key t) (format_day now) l)"
  by (simp add: Allow_def split: prod.split bool.split)

text \<open>
  C21: the quota is enforced. Without Redis a call is rejected with \<open>daily_quota\<close> if and only if the
  successes counted for its token on the current UTC day have reached the quota, for every positive
  quota and as long as the sum fits in 64 bits; a quota that is not positive never rejects.
\<close>

theorem quota_enforced:
  assumes "successes (format_day now) (tok_Key t) es < 9223372036854775808"
  shows "res_Reason (fst (Allow rops lops now t chainID clientIP (count_all rops es (New None onReject)))) = ''daily_quota''
    \<longleftrightarrow> 0 < tok_DailyQuota t \<and> tok_DailyQuota t \<le> successes (format_day now) (tok_Key t) es"
proof -
  have "0 \<le> successes (format_day now) (tok_Key t) es"
    unfolding successes_def by (rule sum_list_nonneg) auto
  then have "wrap64 (successes (format_day now) (tok_Key t) es) = successes (format_day now) (tok_Key t) es"
    using assms by (intro wrap64_id) auto
  then show ?thesis unfolding Allow_daily daily_used_eq by (simp add: quota_reached_def)
qed

definition sample_token :: token where
  "sample_token =
     \<lparr>tok_Key = ''demo'', tok_Name = ''demo'', tok_Plan = ''free'', tok_UserID = [],
      tok_PricePerSuccessCents = 2, tok_Enabled = True, tok_BillingFree = False,
      tok_TokenRateLimitPerSecond = 0, tok_TokenRateLimitBurst = 0,
      tok_TokenIPRateLimitPerSecond = 0, tok_TokenIPRateLimitBurst = 0,
      tok_DailyQuota = 3, tok_DeniedMethods = {''debug_traceCall''}\<rparr>"

lemma sample_token_simps [simp]:
  "tok_Key sample_token = ''demo''" "tok_DailyQuota sample_token = 3"
  "tok_DeniedMethods sample_token = {''debug_traceCall''}" "tok_BillingFree sample_token = False"
  "tok_PricePerSuccessCents sample_token = 2" "tok_Enabled sample_token = True"
  "tok_TokenRateLimitPerSecond sample_token = 0" "tok_TokenIPRateLimitPerSecond sample_token = 0"
  "tok_TokenRateLimitBurst sample_token = 0" "tok_TokenIPRateLimitBurst sample_token = 0"
  "tok_Name sample_token = ''demo''" "tok_Plan sample_token = ''free''" "tok_UserID sample_token = []"
  by (simp_all add: sample_token_def)

text \<open>Concrete services for examples: buckets that count down, and a Redis that does not answer.\<close>

definition sample_rate_ops :: "int rate_ops" where
  "sample_rate_ops = \<lparr>lop_New = (\<lambda>rps burst. burst), lop_Allow = (\<lambda>now n. (0 < n, n - 1))\<rparr>"

definition down_redis :: "unit redis_ops" where
  "down_redis =
     \<lparr>rop_Get = (\<lambda>k r. Inl (RedisError ''down'')), rop_IncrBy = (\<lambda>k n r. r), rop_Expire = (\<lambda>k d r. r),
      rop_EvalBucket = (\<lambda>k rps burst now r. (Inl (RedisError ''down''), r))\<rparr>"

theorem quota_enforced_witness:
  "res_Reason (fst (Allow down_redis sample_rate_ops 0 sample_token ''eth'' ''1.2.3.4''
     (count_all down_redis [(0, ''demo'', 2), (0, ''other'', 9), (0, ''demo'', 1)] (New None True)))) = ''daily_quota''"
  using quota_enforced [of 0 sample_token "[(0, ''demo'', 2), (0, ''other'', 9), (0, ''demo'', 1)]"
      down_redis sample_rate_ops "''eth''" "''1.2.3.4''" True]
  by (simp add: successes_def)

subsection \<open>Tokens are separate\<close>

lemma key_split:
  assumes "CHR '':'' \<notin> set k" "CHR '':'' \<notin> set k'"
  shows "k @ CHR '':'' # r = k' @ CHR '':'' # r' \<longleftrightarrow> k = k' \<and> r = r'"
proof
  assume eq: "k @ CHR '':'' # r = k' @ CHR '':'' # r'"
  from arg_cong [OF eq, of "takeWhile (\<lambda>c. c \<noteq> CHR '':'')"] have "k = k'"
    using assms by (subst (asm) (1 2) takeWhile_append2) auto
  with eq show "k = k' \<and> r = r'" by simp
qed simp

text \<open>
  A call for one token never touches the buckets of another. For token keys without a colon,
  whatever the call of token \<open>t\<close> does, the global bucket of every other token and its buckets for all
  addresses stay as they are, with and without Redis failing over to the process.
\<close>

lemma buckets_separate:
  assumes "CHR '':'' \<notin> set (tok_Key t)" "CHR '':'' \<notin> set k" "k \<noteq> tok_Key t"
    and "Allow rops lops now t chainID clientIP l = (res, l')"
  shows "lm_local l' (RateLimitTokenKey k) = lm_local l (RateLimitTokenKey k) \<and>
    lm_local l' (RateLimitTokenIPKey k ip) = lm_local l (RateLimitTokenIPKey k ip)"
proof -
  let ?k1 = "RateLimitTokenKey (tok_Key t)" and ?k2 = "RateLimitTokenIPKey (tok_Key t) clientIP"
  obtain ok1 l1 where b1: "allowBucket rops lops now ?k1 (tok_TokenRateLimitPerSecond t)
      (tok_TokenRateLimitBurst t) l = (ok1, l1)" by fastforce
  obtain ok2 l2 where b2: "allowBucket rops lops now ?k2 (tok_TokenIPRateLimitPerSecond t)
      (tok_TokenIPRateLimitBurst t) l1 = (ok2, l2)" by fastforce
  have other: "lm_local l' q = lm_local l q" if "q \<noteq> ?k1" "q \<noteq> ?k2" for q
    using assms(4) allowBucket_keeps(4) [OF b1, of q] allowBucket_keeps(4) [OF b2, of q] that
    by (cases ok1; cases ok2) (auto simp: Allow_def b1 b2 Let_def split: if_splits)
  show ?thesis
    using assms(1-3) by (auto intro!: other simp: RateLimitTokenKey_def RateLimitTokenIPKey_def key_split)
qed

definition busy_token :: token where
  "busy_token = sample_token\<lparr>tok_TokenRateLimitPerSecond := 5, tok_TokenIPRateLimitPerSecond := 3\<rparr>"

lemma buckets_separate_example:
  "case Allow down_redis sample_rate_ops 0 busy_token ''eth'' ''1.2.3.4'' (New None True) of (res, l') \<Rightarrow>
     lm_local l' (RateLimitTokenKey ''other'') = None \<and> lm_local l' (RateLimitTokenKey ''demo'') = Some 4"
proof -
  obtain res l' where a: "Allow down_redis sample_rate_ops 0 busy_token ''eth'' ''1.2.3.4'' (New None True) = (res, l')"
    by fastforce
  have "lm_local l' (RateLimitTokenKey ''other'') = lm_local (New None True :: (int, unit) limiter) (RateLimitTokenKey ''other'')"
    using buckets_separate [OF _ _ _ a, of "''other''"] by (simp add: busy_token_def)
  then have "lm_local l' (RateLimitTokenKey ''other'') = None" by (simp add: New_def)
  moreover have "lm_local l' (RateLimitTokenKey ''demo'') = Some 4"
    using a by (auto simp: Allow_def busy_token_def dailyUsed_def quota_reached_def New_def allowBucket_def
        localAllow_def sample_rate_ops_def RateLimitTokenKey_def RateLimitTokenIPKey_def Let_def map_get_def)
  ultimately show ?thesis unfolding a by simp
qed

text \<open>
  Without the assumption on colons the buckets of the token and address are shared: the token
  \<open>a\<close> with the address \<open>b:c\<close> and the token \<open>a:b\<close> with the address \<open>c\<close> use one key. The address can be
  chosen by the client in the \<open>X-Real-IP\<close> header, and nothing keeps colons out of token keys.
\<close>

lemma token_ip_keys_collide:
  "RateLimitTokenIPKey ''a'' ''b:c'' = RateLimitTokenIPKey ''a:b'' ''c''"
  by (simp add: RateLimitTokenIPKey_def)

subsection \<open>Plans that change\<close>

text \<open>
  The limits of an existing in-process bucket are frozen. Once a key has a bucket, the rate and
  burst that later calls pass are ignored, so that a plan changed in the database, which the token
  store picks up at the next refresh, has no effect on the buckets in use.
\<close>

lemma local_limit_frozen:
  assumes "lm_local l key = Some b" "lm_rdb l = None" "0 < rps" "0 < rps'"
  shows "allowBucket rops lops now key rps burst l = allowBucket rops lops now key rps' burst' l"
  using assms by (simp add: allowBucket_def localAllow_def Let_def)

lemma local_limit_frozen_example:
  "fst (allowBucket down_redis sample_rate_ops 1 ''k'' 100 100
      (snd (allowBucket down_redis sample_rate_ops 0 ''k'' 1 1 (New None True)))) = False"
proof -
  let ?l = "snd (allowBucket down_redis sample_rate_ops 0 ''k'' 1 1 (New None True))"
  have l: "lm_local ?l ''k'' = Some 0" "lm_rdb ?l = None"
    by (simp_all add: allowBucket_def localAllow_def New_def sample_rate_ops_def)
  have "fst (allowBucket down_redis sample_rate_ops 1 ''k'' 1 1 ?l) = False"
    by (simp add: allowBucket_def localAllow_def New_def sample_rate_ops_def)
  then show ?thesis using local_limit_frozen [OF l, of 100 1 down_redis sample_rate_ops 1 100 1] by simp
qed

end
