(* ===== verification/Config_Spec.thy ===== *)
theory Config_Spec
  imports Config
begin

section \<open>What a loaded configuration guarantees\<close>

text \<open>
  The configuration that \<open>Load\<close> returns satisfies what the rest of the gateway takes for granted, and
  the host check treats the spellings of one host name alike.
\<close>

subsection \<open>Loading\<close>

definition sane_timing :: "config \<Rightarrow> bool" where
  "sane_timing c \<longleftrightarrow>
     sv_Addr (cf_Server c) \<noteq> [] \<and> sv_ReadTimeout (cf_Server c) \<noteq> 0 \<and> sv_WriteTimeout (cf_Server c) \<noteq> 0 \<and>
     hc_Interval (cf_HealthCheck c) \<noteq> 0 \<and> hc_Timeout (cf_HealthCheck c) \<noteq> 0 \<and>
     db_TokenRefresh (cf_Database c) \<noteq> 0 \<and> db_MaxConns (cf_Database c) \<noteq> 0 \<and>
     aj_TTL (ad_JWT (cf_Admin c)) \<noteq> 0 \<and> aj_RotateEvery (ad_JWT (cf_Admin c)) \<noteq> 0 \<and>
     aj_CleanupRetention (ad_JWT (cf_Admin c)) \<noteq> 0"

definition sane_limits :: "config \<Rightarrow> bool" where
  "sane_limits c \<longleftrightarrow>
     0 < hc_UnhealthyThreshold (cf_HealthCheck c) \<and> 0 < hc_HealthyThreshold (cf_HealthCheck c) \<and>
     0 < ws_MaxConnectionsPerToken (cf_WebSocket c) \<and> 0 < ws_MaxSubscriptionsPerConn (cf_WebSocket c) \<and>
     0 < ws_NotificationBillUnits (cf_WebSocket c) \<and>
     (\<forall>p \<in> ran (cf_Plans c). 0 < pl_TokenIPRateLimitBurst p \<and> 0 < pl_TokenRateLimitBurst p) \<and>
     (\<forall>ch \<in> ran (cf_Chains c). \<forall>n \<in> set (ch_Nodes ch). 0 < nc_Weight n)"

definition sane_domains :: "config \<Rightarrow> bool" where
  "sane_domains c \<longleftrightarrow>
     distinct (sv_Domains (cf_Server c)) \<and>
     (\<forall>d \<in> set (sv_Domains (cf_Server c)). d \<noteq> [] \<and> CHR '':'' \<notin> set d)"

definition serviceable :: "config \<Rightarrow> bool" where
  "serviceable c \<longleftrightarrow>
     cf_Chains c \<noteq> Map.empty \<and> (\<forall>ch \<in> ran (cf_Chains c). ch_Nodes ch \<noteq> []) \<and>
     (db_Enabled (cf_Database c) \<or> cf_Plans c \<noteq> Map.empty \<and> cf_Tokens c \<noteq> []) \<and>
     (db_Enabled (cf_Database c) \<longrightarrow> db_DSN (cf_Database c) \<noteq> []) \<and>
     (ad_Enabled (cf_Admin c) \<longrightarrow> trim_space (aj_Secret (ad_JWT (cf_Admin c))) \<noteq> []) \<and>
     (\<forall>t \<in> set (cf_Tokens c). tc_Key t \<noteq> [] \<and> CHR ''/'' \<notin> set (tc_Key t) \<and>
        (cf_Plans c = Map.empty \<or> cf_Plans c (tc_Plan t) \<noteq> None))"

lemmas default_defs =
  applyDefaults_def default_server_def default_health_check_def default_billing_def default_database_def
  default_admin_jwt_def default_websocket_def

lemma ran_map_option: "ran (\<lambda>k. map_option f (m k)) = f ` ran m"
  by (auto simp: ran_def)

lemma applyDefaults_maps [simp]:
  "cf_Plans (applyDefaults ul c) = (\<lambda>k. map_option default_plan (cf_Plans c k))"
  "cf_Chains (applyDefaults ul c) = (\<lambda>k. map_option default_chain (cf_Chains c k))"
  "cf_Tokens (applyDefaults ul c) = cf_Tokens c"
  "db_Enabled (cf_Database (applyDefaults ul c)) = db_Enabled (cf_Database c)"
  "db_DSN (cf_Database (applyDefaults ul c)) = db_DSN (cf_Database c)"
  "ad_Enabled (cf_Admin (applyDefaults ul c)) = ad_Enabled (cf_Admin c)"
  "aj_Secret (ad_JWT (cf_Admin (applyDefaults ul c))) = aj_Secret (ad_JWT (cf_Admin c))"
  by (simp_all add: default_defs)

lemma applyDefaults_domains:
  "sv_Domains (cf_Server (applyDefaults ul c)) = normalize_domains ul (sv_Domains (cf_Server c)) {} []"
  by (simp add: default_defs)

lemma domains_normalized:
  "distinct (normalize_domains ul ds {} [])"
  "set (normalize_domains ul ds {} []) = normalizeHost ul ` set ds - {[]}"
  using normalize_domains_keeps [of "{}" "[]" ul ds] by auto

lemma map_option_empty: "(\<lambda>k. map_option f (m k)) = Map.empty \<longleftrightarrow> m = Map.empty"
  by (auto simp: fun_eq_iff)

text \<open>
  Defaults complete every configuration. Whatever the file contains, after \<open>applyDefaults\<close> no
  address, time or limit that the gateway divides by, waits for or compares with is missing: times
  are not 0, thresholds, bursts, weights and WebSocket limits are positive, and the domain list is a
  set of non-empty names without ports.
\<close>

lemma defaults_complete:
  "sane_timing (applyDefaults ul c) \<and> sane_limits (applyDefaults ul c) \<and> sane_domains (applyDefaults ul c)"
proof (intro conjI)
  show "sane_timing (applyDefaults ul c)"
    by (simp add: sane_timing_def default_defs second_def minute_def hour_def)
  show "sane_limits (applyDefaults ul c)"
    by (auto simp: sane_limits_def ran_map_option)
      (auto simp: default_defs default_plan_def defaultBurst_def default_chain_def default_node_def)
  show "sane_domains (applyDefaults ul c)"
    unfolding sane_domains_def applyDefaults_domains domains_normalized
    by (auto simp: domains_normalized normalizeHost_no_colon)
qed

lemma Load_serviceable:
  assumes "Load ul read_file yaml_unmarshal ids path = Inr cfg" "dom (cf_Chains cfg) \<subseteq> set ids"
  shows "serviceable cfg"
proof -
  obtain c where v: "validate ids c = Inr ()" and cfg: "cfg = applyDefaults ul c"
    using assms(1) by (auto simp: Load_def split: sum.splits)
  have ids: "dom (cf_Chains c) \<subseteq> set ids" using assms(2) by (auto simp: cfg dom_def)
  have ch: "validate_chains (cf_Chains c) ids = Inr ()" and ne: "cf_Chains c \<noteq> Map.empty"
    using v by (auto simp: validate_def split: sum.splits if_splits)
  have "ch_Nodes ch \<noteq> []" if "cf_Chains c k = Some ch" for k ch
    using ch that ids unfolding validate_chains_Inr by blast
  then have nodes: "\<forall>ch \<in> ran (cf_Chains c). ch_Nodes ch \<noteq> []" by (auto simp: ran_def)
  have rest: "db_Enabled (cf_Database c) \<or> cf_Plans c \<noteq> Map.empty \<and> cf_Tokens c \<noteq> []"
    "db_Enabled (cf_Database c) \<Longrightarrow> db_DSN (cf_Database c) \<noteq> []"
    "ad_Enabled (cf_Admin c) \<Longrightarrow> trim_space (aj_Secret (ad_JWT (cf_Admin c))) \<noteq> []"
    "validate_tokens (cf_Plans c) (cf_Tokens c) = Inr ()"
    using v ne ch by (auto simp: validate_def split: if_splits)
  from rest(4) have "\<forall>t \<in> set (cf_Tokens c). tc_Key t \<noteq> [] \<and> CHR ''/'' \<notin> set (tc_Key t) \<and>
      (cf_Plans c = Map.empty \<or> cf_Plans c (tc_Plan t) \<noteq> None)"
    by (simp add: validate_tokens_Inr)
  with ne nodes rest(1-3) show ?thesis
    by (simp add: serviceable_def cfg map_option_empty ran_map_option default_chain_def)
qed

text \<open>
  A configuration that loads is serviceable. If \<open>Load\<close> succeeds, there is a network, every network
  has nodes, tokens and plans are there unless the database provides them, the database has a DSN and
  the admin API a secret that is not blank where they are enabled, and every token has a key without
  a slash and a plan that exists, in whatever order the maps are visited.
\<close>

lemma load_serviceable:
  assumes "Load ul read_file yaml_unmarshal ids path = Inr cfg" "dom (cf_Chains cfg) \<subseteq> set ids"
  shows "serviceable cfg"
  using assms by (rule Load_serviceable)

text \<open>A configuration file with one network, one plan and one token.\<close>

definition sample_file :: config where
  "sample_file =
     \<lparr>cf_Server = \<lparr>sv_Addr = [], sv_ReadTimeout = 0, sv_WriteTimeout = 0, sv_Domains = [''RPC.Example.com:443'', ''rpc.example.com'']\<rparr>,
      cf_Redis = \<lparr>rd_Enabled = False, rd_Addr = [], rd_Password = [], rd_DB = 0\<rparr>,
      cf_Database = \<lparr>db_Enabled = False, db_DSN = [], db_MaxConns = 0, db_MinConns = 0, db_TokenRefresh = 0\<rparr>,
      cf_Plans = [''free'' \<mapsto> \<lparr>pl_TokenIPRateLimitPerSecond = 3, pl_TokenIPRateLimitBurst = 0,
         pl_TokenRateLimitPerSecond = 5, pl_TokenRateLimitBurst = 0, pl_DailyQuota = 10,
         pl_DeniedMethods = [''debug_traceCall'']\<rparr>],
      cf_Tokens = [\<lparr>tc_Key = ''demo'', tc_Plan = ''free'', tc_Name = ''demo'', tc_Enabled = True, tc_BillingFree = True\<rparr>],
      cf_Chains = [''eth'' \<mapsto> \<lparr>ch_Name = ''Ethereum'', ch_Nodes =
         [\<lparr>nc_Name = [], nc_URL = ''https://n1'', nc_WSURL = [], nc_Weight = 0\<rparr>]\<rparr>],
      cf_HealthCheck = \<lparr>hc_Interval = 0, hc_Timeout = 0, hc_UnhealthyThreshold = 0, hc_HealthyThreshold = 0\<rparr>,
      cf_Billing = \<lparr>bl_Publisher = [], bl_StreamKey = []\<rparr>,
      cf_Admin = \<lparr>ad_Enabled = False, ad_JWT = \<lparr>aj_Secret = [], aj_Issuer = [], aj_Subject = [], aj_TTL = 0,
         aj_RotateEvery = 0, aj_RotateOnStart = False, aj_RevokePrevious = False, aj_CleanupRetention = 0,
         aj_LogToken = False\<rparr>\<rparr>,
      cf_WebSocket = \<lparr>ws_Enabled = True, ws_MaxConnectionsPerToken = 0, ws_MaxSubscriptionsPerConn = 0,
         ws_NotificationBillUnits = 0\<rparr>\<rparr>"

lemma sample_file_valid: "validate [''eth''] sample_file = Inr ()"
  by (simp add: validate_def sample_file_def fun_eq_iff)

lemma load_serviceable_example:
  "Load id (\<lambda>p. Inr ''text'') (\<lambda>d. Inr sample_file) [''eth''] ''config.yaml'' = Inr (applyDefaults id sample_file) \<and>
   serviceable (applyDefaults id sample_file)"
proof
  show l: "Load id (\<lambda>p. Inr ''text'') (\<lambda>d. Inr sample_file) [''eth''] ''config.yaml'' = Inr (applyDefaults id sample_file)"
    by (simp add: Load_def sample_file_valid)
  have "dom (cf_Chains (applyDefaults id sample_file)) \<subseteq> set [''eth'']"
    by (auto simp: sample_file_def dom_def split: if_splits)
  from load_serviceable [OF l this] show "serviceable (applyDefaults id sample_file)" .
qed

subsection \<open>The host check\<close>

definition plain_host :: "string \<Rightarrow> bool" where
  "plain_host h \<longleftrightarrow> h \<noteq> [] \<and> list_all host_char h"

lemma normalizeHost_plain_host:
  assumes "plain_host h"
  shows "normalizeHost ul h = map lower_char h"
  using assms normalizeHost_plain unfolding plain_host_def by blast

lemma lower_char_idem [simp]: "lower_char (lower_char c) = lower_char c"
proof -
  have "(of_char (lower_char c) :: nat) < 65 \<or> 90 < (of_char (lower_char c) :: nat)"
    by (auto simp: lower_char_of)
  then show ?thesis by (auto simp: lower_char_def [of "lower_char c"] Let_def)
qed

text \<open>
  The host check compares names, not spellings. For a configuration whose domains are plain host
  names, with or without a port, a request is let through exactly if no domain is configured or its
  \<open>Host\<close> header, with or without a port, names one of them up to the case of letters.
\<close>

lemma host_check_names:
  assumes "list_all (\<lambda>(d, p). plain_host d \<and> (p = [] \<or> plain_host p)) domains"
    and "plain_host h" "port = [] \<or> plain_host port"
    and "sv_Domains (cf_Server c) = map (\<lambda>(d, p). if p = [] then d else d @ CHR '':'' # p) domains"
  shows "HostAllowed ul (sv_Domains (cf_Server (applyDefaults ul c))) (if port = [] then h else h @ CHR '':'' # port)
    \<longleftrightarrow> domains = [] \<or> map lower_char h \<in> (\<lambda>(d, p). map lower_char d) ` set domains"
proof -
  have norm: "normalizeHost ul (if p = [] then d else d @ CHR '':'' # p) = map lower_char d"
    if "plain_host d" "p = [] \<or> plain_host p" for d p
    using that normalizeHost_plain_host [of d ul] normalizeHost_port [of d p ul] by (auto simp: plain_host_def)
  have "normalizeHost ul ` set (sv_Domains (cf_Server c)) = (\<lambda>(d, p). map lower_char d) ` set domains"
    unfolding assms(4) set_map image_image
  proof (rule image_cong [OF refl])
    fix x assume "x \<in> set domains"
    moreover obtain d p where x: "x = (d, p)" by (cases x)
    ultimately have "plain_host d" "p = [] \<or> plain_host p" using assms(1) by (auto simp: list_all_iff)
    from norm [OF this] show "normalizeHost ul (case x of (d, p) \<Rightarrow> if p = [] then d else d @ CHR '':'' # p) =
      (case x of (d, p) \<Rightarrow> map lower_char d)" by (simp add: x)
  qed
  moreover have "[] \<notin> (\<lambda>(d, p). map lower_char d) ` set domains"
    using assms(1) by (auto simp: list_all_iff plain_host_def)
  ultimately have ds: "set (sv_Domains (cf_Server (applyDefaults ul c))) = (\<lambda>(d, p). map lower_char d) ` set domains"
    unfolding applyDefaults_domains domains_normalized by blast
  then have "sv_Domains (cf_Server (applyDefaults ul c)) = [] \<longleftrightarrow> domains = []"
    by (metis image_is_empty set_empty)
  with ds show ?thesis unfolding HostAllowed_iff norm [OF assms(2,3)] by simp
qed

lemma host_check_names_example:
  "HostAllowed id (sv_Domains (cf_Server (applyDefaults id sample_file))) ''rpc.EXAMPLE.com:8080'' \<and>
   \<not> HostAllowed id (sv_Domains (cf_Server (applyDefaults id sample_file))) ''evil.com''"
proof -
  let ?ds = "[(''RPC.Example.com'', ''443''), (''rpc.example.com'', [])]"
  have ds: "list_all (\<lambda>(d, p). plain_host d \<and> (p = [] \<or> plain_host p)) ?ds"
    "sv_Domains (cf_Server sample_file) = map (\<lambda>(d, p). if p = [] then d else d @ CHR '':'' # p) ?ds"
    by (simp_all add: plain_host_def host_char_def sample_file_def)
  have h: "plain_host ''rpc.EXAMPLE.com''" "plain_host ''8080''" "plain_host ''evil.com''"
    by (simp_all add: plain_host_def host_char_def)
  show ?thesis
    using host_check_names [OF ds(1) h(1) _ ds(2), of "''8080''" id] host_check_names [OF ds(1) h(3) _ ds(2), of "[]" id] h(2)
    by (simp add: lower_char_def char_of_def bit_0)
qed

text \<open>
  IPv6 literals are not told apart. The cut at the first colon leaves only the first group of a
  literal, so a configuration bound to one IPv6 address lets requests for every other address with
  the same first group through.
\<close>

lemma ipv6_hosts_collapse:
  "HostAllowed ul (normalize_domains ul [''[2001:db8::1]''] {} []) ''[2001:bad::2]:8080''"
proof -
  have "normalizeHost ul ''[2001:db8::1]'' = ''[2001''" "normalizeHost ul ''[2001:bad::2]:8080'' = ''[2001''"
    by (simp_all add: normalizeHost_def to_lower_def is_ascii_def lower_char_def trim_space_id plain_char_def
        no_slash_trims before_def Let_def)
  then show ?thesis by (simp add: HostAllowed_def Let_def)
qed

end
