(* ===== verification/Auth.thy ===== *)
theory Auth
  imports Config_Spec Model Stats Json
begin

section \<open>The token store: \<open>internal/auth\<close> and the token query of \<open>internal/db\<close>\<close>

text \<open>
  The in-memory token cache, built from the YAML configuration or from the database, and its
  refresh. PostgreSQL runs the query of the repository: its two tables are lists of rows in the order
  in which the database returns them, and a failing query is an error message. A lookup returns a
  copy, so that no caller can change the cache: the model returns the value.
\<close>

subsection \<open>Tokens from YAML\<close>

record token_store =
  sto_tokens :: "string \<rightharpoonup> token"

definition newEmptyStore :: token_store where
  "newEmptyStore = \<lparr>sto_tokens = Map.empty\<rparr>"

definition tokenFromYAML :: "token_config \<Rightarrow> plan \<Rightarrow> token" where
  "tokenFromYAML t plan =
     \<lparr>tok_Key = tc_Key t, tok_Name = tc_Name t, tok_Plan = tc_Plan t, tok_UserID = [],
      tok_PricePerSuccessCents = 0, tok_Enabled = tc_Enabled t, tok_BillingFree = tc_BillingFree t,
      tok_TokenRateLimitPerSecond = pl_TokenRateLimitPerSecond plan,
      tok_TokenRateLimitBurst = pl_TokenRateLimitBurst plan,
      tok_TokenIPRateLimitPerSecond = pl_TokenIPRateLimitPerSecond plan,
      tok_TokenIPRateLimitBurst = pl_TokenIPRateLimitBurst plan,
      tok_DailyQuota = pl_DailyQuota plan,
      tok_DeniedMethods = set (pl_DeniedMethods plan)\<rparr>"

fun yaml_tokens ::
  "(string \<rightharpoonup> plan) \<Rightarrow> token_config list \<Rightarrow> (string \<rightharpoonup> token) \<Rightarrow> string + (string \<rightharpoonup> token)" where
  "yaml_tokens plans [] tokens = Inr tokens"
| "yaml_tokens plans (t # ts) tokens =
     (case plans (tc_Plan t) of
        None \<Rightarrow> Inl (''unknown plan '' @ show_quoted (tc_Plan t) @ '' for token '' @ show_quoted (tc_Key t))
      | Some plan \<Rightarrow> yaml_tokens plans ts (tokens(tc_Key t \<mapsto> tokenFromYAML t plan)))"

definition NewStoreFromConfig :: "config \<Rightarrow> string + token_store" where
  "NewStoreFromConfig cfg =
     (case yaml_tokens (cf_Plans cfg) (cf_Tokens cfg) Map.empty of
        Inl e \<Rightarrow> Inl e
      | Inr tokens \<Rightarrow> Inr \<lparr>sto_tokens = tokens\<rparr>)"

subsection \<open>Tokens from the database\<close>

record api_token =
  at_user_id :: string
  at_token_key :: string
  at_name :: string
  at_plan_code :: string
  at_enabled :: bool
  at_billing_free :: bool

record plan_row =
  pr_code :: string
  pr_token_ip_rate_limit_per_second :: int
  pr_token_ip_rate_limit_burst :: int
  pr_token_rate_limit_per_second :: int
  pr_token_rate_limit_burst :: int
  pr_daily_quota :: int
  pr_denied_methods :: string
  pr_price_per_success_cents :: int

record token_row =
  tr_TokenKey :: string
  tr_Name :: string
  tr_PlanCode :: string
  tr_Enabled :: bool
  tr_BillingFree :: bool
  tr_UserID :: string
  tr_TokenIPRateLimitPerSecond :: int
  tr_TokenIPRateLimitBurst :: int
  tr_TokenRateLimitPerSecond :: int
  tr_TokenRateLimitBurst :: int
  tr_DailyQuota :: int
  tr_DeniedMethodsJSON :: string
  tr_PricePerSuccessCents :: int

text \<open>One row of the query, and the query: a join of the tables, restricted to enabled tokens.\<close>

definition token_row_of :: "api_token \<Rightarrow> plan_row \<Rightarrow> token_row" where
  "token_row_of t p =
     \<lparr>tr_TokenKey = at_token_key t, tr_Name = at_name t, tr_PlanCode = at_plan_code t,
      tr_Enabled = at_enabled t, tr_BillingFree = at_billing_free t, tr_UserID = at_user_id t,
      tr_TokenIPRateLimitPerSecond = pr_token_ip_rate_limit_per_second p,
      tr_TokenIPRateLimitBurst = pr_token_ip_rate_limit_burst p,
      tr_TokenRateLimitPerSecond = pr_token_rate_limit_per_second p,
      tr_TokenRateLimitBurst = pr_token_rate_limit_burst p,
      tr_DailyQuota = pr_daily_quota p, tr_DeniedMethodsJSON = pr_denied_methods p,
      tr_PricePerSuccessCents = pr_price_per_success_cents p\<rparr>"

definition enabled_tokens_query :: "api_token list \<Rightarrow> plan_row list \<Rightarrow> token_row list" where
  "enabled_tokens_query tokens plans =
     concat (map (\<lambda>t. if at_enabled t
       then map (token_row_of t) (filter (\<lambda>p. pr_code p = at_plan_code t) plans) else []) tokens)"

definition ToModel :: "(string \<Rightarrow> string) \<Rightarrow> token_row \<Rightarrow> string + token" where
  "ToModel jerr r =
     (case (if length (tr_DeniedMethodsJSON r) > 0
            then unmarshal (dec_slice (dec_string [])) (tr_DeniedMethodsJSON r) else Some []) of
        None \<Rightarrow> Inl (''parse denied_methods for '' @ tr_TokenKey r @ '': '' @ jerr (tr_DeniedMethodsJSON r))
      | Some deniedList \<Rightarrow>
          Inr \<lparr>tok_Key = tr_TokenKey r, tok_Name = tr_Name r, tok_Plan = tr_PlanCode r,
            tok_UserID = tr_UserID r, tok_PricePerSuccessCents = tr_PricePerSuccessCents r,
            tok_Enabled = tr_Enabled r, tok_BillingFree = tr_BillingFree r,
            tok_TokenRateLimitPerSecond = tr_TokenRateLimitPerSecond r,
            tok_TokenRateLimitBurst = tr_TokenRateLimitBurst r,
            tok_TokenIPRateLimitPerSecond = tr_TokenIPRateLimitPerSecond r,
            tok_TokenIPRateLimitBurst = tr_TokenIPRateLimitBurst r,
            tok_DailyQuota = tr_DailyQuota r,
            tok_DeniedMethods = set deniedList\<rparr>)"

fun rows_to_models :: "(string \<Rightarrow> string) \<Rightarrow> token_row list \<Rightarrow> string + token list" where
  "rows_to_models jerr [] = Inr []"
| "rows_to_models jerr (r # rs) =
     (case ToModel jerr r of
        Inl e \<Rightarrow> Inl e
      | Inr tok \<Rightarrow>
          (case rows_to_models jerr rs of Inl e \<Rightarrow> Inl e | Inr out \<Rightarrow> Inr (tok # out)))"

text \<open>The database: the rows of its tables, or the error with which it refuses the query.\<close>

type_synonym token_db = "string + api_token list \<times> plan_row list"

definition ListEnabledTokens :: "(string \<Rightarrow> string) \<Rightarrow> token_db \<Rightarrow> string + token list" where
  "ListEnabledTokens jerr db =
     (case db of
        Inl e \<Rightarrow> Inl (''list tokens: '' @ e)
      | Inr (tokens, plans) \<Rightarrow> rows_to_models jerr (enabled_tokens_query tokens plans))"

text \<open>A refresh: the error if there is one, and the store, which an error leaves as it was.\<close>

definition reload :: "(string \<Rightarrow> string) \<Rightarrow> token_db \<Rightarrow> token_store \<Rightarrow> string option \<times> token_store" where
  "reload jerr db s =
     (case ListEnabledTokens jerr db of
        Inl e \<Rightarrow> (Some e, s)
      | Inr list \<Rightarrow> (None, s\<lparr>sto_tokens := fold (\<lambda>t next. next(tok_Key t \<mapsto> t)) list Map.empty\<rparr>))"

definition NewStoreFromDB :: "(string \<Rightarrow> string) \<Rightarrow> token_db \<Rightarrow> string + token_store" where
  "NewStoreFromDB jerr db =
     (case reload jerr db newEmptyStore of
        (Some e, s) \<Rightarrow> Inl e
      | (None, s) \<Rightarrow> Inr s)"

text \<open>One tick of \<open>loopRefresh\<close>; the error is only logged.\<close>

definition refresh_tick :: "(string \<Rightarrow> string) \<Rightarrow> token_db \<Rightarrow> token_store \<Rightarrow> token_store" where
  "refresh_tick jerr db s = snd (reload jerr db s)"

subsection \<open>Reading the store\<close>

definition Lookup :: "token_store \<Rightarrow> string \<Rightarrow> token option" where
  "Lookup s key =
     (case sto_tokens s key of
        None \<Rightarrow> None
      | Some t \<Rightarrow> if \<not> tok_Enabled t then None else Some t)"

definition Len :: "token_store \<Rightarrow> nat" where
  "Len s = card (dom (sto_tokens s))"

definition meta_of :: "token \<Rightarrow> token_meta" where
  "meta_of t =
     \<lparr>tm_Key = tok_Key t, tm_Name = tok_Name t, tm_Plan = tok_Plan t,
      tm_BillingFree = tok_BillingFree t, tm_Enabled = tok_Enabled t\<rparr>"

text \<open>\<open>ks\<close> is the order in which the map is visited.\<close>

definition ListMeta :: "string list \<Rightarrow> token_store \<Rightarrow> token_meta list" where
  "ListMeta ks s = map meta_of (List.map_filter (sto_tokens s) ks)"

text \<open>\<open>initTokenStore\<close> of the gateway's \<open>main\<close>; \<open>pg\<close> is the database it has connected to, if any.\<close>

definition initTokenStore :: "(string \<Rightarrow> string) \<Rightarrow> config \<Rightarrow> token_db option \<Rightarrow> string + token_store" where
  "initTokenStore jerr cfg pg =
     (if db_Enabled (cf_Database cfg) \<and> pg \<noteq> None then NewStoreFromDB jerr (the pg)
      else NewStoreFromConfig cfg)"

end
