(* ===== verification/Auth_Spec.thy ===== *)
theory Auth_Spec
  imports Auth Ratelimit_Spec
begin

section \<open>What the token store promises\<close>

text \<open>
  The contract that path authentication relies on is the locale \<open>token_source\<close>; the store satisfies it
  whichever way it was built. The properties say exactly which tokens a lookup finds after loading
  the YAML configuration and after a refresh from the database.
\<close>

subsection \<open>The contract\<close>

locale token_source =
  fixes inv :: "'s \<Rightarrow> bool" and find_token :: "'s \<Rightarrow> string \<Rightarrow> token option"
  assumes found_key: "inv s \<Longrightarrow> find_token s k = Some t \<Longrightarrow> tok_Key t = k"
    and found_enabled: "inv s \<Longrightarrow> find_token s k = Some t \<Longrightarrow> tok_Enabled t"
begin

lemma found_inject: "inv s \<Longrightarrow> find_token s k = Some t \<Longrightarrow> find_token s k' = Some t \<Longrightarrow> k = k'"
  using found_key by metis

lemma disabled_not_found: "inv s \<Longrightarrow> \<not> tok_Enabled t \<Longrightarrow> find_token s k \<noteq> Some t"
  using found_enabled by metis

end

text \<open>Every token is stored under its own key.\<close>

definition keyed :: "(string \<rightharpoonup> token) \<Rightarrow> bool" where
  "keyed m \<longleftrightarrow> (\<forall>k t. m k = Some t \<longrightarrow> tok_Key t = k)"

definition store_inv :: "token_store \<Rightarrow> bool" where
  "store_inv s \<longleftrightarrow> keyed (sto_tokens s)"

lemma keyed_empty [simp]: "keyed Map.empty"
  by (simp add: keyed_def)

lemma keyed_update [intro]: "keyed m \<Longrightarrow> tok_Key t = k \<Longrightarrow> keyed (m(k \<mapsto> t))"
  by (simp add: keyed_def)

lemma Lookup_iff: "Lookup s k = Some t \<longleftrightarrow> sto_tokens s k = Some t \<and> tok_Enabled t"
  by (auto simp: Lookup_def split: option.splits if_splits)

interpretation cache: token_source store_inv Lookup
  by unfold_locales (auto simp: store_inv_def keyed_def Lookup_iff)

subsection \<open>Building the store keeps the contract\<close>

lemma yaml_tokens_keys: "yaml_tokens plans ts m = Inr m' \<Longrightarrow> keyed m \<Longrightarrow> keyed m'"
proof (induction ts arbitrary: m)
  case Nil
  then show ?case by simp
next
  case (Cons t ts)
  from Cons.prems(1) obtain p where "yaml_tokens plans ts (m(tc_Key t \<mapsto> tokenFromYAML t p)) = Inr m'"
    by (auto split: option.splits)
  moreover have "keyed (m(tc_Key t \<mapsto> tokenFromYAML t p))"
    using Cons.prems(2) by (rule keyed_update) (simp add: tokenFromYAML_def)
  ultimately show ?case by (rule Cons.IH)
qed

lemma fold_keys: "keyed m \<Longrightarrow> keyed (fold (\<lambda>t next. next(tok_Key t \<mapsto> t)) ts m)"
proof (induction ts arbitrary: m)
  case (Cons t ts)
  from Cons.IH [OF keyed_update [OF Cons.prems refl]] show ?case by simp
qed simp

lemma reload_inv: "store_inv s \<Longrightarrow> store_inv (snd (reload jerr db s))"
  using fold_keys [OF keyed_empty] by (simp add: reload_def store_inv_def split: sum.split)

lemma initTokenStore_inv:
  assumes "initTokenStore jerr cfg pg = Inr s"
  shows "store_inv s"
proof (cases "db_Enabled (cf_Database cfg) \<and> pg \<noteq> None")
  case True
  then obtain db where "reload jerr db newEmptyStore = (None, s)"
    using assms by (auto simp: initTokenStore_def NewStoreFromDB_def split: prod.splits option.splits)
  moreover have "store_inv newEmptyStore" by (simp add: store_inv_def newEmptyStore_def)
  ultimately show ?thesis using reload_inv [of newEmptyStore jerr db] by simp
next
  case False
  then obtain m where "yaml_tokens (cf_Plans cfg) (cf_Tokens cfg) Map.empty = Inr m" "s = \<lparr>sto_tokens = m\<rparr>"
    using assms by (auto simp: initTokenStore_def NewStoreFromConfig_def split: sum.splits)
  then show ?thesis using yaml_tokens_keys [OF _ keyed_empty] by (simp add: store_inv_def)
qed

subsection \<open>The YAML store\<close>

lemma yaml_tokens_total:
  "(\<forall>t \<in> set ts. plans (tc_Plan t) \<noteq> None) \<Longrightarrow> \<exists>m'. yaml_tokens plans ts m = Inr m'"
  by (induction ts arbitrary: m) auto

text \<open>The last entry for a key counts.\<close>

definition yaml_entry :: "config \<Rightarrow> string \<Rightarrow> token option" where
  "yaml_entry cfg k =
     map_option (\<lambda>t. tokenFromYAML t (the (cf_Plans cfg (tc_Plan t)))) (find (\<lambda>t. tc_Key t = k) (rev (cf_Tokens cfg)))"

lemma find_append: "find P (xs @ ys) = (case find P xs of None \<Rightarrow> find P ys | Some x \<Rightarrow> Some x)"
  by (induction xs) auto

lemma yaml_tokens_entries:
  "yaml_tokens plans ts m = Inr m' \<Longrightarrow>
     m' k = (case find (\<lambda>t. tc_Key t = k) (rev ts) of
        None \<Rightarrow> m k | Some t \<Rightarrow> Some (tokenFromYAML t (the (plans (tc_Plan t)))))"
proof (induction ts arbitrary: m)
  case Nil
  then show ?case by simp
next
  case (Cons t ts)
  from Cons.prems obtain p where p: "plans (tc_Plan t) = Some p"
    and rest: "yaml_tokens plans ts (m(tc_Key t \<mapsto> tokenFromYAML t p)) = Inr m'"
    by (auto split: option.splits)
  from Cons.IH [OF rest] show ?case by (auto simp: find_append p split: option.split)
qed

text \<open>
  Without a database every configuration that loads yields a token store, and a lookup finds
  exactly the enabled tokens of the file: for a key with several entries the last one, with the
  limits, quota and denied methods of its plan, and no token for any other key.
\<close>

lemma yaml_store_exact:
  assumes "Load ul read_file yaml_unmarshal ids path = Inr cfg" "dom (cf_Chains cfg) \<subseteq> set ids"
    and "\<not> db_Enabled (cf_Database cfg)"
  shows "\<exists>s. initTokenStore jerr cfg pg = Inr s \<and>
    (\<forall>k t. Lookup s k = Some t \<longleftrightarrow> yaml_entry cfg k = Some t \<and> tok_Enabled t)"
proof -
  have "serviceable cfg" using assms(1,2) by (rule Load_serviceable)
  then have "\<forall>t \<in> set (cf_Tokens cfg). cf_Plans cfg (tc_Plan t) \<noteq> None"
    using assms(3) by (auto simp: serviceable_def)
  from yaml_tokens_total [OF this, of Map.empty] obtain m
    where m: "yaml_tokens (cf_Plans cfg) (cf_Tokens cfg) Map.empty = Inr m" by blast
  have s: "initTokenStore jerr cfg pg = Inr \<lparr>sto_tokens = m\<rparr>"
    using assms(3) by (simp add: initTokenStore_def NewStoreFromConfig_def m)
  have "m k = yaml_entry cfg k" for k
    using yaml_tokens_entries [OF m, of k] by (simp add: yaml_entry_def split: option.split)
  then show ?thesis using s by (auto simp: Lookup_iff)
qed

lemma yaml_store_exact_example:
  "\<exists>s. initTokenStore id (applyDefaults id sample_file) None = Inr s \<and>
     map_option tok_TokenRateLimitBurst (Lookup s ''demo'') = Some 5 \<and> Lookup s ''other'' = None"
proof -
  have l: "Load id (\<lambda>p. Inr ''text'') (\<lambda>d. Inr sample_file) [''eth''] ''config.yaml'' = Inr (applyDefaults id sample_file)"
    by (simp add: Load_def sample_file_valid)
  have d: "dom (cf_Chains (applyDefaults id sample_file)) \<subseteq> set [''eth'']"
    and db: "\<not> db_Enabled (cf_Database (applyDefaults id sample_file))"
    by (auto simp: sample_file_def dom_def split: if_splits)
  from yaml_store_exact [OF l d db, of id None] obtain s
    where s: "initTokenStore id (applyDefaults id sample_file) None = Inr s"
      and look: "\<And>k t. Lookup s k = Some t \<longleftrightarrow> yaml_entry (applyDefaults id sample_file) k = Some t \<and> tok_Enabled t"
    by blast
  have other: "Lookup s ''other'' = None"
  proof (cases "Lookup s ''other''")
    case (Some t)
    then show ?thesis using look [of "''other''" t] by (simp add: yaml_entry_def sample_file_def)
  qed
  obtain t where t: "yaml_entry (applyDefaults id sample_file) ''demo'' = Some t"
    and "tok_Enabled t" "tok_TokenRateLimitBurst t = 5"
    by (simp add: yaml_entry_def sample_file_def tokenFromYAML_def default_plan_def defaultBurst_def)
  then show ?thesis using s other look [of "''demo''" t] by auto
qed

subsection \<open>The refreshed store\<close>

lemma rows_to_models_set:
  "rows_to_models jerr rs = Inr out \<Longrightarrow> t \<in> set out \<longleftrightarrow> (\<exists>r \<in> set rs. ToModel jerr r = Inr t)"
proof (induction rs arbitrary: out)
  case Nil
  then show ?case by simp
next
  case (Cons r rs)
  from Cons.prems obtain u us where u: "ToModel jerr r = Inr u"
    and us: "rows_to_models jerr rs = Inr us" and out: "out = u # us"
    by (auto split: sum.splits)
  show ?case using Cons.IH [OF us] by (auto simp: out u)
qed

lemma enabled_tokens_query_set:
  "r \<in> set (enabled_tokens_query tokens plans) \<longleftrightarrow>
     (\<exists>a \<in> set tokens. \<exists>p \<in> set plans. at_enabled a \<and> pr_code p = at_plan_code a \<and> r = token_row_of a p)"
  by (auto simp: enabled_tokens_query_def split: if_splits)

lemma find_SomeD: "find P xs = Some x \<Longrightarrow> x \<in> set xs \<and> P x"
  by (induction xs) (auto split: if_splits)

lemma fold_update_find:
  "fold (\<lambda>t next. next(tok_Key t \<mapsto> t)) ts m k =
     (case find (\<lambda>t. tok_Key t = k) (rev ts) of None \<Rightarrow> m k | Some t \<Rightarrow> Some t)"
  by (induction ts arbitrary: m) (auto simp: find_append split: option.split)

lemma ToModel_keeps:
  "ToModel jerr r = Inr t \<Longrightarrow> tok_Key t = tr_TokenKey r \<and> tok_Enabled t = tr_Enabled r"
  by (auto simp: ToModel_def split: option.splits)

lemma ToModel_row:
  "ToModel jerr (token_row_of a p) = Inr t \<Longrightarrow> tok_Key t = at_token_key a \<and> tok_Enabled t = at_enabled a"
  using ToModel_keeps [of jerr "token_row_of a p" t] by (simp add: token_row_of_def)

lemma distinct_map_eq: "distinct (map f xs) \<Longrightarrow> x \<in> set xs \<Longrightarrow> y \<in> set xs \<Longrightarrow> f x = f y \<Longrightarrow> x = y"
  by (auto simp: distinct_map dest: inj_onD)

text \<open>What the tables say about a key: the token that its row and the row of its plan describe.\<close>

definition granted :: "(string \<Rightarrow> string) \<Rightarrow> api_token list \<Rightarrow> plan_row list \<Rightarrow> string \<Rightarrow> token \<Rightarrow> bool" where
  "granted jerr tokens plans k t \<longleftrightarrow>
     (\<exists>a \<in> set tokens. \<exists>p \<in> set plans. at_token_key a = k \<and> at_enabled a \<and> pr_code p = at_plan_code a \<and>
        ToModel jerr (token_row_of a p) = Inr t)"

lemma refreshed_lookup:
  assumes "distinct (map at_token_key tokens)" "distinct (map pr_code plans)"
    and "ListEnabledTokens jerr (Inr (tokens, plans)) = Inr list"
  shows "Lookup (refresh_tick jerr (Inr (tokens, plans)) s) k = Some t \<longleftrightarrow> granted jerr tokens plans k t"
proof -
  let ?rows = "enabled_tokens_query tokens plans"
  have "rows_to_models jerr ?rows = Inr list" using assms(3) by (simp add: ListEnabledTokens_def)
  note mem = rows_to_models_set [OF this]
  have granted: "t \<in> set list \<and> tok_Key t = k \<longleftrightarrow> granted jerr tokens plans k t" for t
  proof -
    have "t \<in> set list \<longleftrightarrow> (\<exists>a \<in> set tokens. \<exists>p \<in> set plans. at_enabled a \<and> pr_code p = at_plan_code a \<and>
        ToModel jerr (token_row_of a p) = Inr t)"
      unfolding mem Bex_def enabled_tokens_query_set by blast
    moreover have "tok_Key t = at_token_key a" if "ToModel jerr (token_row_of a p) = Inr t" for a p
      using ToModel_row [OF that] by simp
    ultimately show ?thesis unfolding granted_def by auto
  qed
  have enabled: "tok_Enabled t" if "granted jerr tokens plans k t" for t
    using that by (auto simp: granted_def dest: ToModel_row)
  have unique: "t = t'" if "granted jerr tokens plans k t" "granted jerr tokens plans k t'" for t t'
  proof -
    from that obtain a p a' p' where
      "a \<in> set tokens" "p \<in> set plans" "at_token_key a = k" "pr_code p = at_plan_code a"
      "ToModel jerr (token_row_of a p) = Inr t"
      "a' \<in> set tokens" "p' \<in> set plans" "at_token_key a' = k" "pr_code p' = at_plan_code a'"
      "ToModel jerr (token_row_of a' p') = Inr t'"
      by (auto simp: granted_def)
    moreover from this have "a = a'" by (intro distinct_map_eq [OF assms(1)]) auto
    moreover from calculation have "p = p'" by (intro distinct_map_eq [OF assms(2)]) auto
    ultimately show ?thesis by simp
  qed
  have "sto_tokens (refresh_tick jerr (Inr (tokens, plans)) s) k = find (\<lambda>t. tok_Key t = k) (rev list)"
    by (simp add: refresh_tick_def reload_def assms(3) fold_update_find split: option.split)
  moreover have "find (\<lambda>t. tok_Key t = k) (rev list) = Some t \<longleftrightarrow> granted jerr tokens plans k t" for t
  proof (cases "find (\<lambda>t. tok_Key t = k) (rev list)")
    case None
    then have "\<forall>x \<in> set list. tok_Key x \<noteq> k" by (simp add: find_None_iff)
    then show ?thesis using None granted [of t] by auto
  next
    case (Some u)
    then have "u \<in> set list \<and> tok_Key u = k" using find_SomeD by fastforce
    then show ?thesis using granted [of u] unique [of u t] by (auto simp: Some)
  qed
  ultimately show ?thesis using enabled by (auto simp: Lookup_iff)
qed

text \<open>
  C30: a refresh mirrors the database. When the query and the decoding of all its rows succeed, then
  after the tick a lookup finds a token exactly if the tables, with the unique keys their schema
  demands, have an enabled row for that key, and finds it with the limits, price and denied methods of
  its plan. A token that was disabled or deleted is refused from then on, and no token of the old
  cache survives.
\<close>

theorem refresh_mirrors_db:
  assumes "distinct (map at_token_key tokens)" "distinct (map pr_code plans)"
    and "ListEnabledTokens jerr (Inr (tokens, plans)) = Inr list"
  shows "Lookup (refresh_tick jerr (Inr (tokens, plans)) s) k = Some t \<longleftrightarrow> granted jerr tokens plans k t"
  using assms by (rule refreshed_lookup)

text \<open>Two tokens of one plan, one of them disabled.\<close>

definition sample_plan_row :: "string \<Rightarrow> plan_row" where
  "sample_plan_row denied =
     \<lparr>pr_code = ''pro'', pr_token_ip_rate_limit_per_second = 30, pr_token_ip_rate_limit_burst = 60,
      pr_token_rate_limit_per_second = 50, pr_token_rate_limit_burst = 100, pr_daily_quota = 1000,
      pr_denied_methods = denied, pr_price_per_success_cents = 1\<rparr>"

definition sample_api_token :: "string \<Rightarrow> bool \<Rightarrow> api_token" where
  "sample_api_token key on =
     \<lparr>at_user_id = ''u1'', at_token_key = key, at_name = key, at_plan_code = ''pro'',
      at_enabled = on, at_billing_free = False\<rparr>"

lemma sample_denied: "unmarshal (dec_slice (dec_string [])) (dq ''[`debug_traceCall`]'') = Some [''debug_traceCall'']"
  by code_simp

lemma sample_denied_length: "0 < length (dq ''[`debug_traceCall`]'')"
  by (simp add: dq_def)

lemmas sample_rows = sample_plan_row_def sample_api_token_def token_row_of_def ToModel_def
  sample_denied sample_denied_length enabled_tokens_query_def

theorem refresh_mirrors_db_witness:
  "let db = Inr ([sample_api_token ''k1'' True, sample_api_token ''k2'' False], [sample_plan_row (dq ''[`debug_traceCall`]'')]);
       s = refresh_tick id db newEmptyStore
   in map_option tok_DeniedMethods (Lookup s ''k1'') = Some {''debug_traceCall''} \<and> Lookup s ''k2'' = None"
proof -
  let ?tokens = "[sample_api_token ''k1'' True, sample_api_token ''k2'' False]"
  let ?plans = "[sample_plan_row (dq ''[`debug_traceCall`]'')]"
  let ?s = "refresh_tick id (Inr (?tokens, ?plans)) newEmptyStore"
  obtain t where t: "ToModel id (token_row_of (sample_api_token ''k1'' True) (sample_plan_row (dq ''[`debug_traceCall`]''))) = Inr t"
    and denied: "tok_DeniedMethods t = {''debug_traceCall''}"
    using sample_denied_length by (simp add: sample_rows)
  have "enabled_tokens_query ?tokens ?plans =
      [token_row_of (sample_api_token ''k1'' True) (sample_plan_row (dq ''[`debug_traceCall`]''))]"
    by (simp add: enabled_tokens_query_def sample_api_token_def sample_plan_row_def)
  then have l: "ListEnabledTokens id (Inr (?tokens, ?plans)) = Inr [t]"
    by (simp add: ListEnabledTokens_def t)
  have d: "distinct (map at_token_key ?tokens)" "distinct (map pr_code ?plans)"
    by (simp_all add: sample_api_token_def)
  note m = refresh_mirrors_db [OF d l, of newEmptyStore]
  have "granted id ?tokens ?plans ''k1'' t"
    using t by (simp add: granted_def) (simp add: sample_api_token_def sample_plan_row_def)
  then have k1: "Lookup ?s ''k1'' = Some t" by (simp add: m)
  have "\<not> granted id ?tokens ?plans ''k2'' t'" for t'
    by (simp add: granted_def sample_api_token_def)
  then have "Lookup ?s ''k2'' = None" using m [of "''k2''"] by (cases "Lookup ?s ''k2''") auto
  then show ?thesis using k1 denied by (simp add: Let_def)
qed

text \<open>
  C31: a refresh is all or nothing. If one enabled token belongs to a plan whose \<open>denied_methods\<close> are not
  a list of strings, every refresh keeps the old cache: tokens that were disabled or deleted in the
  database remain valid until that row is repaired.
\<close>

theorem refresh_all_or_nothing:
  assumes "a \<in> set tokens" "at_enabled a" "p \<in> set plans" "pr_code p = at_plan_code a"
    and "ToModel jerr (token_row_of a p) = Inl e"
  shows "refresh_tick jerr (Inr (tokens, plans)) s = s"
proof -
  have "\<exists>e'. rows_to_models jerr rs = Inl e'" if "token_row_of a p \<in> set rs" for rs
    using that by (induction rs) (auto simp: assms(5) split: sum.split)
  moreover have "token_row_of a p \<in> set (enabled_tokens_query tokens plans)"
    using assms(1-4) unfolding enabled_tokens_query_set by blast
  ultimately obtain e' where "rows_to_models jerr (enabled_tokens_query tokens plans) = Inl e'" by blast
  then show ?thesis by (simp add: refresh_tick_def reload_def ListEnabledTokens_def)
qed

lemma sample_denied_bad: "unmarshal (dec_slice (dec_string [])) ''{}'' = None"
  by code_simp

theorem refresh_all_or_nothing_witness:
  "refresh_tick id (Inr ([sample_api_token ''k1'' True], [sample_plan_row ''{}'']))
     \<lparr>sto_tokens = [''gone'' \<mapsto> sample_token]\<rparr> = \<lparr>sto_tokens = [''gone'' \<mapsto> sample_token]\<rparr>"
proof -
  obtain e where e: "ToModel id (token_row_of (sample_api_token ''k1'' True) (sample_plan_row ''{}'')) = Inl e"
    by (simp add: sample_rows sample_denied_bad)
  show ?thesis
    by (rule refresh_all_or_nothing [OF _ _ _ _ e]) (simp_all add: sample_api_token_def sample_plan_row_def)
qed

end
