(* ===== verification/Billing.thy ===== *)
theory Billing
  imports Model Json
begin

section \<open>Billing: \<open>internal/billing\<close> and the ledger of \<open>internal/db\<close>\<close>

text \<open>
  Usage events go to the log, to a Redis stream, or to two PostgreSQL tables. The tables are maps from
  their primary keys, and the SQL statements of the repository are functions on them, with the
  constraints of the schema (\<open>migrations/001_init.sql\<close>): INTEGER columns hold 32 bits, BIGINT columns
  64, \<open>success_n\<close> is positive, \<open>user_id\<close> is a UUID. \<open>valid_uuid\<close> is PostgreSQL's syntax of UUIDs. Every round
  trip to the database or to Redis may fail for reasons of its own: the outcome of each is an
  argument. A transaction that is not committed leaves the tables as they were.
\<close>

subsection \<open>Writing an event as JSON\<close>

definition json_bool :: "bool \<Rightarrow> string" where
  "json_bool b = (if b then ''true'' else ''false'')"

text \<open>A nil slice, here the empty list, is \<open>null\<close>.\<close>

definition marshal_strings :: "string list \<Rightarrow> string" where
  "marshal_strings xs = (if xs = [] then ''null'' else ''['' @ join '','' (map json_quote xs) @ '']'')"

text \<open>\<open>time.Time\<close> in UTC: RFC 3339 with the fraction of the second cut after its last digit that is not 0.\<close>

definition fraction :: "int \<Rightarrow> string" where
  "fraction ns =
     (if ns = 0 then [] else ''.'' @ rev (dropWhile (\<lambda>c. c = CHR ''0'') (rev (pad 9 ns))))"

definition format_time :: "time \<Rightarrow> string" where
  "format_time t =
     (let s = t div second mod 86400
      in format_day t @ ''T'' @ pad 2 (s div 3600) @ '':'' @ pad 2 (s div 60 mod 60) @ '':'' @ pad 2 (s mod 60)
         @ fraction (t mod second) @ ''Z'')"

definition json_member :: "string \<Rightarrow> string \<Rightarrow> string" where
  "json_member k v = json_quote k @ '':'' @ v"

definition marshal_event :: "billing_event \<Rightarrow> string" where
  "marshal_event ev =
     ''{'' @ join '',''
       ([json_member ''event_id'' (json_quote (ev_EventID ev)),
         json_member ''token_key'' (json_quote (ev_TokenKey ev)),
         json_member ''token_name'' (json_quote (ev_TokenName ev))] @
        (if ev_UserID ev = [] then [] else [json_member ''user_id'' (json_quote (ev_UserID ev))]) @
        [json_member ''plan'' (json_quote (ev_Plan ev)),
         json_member ''chain_id'' (json_quote (ev_ChainID ev)),
         json_member ''methods'' (marshal_strings (ev_Methods ev)),
         json_member ''success_n'' (show_int (ev_SuccessN ev)),
         json_member ''billable'' (json_bool (ev_Billable ev)),
         json_member ''amount_cents'' (show_int (ev_AmountCents ev)),
         json_member ''transport'' (json_quote (ev_Transport ev)),
         json_member ''event_kind'' (json_quote (ev_EventKind ev)),
         json_member ''upstream'' (json_quote (ev_Upstream ev)),
         json_member ''latency_ms'' (show_int (ev_LatencyMs ev)),
         json_member ''client_ip'' (json_quote (ev_ClientIP ev)),
         json_member ''at'' (json_quote (format_time (ev_At ev)))]) @ ''}''"

subsection \<open>The tables\<close>

record billing_row =
  br_token_key :: string
  br_user_id :: "string option"
  br_plan_code :: string
  br_chain_id :: string
  br_methods :: string
  br_success_n :: int
  br_billable :: bool
  br_amount_cents :: int
  br_upstream :: string
  br_latency_ms :: int
  br_client_ip :: string
  br_created_at :: time

record usage_row =
  us_success_count :: int
  us_billable_count :: int

record ledger =
  lg_billing_events :: "string \<rightharpoonup> billing_row"
  lg_usage_daily :: "string \<times> string \<rightharpoonup> usage_row"

definition in32 :: "int \<Rightarrow> bool" where
  "in32 x \<longleftrightarrow> -2147483648 \<le> x \<and> x < 2147483648"

text \<open>
  \<open>INSERT INTO billing_events ... ON CONFLICT (event_id) DO NOTHING\<close>: an error, or the number of rows
  inserted and the table. The values are checked before the conflict is.
\<close>

definition insert_event :: "(string \<Rightarrow> bool) \<Rightarrow> billing_event \<Rightarrow> ledger \<Rightarrow> string + nat \<times> ledger" where
  "insert_event valid_uuid ev db =
     (if ev_UserID ev \<noteq> [] \<and> \<not> valid_uuid (ev_UserID ev) then Inl ''invalid input syntax for type uuid''
      else if \<not> in32 (ev_SuccessN ev) \<or> \<not> in32 (ev_AmountCents ev) then Inl ''integer out of range''
      else if ev_SuccessN ev \<le> 0 then Inl ''violates check constraint''
      else if lg_billing_events db (ev_EventID ev) \<noteq> None then Inr (0, db)
      else
        Inr (1, db\<lparr>lg_billing_events := (lg_billing_events db)(ev_EventID ev \<mapsto>
          \<lparr>br_token_key = ev_TokenKey ev,
           br_user_id = (if ev_UserID ev \<noteq> [] then Some (ev_UserID ev) else None),
           br_plan_code = ev_Plan ev, br_chain_id = ev_ChainID ev, br_methods = marshal_strings (ev_Methods ev),
           br_success_n = ev_SuccessN ev, br_billable = ev_Billable ev, br_amount_cents = ev_AmountCents ev,
           br_upstream = ev_Upstream ev, br_latency_ms = ev_LatencyMs ev, br_client_ip = ev_ClientIP ev,
           br_created_at = ev_At ev\<rparr>)\<rparr>))"

text \<open>\<open>INSERT INTO usage_daily ... ON CONFLICT (token_key, day) DO UPDATE\<close>.\<close>

definition usage_at :: "ledger \<Rightarrow> string \<Rightarrow> string \<Rightarrow> usage_row" where
  "usage_at db token_key day =
     map_get \<lparr>us_success_count = 0, us_billable_count = 0\<rparr> (lg_usage_daily db) (token_key, day)"

definition upsert_usage :: "string \<Rightarrow> string \<Rightarrow> int \<Rightarrow> int \<Rightarrow> ledger \<Rightarrow> string + ledger" where
  "upsert_usage token_key day successN billableN db =
     (let u = usage_at db token_key day;
          s = us_success_count u + successN;
          b = us_billable_count u + billableN
      in if \<not> in64 s \<or> \<not> in64 b then Inl ''bigint out of range''
         else Inr (db\<lparr>lg_usage_daily :=
           (lg_usage_daily db)((token_key, day) \<mapsto> \<lparr>us_success_count = s, us_billable_count = b\<rparr>)\<rparr>))"

subsection \<open>The repository functions\<close>

text \<open>The failures of the round trips: \<open>Some\<close> is the error message.\<close>

record db_faults =
  df_begin :: "string option"
  df_event :: "string option"
  df_usage :: "string option"
  df_commit :: "string option"

definition faulty :: "string option \<Rightarrow> string + 'a \<Rightarrow> string + 'a" where
  "faulty f r = (case f of Some e \<Rightarrow> Inl e | None \<Rightarrow> r)"

definition InsertBillingEvent ::
  "(string \<Rightarrow> bool) \<Rightarrow> db_faults \<Rightarrow> billing_event \<Rightarrow> ledger \<Rightarrow> string option \<times> ledger" where
  "InsertBillingEvent valid_uuid f ev db =
     (case faulty (df_event f) (insert_event valid_uuid ev db) of
        Inl e \<Rightarrow> (Some (''insert billing_events: '' @ e), db)
      | Inr (n, db) \<Rightarrow> (None, db))"

definition IncrUsageDaily ::
  "db_faults \<Rightarrow> string \<Rightarrow> time \<Rightarrow> int \<Rightarrow> int \<Rightarrow> ledger \<Rightarrow> string option \<times> ledger" where
  "IncrUsageDaily f tokenKey day successN billableN db =
     (if successN \<le> 0 \<and> billableN \<le> 0 then (None, db)
      else
        let d = format_day day
        in case faulty (df_usage f) (upsert_usage tokenKey d successN billableN db) of
             Inl e \<Rightarrow> (Some (''incr usage_daily: '' @ e), db)
           | Inr db \<Rightarrow> (None, db))"

text \<open>\<open>tx\<close> is the state inside the transaction, \<open>db\<close> the committed one.\<close>

definition RecordBillableSuccess ::
  "(string \<Rightarrow> bool) \<Rightarrow> db_faults \<Rightarrow> billing_event \<Rightarrow> ledger \<Rightarrow> string option \<times> ledger" where
  "RecordBillableSuccess valid_uuid f ev db =
     (case df_begin f of
        Some e \<Rightarrow> (Some e, db)
      | None \<Rightarrow>
          (case faulty (df_event f) (insert_event valid_uuid ev db) of
             Inl e \<Rightarrow> (Some (''insert billing_events: '' @ e), db)
           | Inr (rowsAffected, tx) \<Rightarrow>
               let billableN = (if ev_Billable ev then ev_SuccessN ev else 0);
                   d = format_day (ev_At ev)
               in case (if rowsAffected > 0
                        then faulty (df_usage f) (upsert_usage (ev_TokenKey ev) d (ev_SuccessN ev) billableN tx)
                        else Inr tx) of
                    Inl e \<Rightarrow> (Some (''incr usage_daily: '' @ e), db)
                  | Inr tx \<Rightarrow> (case df_commit f of Some e \<Rightarrow> (Some e, db) | None \<Rightarrow> (None, tx))))"

subsection \<open>Publishers\<close>

datatype publisher =
    LogPublisher
  | RedisStreamPublisher string
  | PostgresPublisher
  | MultiPublisher "publisher list"

text \<open>Where events end up: the log, the stream entries with their keys, the tables.\<close>

record sinks =
  sk_log :: "billing_event list"
  sk_stream :: "(string \<times> string) list"
  sk_db :: ledger

record services =
  sv_uuid :: "string \<Rightarrow> bool"
  sv_db :: db_faults
  sv_xadd :: "string option"

text \<open>\<open>redis\<close> says whether a Redis client is available, \<open>db\<close> whether a database is connected.\<close>

definition NewPublisher :: "string \<Rightarrow> string \<Rightarrow> bool \<Rightarrow> bool \<Rightarrow> publisher" where
  "NewPublisher kind streamKey redis db =
     (let pubs =
            (if kind = ''redis_stream'' then
               (if redis then [RedisStreamPublisher streamKey] else [LogPublisher])
             else if kind = ''postgres'' then (if \<not> db then [LogPublisher] else [])
             else [LogPublisher]);
          pubs = (if db then pubs @ [PostgresPublisher] else pubs)
      in if length pubs = 1 then pubs ! 0 else MultiPublisher pubs)"

definition postgres_publish :: "services \<Rightarrow> billing_event \<Rightarrow> ledger \<Rightarrow> string option \<times> ledger" where
  "postgres_publish sv ev db =
     (if ev_Billable ev then RecordBillableSuccess (sv_uuid sv) (sv_db sv) ev db
      else IncrUsageDaily (sv_db sv) (ev_TokenKey ev) (ev_At ev) (ev_SuccessN ev) 0 db)"

fun Publish :: "services \<Rightarrow> publisher \<Rightarrow> billing_event \<Rightarrow> sinks \<Rightarrow> string option \<times> sinks"
  and publish_all :: "services \<Rightarrow> publisher list \<Rightarrow> billing_event \<Rightarrow> string option \<Rightarrow> sinks \<Rightarrow> string option \<times> sinks"
  where
  "Publish sv LogPublisher ev w = (None, w\<lparr>sk_log := sk_log w @ [ev]\<rparr>)"
| "Publish sv (RedisStreamPublisher key) ev w =
     (case sv_xadd sv of
        Some e \<Rightarrow> (Some e, w)
      | None \<Rightarrow> (None, w\<lparr>sk_stream := sk_stream w @ [(key, marshal_event ev)]\<rparr>))"
| "Publish sv PostgresPublisher ev w =
     (case postgres_publish sv ev (sk_db w) of (e, db) \<Rightarrow> (e, w\<lparr>sk_db := db\<rparr>))"
| "Publish sv (MultiPublisher ps) ev w = publish_all sv ps ev None w"
| "publish_all sv [] ev firstErr w = (firstErr, w)"
| "publish_all sv (p # ps) ev firstErr w =
     (case Publish sv p ev w of
        (err, w) \<Rightarrow> publish_all sv ps ev (if err \<noteq> None \<and> firstErr = None then err else firstErr) w)"

end
