(* ===== verification/Billing_Spec.thy ===== *)
theory Billing_Spec
  imports Billing
begin

section \<open>What the ledger promises\<close>

text \<open>
  The contract of an idempotent ledger is the locale \<open>ledger_contract\<close>: a failed recording changes
  nothing, and a recorded event is recorded once and for all. Redelivery of an event, any number of
  times and with any failures, then counts it once. The transaction of the repository satisfies the
  contract, and keeps the daily usage equal to the sum of the events.
\<close>

subsection \<open>The contract\<close>

fun redeliver :: "('f \<Rightarrow> 'd \<Rightarrow> 'e option \<times> 'd) \<Rightarrow> 'f list \<Rightarrow> 'd \<Rightarrow> 'd" where
  "redeliver book [] d = d"
| "redeliver book (f # fs) d = redeliver book fs (snd (book f d))"

locale ledger_contract =
  fixes book :: "'f \<Rightarrow> billing_event \<Rightarrow> 'd \<Rightarrow> string option \<times> 'd"
    and recorded :: "'d \<Rightarrow> string \<Rightarrow> bool"
  assumes failed_unchanged: "fst (book f ev d) \<noteq> None \<Longrightarrow> snd (book f ev d) = d"
    and succeeds_recorded: "fst (book f ev d) = None \<Longrightarrow> recorded (snd (book f ev d)) (ev_EventID ev)"
    and recorded_unchanged: "recorded d (ev_EventID ev) \<Longrightarrow> snd (book f ev d) = d"
begin

lemma redeliver_recorded: "recorded d (ev_EventID ev) \<Longrightarrow> redeliver (\<lambda>f. book f ev) fs d = d"
  by (induction fs) (simp_all add: recorded_unchanged)

lemma redeliver_once:
  "redeliver (\<lambda>f. book f ev) fs d =
     (case find (\<lambda>f. fst (book f ev d) = None) fs of
        None \<Rightarrow> d | Some f \<Rightarrow> snd (book f ev d))"
proof (induction fs)
  case Nil
  then show ?case by simp
next
  case (Cons f fs)
  then show ?case
    using redeliver_recorded [of "snd (book f ev d)" ev fs]
    by (cases "fst (book f ev d)") (simp_all add: succeeds_recorded failed_unchanged)
qed

end

subsection \<open>The transaction\<close>

definition has_event :: "ledger \<Rightarrow> string \<Rightarrow> bool" where
  "has_event db i \<longleftrightarrow> lg_billing_events db i \<noteq> None"

lemma faulty_Inr [simp]: "faulty f r = Inr x \<longleftrightarrow> f = None \<and> r = Inr x"
  by (simp add: faulty_def split: option.split)

lemma insert_event_Inr:
  "insert_event u ev db = Inr (n, tx) \<Longrightarrow>
     has_event tx (ev_EventID ev) \<and> 0 < ev_SuccessN ev \<and> lg_usage_daily tx = lg_usage_daily db \<and>
     (if n = 0 then tx = db else \<not> has_event db (ev_EventID ev) \<and>
        (\<exists>row. lg_billing_events tx = (lg_billing_events db)(ev_EventID ev \<mapsto> row) \<and>
           br_token_key row = ev_TokenKey ev \<and> br_created_at row = ev_At ev \<and>
           br_success_n row = ev_SuccessN ev \<and> br_amount_cents row = ev_AmountCents ev))"
  by (auto simp: insert_event_def has_event_def split: if_splits)

lemma upsert_usage_Inr:
  "upsert_usage k day s b db = Inr tx \<Longrightarrow>
     lg_billing_events tx = lg_billing_events db \<and>
     usage_at tx k day = \<lparr>us_success_count = us_success_count (usage_at db k day) + s,
       us_billable_count = us_billable_count (usage_at db k day) + b\<rparr> \<and>
     (\<forall>k' day'. (k', day') \<noteq> (k, day) \<longrightarrow> usage_at tx k' day' = usage_at db k' day')"
  by (auto simp: upsert_usage_def usage_at_def Let_def split: if_splits)

text \<open>The outcomes of the transaction: it fails and nothing changes, it finds the event, or it does both writes.\<close>

lemma RecordBillableSuccess_cases:
  assumes "RecordBillableSuccess u f ev db = (err, db')"
  obtains
    (failed) "err \<noteq> None" "db' = db"
  | (known) "err = None" "db' = db" "has_event db (ev_EventID ev)"
  | (booked) tx where "err = None" "insert_event u ev db = Inr (1, tx)" "\<not> has_event db (ev_EventID ev)"
      "upsert_usage (ev_TokenKey ev) (format_day (ev_At ev)) (ev_SuccessN ev)
         (if ev_Billable ev then ev_SuccessN ev else 0) tx = Inr db'"
proof (cases "err = None")
  case False
  then have "db' = db"
    using assms by (auto simp: RecordBillableSuccess_def Let_def split: option.splits sum.splits prod.splits)
  with False show ?thesis by (rule failed)
next
  case True
  then obtain n tx where b: "insert_event u ev db = Inr (n, tx)"
    and rest: "(if n > 0 then faulty (df_usage f) (upsert_usage (ev_TokenKey ev) (format_day (ev_At ev))
        (ev_SuccessN ev) (if ev_Billable ev then ev_SuccessN ev else 0) tx) else Inr tx) = Inr db'"
    using assms by (auto simp: RecordBillableSuccess_def Let_def split: option.splits sum.splits prod.splits)
  note i = insert_event_Inr [OF b]
  show ?thesis
  proof (cases "n = 0")
    case True
    with rest i have "db' = db" "has_event db (ev_EventID ev)" by auto
    with \<open>err = None\<close> show ?thesis by (intro known)
  next
    case False
    moreover from False b have "n = 1" by (auto simp: insert_event_def split: if_splits)
    ultimately show ?thesis using rest i b \<open>err = None\<close> by (intro booked) (auto split: if_splits)
  qed
qed

interpretation pg: ledger_contract "\<lambda>(u, f) ev. RecordBillableSuccess u f ev" has_event
proof (unfold_locales, goal_cases)
  case (1 f ev d)
  obtain u g where f: "f = (u, g)" by (cases f)
  obtain err d' where r: "RecordBillableSuccess u g ev d = (err, d')" by fastforce
  from r 1 show ?case by (cases rule: RecordBillableSuccess_cases) (simp_all add: f r)
next
  case (2 f ev d)
  obtain u g where f: "f = (u, g)" by (cases f)
  obtain err d' where r: "RecordBillableSuccess u g ev d = (err, d')" by fastforce
  from r show ?case
  proof (cases rule: RecordBillableSuccess_cases)
    case failed
    with 2 show ?thesis by (simp add: f r)
  next
    case known
    then show ?thesis by (simp add: f r)
  next
    case (booked tx)
    then show ?thesis using insert_event_Inr [OF booked(2)] upsert_usage_Inr [OF booked(4)]
      by (simp add: f r has_event_def)
  qed
next
  case (3 d ev f)
  obtain u g where f: "f = (u, g)" by (cases f)
  obtain err d' where r: "RecordBillableSuccess u g ev d = (err, d')" by fastforce
  from r 3 show ?case by (cases rule: RecordBillableSuccess_cases) (simp_all add: f r)
qed

text \<open>
  C35: redelivery never bills twice. However often one event is delivered, with whatever failures of
  the database at each delivery, the tables end up as after the first delivery that succeeds alone,
  or unchanged if none does.
\<close>

theorem billing_once:
  "redeliver (\<lambda>(valid_uuid, f). RecordBillableSuccess valid_uuid f ev) fs db =
     (case find (\<lambda>(valid_uuid, f). fst (RecordBillableSuccess valid_uuid f ev db) = None) fs of
        None \<Rightarrow> db
      | Some (valid_uuid, f) \<Rightarrow> snd (RecordBillableSuccess valid_uuid f ev db))"
  using pg.redeliver_once [of ev fs db] by (simp add: case_prod_beta' cong: option.case_cong)

subsection \<open>Usage and events agree\<close>

text \<open>What the events say a token used on a day.\<close>

definition row_share :: "string \<Rightarrow> string \<Rightarrow> billing_row \<Rightarrow> int" where
  "row_share k day r = (if br_token_key r = k \<and> format_day (br_created_at r) = day then br_success_n r else 0)"

definition billed_total :: "ledger \<Rightarrow> string \<Rightarrow> string \<Rightarrow> int" where
  "billed_total db k day =
     (\<Sum>i \<in> dom (lg_billing_events db). row_share k day (the (lg_billing_events db i)))"

definition reconciled :: "ledger \<Rightarrow> bool" where
  "reconciled db \<longleftrightarrow>
     finite (dom (lg_billing_events db)) \<and>
     (\<forall>k day. us_billable_count (usage_at db k day) = billed_total db k day \<and>
        us_billable_count (usage_at db k day) \<le> us_success_count (usage_at db k day))"

lemma sum_map_update:
  fixes m :: "'k \<rightharpoonup> 'v" and g :: "'v \<Rightarrow> int"
  assumes "finite (dom m)" "m i = None"
  shows "(\<Sum>j \<in> dom (m(i \<mapsto> v)). g (the ((m(i \<mapsto> v)) j))) = g v + (\<Sum>j \<in> dom m. g (the (m j)))"
proof -
  have "i \<notin> dom m" using assms(2) by auto
  then have "(\<Sum>j \<in> dom m. g (the ((m(i \<mapsto> v)) j))) = (\<Sum>j \<in> dom m. g (the (m j)))"
    by (intro sum.cong) auto
  with \<open>i \<notin> dom m\<close> assms(1) show ?thesis by simp
qed

lemma reconciled_step:
  assumes "reconciled db" "finite (dom (lg_billing_events db'))"
    and step: "\<And>k day. us_billable_count (usage_at db' k day) = us_billable_count (usage_at db k day) + b k day \<and>
      us_success_count (usage_at db' k day) = us_success_count (usage_at db k day) + n k day \<and>
      billed_total db' k day = billed_total db k day + b k day \<and> b k day \<le> n k day"
  shows "reconciled db'"
proof -
  have "us_billable_count (usage_at db' k day) = billed_total db' k day \<and>
      us_billable_count (usage_at db' k day) \<le> us_success_count (usage_at db' k day)" for k day
  proof -
    have "us_billable_count (usage_at db k day) = billed_total db k day"
      "us_billable_count (usage_at db k day) \<le> us_success_count (usage_at db k day)"
      using assms(1) unfolding reconciled_def by blast+
    with step [of k day] show ?thesis by linarith
  qed
  with assms(2) show ?thesis unfolding reconciled_def by blast
qed

lemma RecordBillable_reconciled:
  assumes "reconciled db" "ev_Billable ev" "RecordBillableSuccess u f ev db = (err, db')"
  shows "reconciled db'"
  using assms(3)
proof (cases rule: RecordBillableSuccess_cases)
  case (booked tx)
  from insert_event_Inr [OF booked(2)] obtain row where
    ev: "lg_billing_events tx = (lg_billing_events db)(ev_EventID ev \<mapsto> row)"
    and row: "br_token_key row = ev_TokenKey ev" "br_created_at row = ev_At ev" "br_success_n row = ev_SuccessN ev"
    and usage: "lg_usage_daily tx = lg_usage_daily db" and pos: "0 < ev_SuccessN ev"
    by auto
  let ?k = "ev_TokenKey ev" and ?day = "format_day (ev_At ev)"
  have none: "lg_billing_events db (ev_EventID ev) = None" using booked(3) by (simp add: has_event_def)
  have fin: "finite (dom (lg_billing_events db))" using assms(1) by (simp add: reconciled_def)
  note up = upsert_usage_Inr [OF booked(4)]
  have same: "usage_at tx k day = usage_at db k day" for k day by (simp add: usage_at_def usage)
  have total: "billed_total db' k day = row_share k day row + billed_total db k day" for k day
    using sum_map_update [OF fin none, of "row_share k day" row] up by (simp add: billed_total_def ev)
  have share: "row_share k day row = (if (k, day) = (?k, ?day) then ev_SuccessN ev else 0)" for k day
    by (simp add: row_share_def row)
  have "finite (dom (lg_billing_events db'))" using fin up by (simp add: ev)
  then show ?thesis
    using reconciled_step [OF assms(1), of db' "\<lambda>k day. if (k, day) = (?k, ?day) then ev_SuccessN ev else 0"
        "\<lambda>k day. if (k, day) = (?k, ?day) then ev_SuccessN ev else 0"] up same
    by (simp add: total share assms(2))
qed (use assms(1) in simp_all)

lemma IncrUsage_reconciled:
  assumes "reconciled db" "IncrUsageDaily f k day n 0 db = (err, db')"
  shows "reconciled db'"
proof (cases "db' = db")
  case False
  with assms(2) have up: "upsert_usage k (format_day day) n 0 db = Inr db'" and n: "0 < n"
    by (auto simp: IncrUsageDaily_def Let_def split: sum.splits if_splits)
  note up = upsert_usage_Inr [OF up]
  have total: "billed_total db' k day = billed_total db k day" for k day using up by (simp add: billed_total_def)
  have "finite (dom (lg_billing_events db'))" using assms(1) up by (simp add: reconciled_def)
  then show ?thesis
    using reconciled_step [OF assms(1), of db' "\<lambda>k' day'. 0"
        "\<lambda>k' day'. if (k', day') = (k, format_day day) then n else 0"] up n
    by (simp add: total)
qed (simp add: assms(1))

lemma postgres_publish_reconciled:
  "reconciled db \<Longrightarrow> reconciled (snd (postgres_publish sv ev db))"
  using RecordBillable_reconciled [of db ev "sv_uuid sv" "sv_db sv"] IncrUsage_reconciled [of db "sv_db sv"]
  by (cases "ev_Billable ev") (metis postgres_publish_def prod.collapse)+

lemma Publish_reconciled:
  "reconciled (sk_db w) \<Longrightarrow> reconciled (sk_db (snd (Publish sv p ev w)))"
  "reconciled (sk_db w) \<Longrightarrow> reconciled (sk_db (snd (publish_all sv ps ev e w)))"
proof (induction sv p ev w and sv ps ev e w rule: Publish_publish_all.induct)
  case (3 sv ev w)
  then show ?case using postgres_publish_reconciled [of "sk_db w" sv ev] by (simp add: split_beta)
next
  case (6 sv p ps ev e w)
  then show ?case by (auto simp: split_beta)
qed (auto split: option.split)

definition empty_sinks :: sinks where
  "empty_sinks = \<lparr>sk_log = [], sk_stream = [], sk_db = \<lparr>lg_billing_events = Map.empty, lg_usage_daily = Map.empty\<rparr>\<rparr>"

definition publish_run :: "publisher \<Rightarrow> (services \<times> billing_event) list \<Rightarrow> sinks" where
  "publish_run p es = fold (\<lambda>(sv, ev) w. snd (Publish sv p ev w)) es empty_sinks"

lemma empty_reconciled: "reconciled (sk_db empty_sinks)"
  by (simp add: reconciled_def empty_sinks_def billed_total_def usage_at_def)

text \<open>
  The daily usage always reconciles with the billing events. After any events published through any
  arrangement of publishers, with any failures, the billable count of every token and day equals the
  sum of the successes of the stored events of that token and day, and does not exceed the success
  count.
\<close>

lemma usage_reconciles: "reconciled (sk_db (publish_run p es))"
proof -
  have "reconciled (sk_db w) \<Longrightarrow> reconciled (sk_db (fold (\<lambda>(sv, ev) w. snd (Publish sv p ev w)) es w))" for w
    by (induction es arbitrary: w) (auto simp: Publish_reconciled)
  then show ?thesis using empty_reconciled by (simp add: publish_run_def)
qed

subsection \<open>Publishers\<close>

text \<open>
  Every configured sink gets every event, and one failing sink does not keep the event from the
  others. The log has it unless the stream or the database is the configured primary sink and is
  there, the stream has it if it is configured, Redis is there and accepts it, and the database gets
  it whenever one is connected, whatever the configured publisher.
\<close>

lemma publish_reaches_sinks:
  "snd (Publish sv (NewPublisher kind streamKey redis db) ev w) =
     \<lparr>sk_log = sk_log w @ (if kind = ''redis_stream'' \<and> redis \<or> kind = ''postgres'' \<and> db then [] else [ev]),
      sk_stream = sk_stream w @
        (if kind = ''redis_stream'' \<and> redis \<and> sv_xadd sv = None then [(streamKey, marshal_event ev)] else []),
      sk_db = (if db then snd (postgres_publish sv ev (sk_db w)) else sk_db w)\<rparr>"
  by (cases "kind = ''redis_stream''"; cases "kind = ''postgres''"; cases db; cases redis)
    (auto simp: NewPublisher_def Let_def split: prod.split option.split)

lemma postgres_publish_free:
  "\<not> ev_Billable ev \<Longrightarrow>
     lg_billing_events (snd (postgres_publish sv ev db)) = lg_billing_events db \<and>
     us_billable_count (usage_at (snd (postgres_publish sv ev db)) k day) = us_billable_count (usage_at db k day)"
  by (auto simp: postgres_publish_def IncrUsageDaily_def upsert_usage_def usage_at_def faulty_def Let_def
      split: option.split sum.split)

lemma Publish_free:
  "\<not> ev_Billable ev \<Longrightarrow>
     lg_billing_events (sk_db (snd (Publish sv p ev w))) = lg_billing_events (sk_db w) \<and>
     us_billable_count (usage_at (sk_db (snd (Publish sv p ev w))) k day) = us_billable_count (usage_at (sk_db w) k day)"
  "\<not> ev_Billable ev \<Longrightarrow>
     lg_billing_events (sk_db (snd (publish_all sv ps ev e w))) = lg_billing_events (sk_db w) \<and>
     us_billable_count (usage_at (sk_db (snd (publish_all sv ps ev e w))) k day) = us_billable_count (usage_at (sk_db w) k day)"
proof (induction sv p ev w and sv ps ev e w rule: Publish_publish_all.induct)
  case (3 sv ev w)
  then show ?case using postgres_publish_free [of ev sv "sk_db w" k day] by (simp add: split_beta)
next
  case (6 sv p ps ev e w)
  then show ?case by (auto simp: split_beta)
qed (auto split: option.split)

text \<open>
  A free event never enters the billing events and never counts as billable, whatever the
  publishers and the failures are.
\<close>

lemma free_never_billed:
  "let db = sk_db (snd (Publish sv p (ev\<lparr>ev_Billable := False\<rparr>) w))
   in lg_billing_events db = lg_billing_events (sk_db w) \<and>
      us_billable_count (usage_at db k day) = us_billable_count (usage_at (sk_db w) k day)"
  using Publish_free(1) [of "ev\<lparr>ev_Billable := False\<rparr>"] by (simp add: Let_def)

end
