(* ===== verification/Admin_Jwt.thy ===== *)
theory Admin_Jwt
  imports Prelude
begin

section \<open>Admin tokens: \<open>internal/adminjwt\<close>\<close>

text \<open>
  Issuing, validating and rotating the JWTs of the admin API, over the interface \<open>Store\<close> with its two
  implementations. A Go interface value is a record of its methods, \<open>jwt_store_ops\<close>, over the
  implementation's state. The JWT library is a parameter: \<open>sign\<close> is \<open>SignedString\<close> with HS256, and
  \<open>parse\<close> is \<open>ParseWithClaims\<close> with its key function, issuer, subject and the current time. Random
  identifiers and the clock are arguments. PostgreSQL keeps times to the microsecond; its rows are a
  list in which no \<open>jti\<close> occurs twice, and the outcome of each round trip is an argument.
\<close>

subsection \<open>Records, issuer and validator\<close>

record jwt_record =
  jr_ID :: string
  jr_JTI :: string
  jr_Token :: string
  jr_Subject :: string
  jr_IssuedAt :: time
  jr_ExpiresAt :: time
  jr_Revoked :: bool

record claims =
  cl_ID :: string
  cl_Issuer :: string
  cl_Subject :: string
  cl_IssuedAt :: time
  cl_ExpiresAt :: time
  cl_NotBefore :: time

record issuer =
  is_Secret :: string
  is_Issuer :: string
  is_Subject :: string
  is_TTL :: duration

type_synonym jwt_sign = "string \<Rightarrow> claims \<Rightarrow> string + string"
type_synonym jwt_parse =
  "(string \<Rightarrow> string + string) \<Rightarrow> string \<Rightarrow> string \<Rightarrow> time \<Rightarrow> string \<Rightarrow> string + claims \<times> bool"

definition Issue :: "jwt_sign \<Rightarrow> string \<Rightarrow> string \<Rightarrow> time \<Rightarrow> issuer \<Rightarrow> string + jwt_record" where
  "Issue sign jti i now iss =
     (if length (is_Secret iss) = 0 then Inl ''jwt secret is empty''
      else if is_TTL iss \<le> 0 then Inl ''jwt ttl must be positive''
      else
        let claims = \<lparr>cl_ID = jti, cl_Issuer = is_Issuer iss, cl_Subject = is_Subject iss, cl_IssuedAt = now,
              cl_ExpiresAt = now + is_TTL iss, cl_NotBefore = now\<rparr>
        in case sign (is_Secret iss) claims of
             Inl e \<Rightarrow> Inl e
           | Inr signed \<Rightarrow>
               Inr \<lparr>jr_ID = i, jr_JTI = jti, jr_Token = signed, jr_Subject = is_Subject iss,
                 jr_IssuedAt = now, jr_ExpiresAt = now + is_TTL iss, jr_Revoked = False\<rparr>)"

text \<open>The interface \<open>Store\<close>. An error is a message; \<open>now\<close> is the clock that the method reads.\<close>

record 's jwt_store_ops =
  js_Save :: "jwt_record \<Rightarrow> 's \<Rightarrow> string option \<times> 's"
  js_IsActive :: "time \<Rightarrow> string \<Rightarrow> 's \<Rightarrow> string + bool"
  js_RevokeAllActive :: "time \<Rightarrow> 's \<Rightarrow> string option \<times> 's"
  js_LatestActive :: "time \<Rightarrow> 's \<Rightarrow> string + jwt_record"
  js_CleanupExpired :: "time \<Rightarrow> 's \<Rightarrow> string option \<times> 's"

definition ErrNotFound :: string where
  "ErrNotFound = ''admin jwt not found''"

record validator =
  va_Secret :: string
  va_Issuer :: string
  va_Subject :: string

definition keyfunc :: "string \<Rightarrow> string \<Rightarrow> string + string" where
  "keyfunc secret alg =
     (if alg \<noteq> ''HS256'' then Inl (''unexpected signing method: '' @ alg) else Inr secret)"

definition Validate ::
  "jwt_parse \<Rightarrow> 's jwt_store_ops \<Rightarrow> validator \<Rightarrow> time \<Rightarrow> string \<Rightarrow> 's \<Rightarrow> string + claims" where
  "Validate parse ops v now raw_token s =
     (if raw_token = [] then Inl ''empty token''
      else
        (case parse (keyfunc (va_Secret v)) (va_Issuer v) (va_Subject v) now raw_token of
           Inl e \<Rightarrow> Inl e
         | Inr (claims, valid) \<Rightarrow>
             if \<not> valid then Inl ''invalid token claims''
             else if cl_ID claims = [] then Inl ''missing jti''
             else
               (case js_IsActive ops now (cl_ID claims) s of
                  Inl e \<Rightarrow> Inl e
                | Inr active \<Rightarrow> if \<not> active then Inl ''token revoked or not found'' else Inr claims)))"

subsection \<open>The store in memory\<close>

record memory_store =
  ms_byJTI :: "string \<rightharpoonup> jwt_record"

definition NewMemoryStore :: memory_store where
  "NewMemoryStore = \<lparr>ms_byJTI = Map.empty\<rparr>"

definition mem_Save :: "jwt_record \<Rightarrow> memory_store \<Rightarrow> string option \<times> memory_store" where
  "mem_Save r s = (None, s\<lparr>ms_byJTI := (ms_byJTI s)(jr_JTI r \<mapsto> r)\<rparr>)"

definition mem_IsActive :: "time \<Rightarrow> string \<Rightarrow> memory_store \<Rightarrow> string + bool" where
  "mem_IsActive now jti s =
     (case ms_byJTI s jti of
        None \<Rightarrow> Inr False
      | Some r \<Rightarrow> if jr_Revoked r then Inr False else Inr (now < jr_ExpiresAt r))"

definition mem_RevokeAllActive :: "time \<Rightarrow> memory_store \<Rightarrow> string option \<times> memory_store" where
  "mem_RevokeAllActive now s =
     (None, s\<lparr>ms_byJTI := (\<lambda>k. map_option
        (\<lambda>r. if \<not> jr_Revoked r \<and> now < jr_ExpiresAt r then r\<lparr>jr_Revoked := True\<rparr> else r) (ms_byJTI s k))\<rparr>)"

text \<open>The loop of \<open>LatestActive\<close> over the records in some order.\<close>

fun latest_of :: "time \<Rightarrow> jwt_record list \<Rightarrow> jwt_record option \<Rightarrow> jwt_record option" where
  "latest_of now [] best = best"
| "latest_of now (r # rs) best =
     (if jr_Revoked r \<or> \<not> now < jr_ExpiresAt r then latest_of now rs best
      else
        (case best of
           None \<Rightarrow> latest_of now rs (Some r)
         | Some b \<Rightarrow> latest_of now rs (if jr_IssuedAt r > jr_IssuedAt b then Some r else best)))"

definition mem_LatestActive :: "string list \<Rightarrow> time \<Rightarrow> memory_store \<Rightarrow> string + jwt_record" where
  "mem_LatestActive ks now s =
     (case latest_of now (List.map_filter (ms_byJTI s) ks) None of
        None \<Rightarrow> Inl ErrNotFound
      | Some best \<Rightarrow> Inr best)"

definition mem_CleanupExpired :: "time \<Rightarrow> memory_store \<Rightarrow> string option \<times> memory_store" where
  "mem_CleanupExpired cutoff s =
     (None, s\<lparr>ms_byJTI := (\<lambda>k. case ms_byJTI s k of
        None \<Rightarrow> None | Some r \<Rightarrow> if \<not> jr_ExpiresAt r > cutoff then None else Some r)\<rparr>)"

definition memory_ops :: "string list \<Rightarrow> memory_store jwt_store_ops" where
  "memory_ops ks =
     \<lparr>js_Save = mem_Save, js_IsActive = mem_IsActive, js_RevokeAllActive = mem_RevokeAllActive,
      js_LatestActive = mem_LatestActive ks, js_CleanupExpired = mem_CleanupExpired\<rparr>"

subsection \<open>The store in PostgreSQL\<close>

type_synonym jwt_table = "jwt_record list"

definition pg_time :: "time \<Rightarrow> time" where
  "pg_time t = t div 1000 * 1000"

definition pg_row :: "jwt_record \<Rightarrow> jwt_record" where
  "pg_row r = r\<lparr>jr_IssuedAt := pg_time (jr_IssuedAt r), jr_ExpiresAt := pg_time (jr_ExpiresAt r)\<rparr>"

text \<open>\<open>INSERT ... ON CONFLICT (jti) DO UPDATE\<close>, which keeps the id of the row.\<close>

fun upsert_jwt :: "jwt_record \<Rightarrow> jwt_table \<Rightarrow> jwt_table" where
  "upsert_jwt r [] = [r]"
| "upsert_jwt r (q # qs) =
     (if jr_JTI q = jr_JTI r then r\<lparr>jr_ID := jr_ID q\<rparr> # qs else q # upsert_jwt r qs)"

definition pg_Save :: "string option \<Rightarrow> jwt_record \<Rightarrow> jwt_table \<Rightarrow> string option \<times> jwt_table" where
  "pg_Save fault r db =
     (case fault of
        Some e \<Rightarrow> (Some (''save admin jwt: '' @ e), db)
      | None \<Rightarrow> (None, upsert_jwt (pg_row r) db))"

definition pg_IsActive :: "string option \<Rightarrow> time \<Rightarrow> string \<Rightarrow> jwt_table \<Rightarrow> string + bool" where
  "pg_IsActive fault now jti db =
     (case fault of
        Some e \<Rightarrow> Inl (''check admin jwt: '' @ e)
      | None \<Rightarrow> Inr (list_ex (\<lambda>r. jr_JTI r = jti \<and> \<not> jr_Revoked r \<and> jr_ExpiresAt r > now) db))"

definition pg_RevokeAllActive :: "string option \<Rightarrow> time \<Rightarrow> jwt_table \<Rightarrow> string option \<times> jwt_table" where
  "pg_RevokeAllActive fault now db =
     (case fault of
        Some e \<Rightarrow> (Some (''revoke admin jwt: '' @ e), db)
      | None \<Rightarrow>
          (None, map (\<lambda>r. if \<not> jr_Revoked r \<and> jr_ExpiresAt r > now then r\<lparr>jr_Revoked := True\<rparr> else r) db))"

text \<open>\<open>ORDER BY issued_at DESC LIMIT 1\<close>; of rows with the same time the first one.\<close>

definition pg_LatestActive :: "string option \<Rightarrow> time \<Rightarrow> jwt_table \<Rightarrow> string + jwt_record" where
  "pg_LatestActive fault now db =
     (case fault of
        Some e \<Rightarrow> Inl (''latest admin jwt: '' @ e)
      | None \<Rightarrow>
          (case sort_key (\<lambda>r. - jr_IssuedAt r) (filter (\<lambda>r. \<not> jr_Revoked r \<and> jr_ExpiresAt r > now) db) of
             [] \<Rightarrow> Inl ErrNotFound
           | r # rs \<Rightarrow> Inr r))"

definition pg_CleanupExpired :: "string option \<Rightarrow> time \<Rightarrow> jwt_table \<Rightarrow> string option \<times> jwt_table" where
  "pg_CleanupExpired fault cutoff db =
     (case fault of
        Some e \<Rightarrow> (Some (''cleanup admin jwt: '' @ e), db)
      | None \<Rightarrow> (None, filter (\<lambda>r. \<not> jr_ExpiresAt r \<le> pg_time cutoff) db))"

text \<open>The failures of the five statements.\<close>

record jwt_faults =
  jf_save :: "string option"
  jf_check :: "string option"
  jf_revoke :: "string option"
  jf_latest :: "string option"
  jf_cleanup :: "string option"

definition postgres_ops :: "jwt_faults \<Rightarrow> jwt_table jwt_store_ops" where
  "postgres_ops f =
     \<lparr>js_Save = pg_Save (jf_save f), js_IsActive = pg_IsActive (jf_check f),
      js_RevokeAllActive = pg_RevokeAllActive (jf_revoke f),
      js_LatestActive = pg_LatestActive (jf_latest f),
      js_CleanupExpired = pg_CleanupExpired (jf_cleanup f)\<rparr>"

subsection \<open>Rotation\<close>

record rotator_config =
  rc_Every :: duration
  rc_OnStart :: bool
  rc_RevokePrevious :: bool
  rc_CleanupRetention :: duration
  rc_LogToken :: bool

text \<open>
  \<open>cleanup\<close> failing is only logged. The clock is read once; \<open>jti\<close> and \<open>i\<close> are the random identifiers.
\<close>

definition Rotate ::
  "jwt_sign \<Rightarrow> 's jwt_store_ops \<Rightarrow> issuer \<Rightarrow> rotator_config \<Rightarrow> string \<Rightarrow> string \<Rightarrow> time \<Rightarrow> 's
    \<Rightarrow> string option \<times> 's" where
  "Rotate sign ops iss cfg jti i now s =
     (case (if rc_RevokePrevious cfg then js_RevokeAllActive ops now s else (None, s)) of
        (Some e, s) \<Rightarrow> (Some e, s)
      | (None, s) \<Rightarrow>
          (case Issue sign jti i now iss of
             Inl e \<Rightarrow> (Some e, s)
           | Inr r \<Rightarrow>
               (case js_Save ops r s of
                  (Some e, s) \<Rightarrow> (Some e, s)
                | (None, s) \<Rightarrow>
                    (if rc_CleanupRetention cfg > 0
                     then (None, snd (js_CleanupExpired ops (now - rc_CleanupRetention cfg) s))
                     else (None, s)))))"

text \<open>
  \<open>Start\<close> up to the ticker: the first rotation, whose error is only logged, and whether rotations
  follow at every tick.
\<close>

definition Start ::
  "jwt_sign \<Rightarrow> 's jwt_store_ops \<Rightarrow> issuer \<Rightarrow> rotator_config \<Rightarrow> string \<Rightarrow> string \<Rightarrow> time \<Rightarrow> 's \<Rightarrow> bool \<times> 's" where
  "Start sign ops iss cfg jti i now s =
     (\<not> rc_Every cfg \<le> 0, if rc_OnStart cfg then snd (Rotate sign ops iss cfg jti i now s) else s)"

end
