(* ===== verification/Admin_Jwt_Spec.thy ===== *)
theory Admin_Jwt_Spec
  imports Admin_Jwt
begin

section \<open>What the admin token store promises\<close>

text \<open>
  The interface \<open>Store\<close> as the locale \<open>jwt_store\<close>: the meaning of every method on an abstract map from
  token ids to what the store knows of them. Rotation and validation are analysed once, against the
  contract; the map in memory and the table in PostgreSQL both satisfy it, the table with times cut
  to the microsecond.
\<close>

subsection \<open>The contract\<close>

record jwt_view =
  vw_Token :: string
  vw_Subject :: string
  vw_IssuedAt :: time
  vw_ExpiresAt :: time
  vw_Revoked :: bool

definition view_of :: "(time \<Rightarrow> time) \<Rightarrow> jwt_record \<Rightarrow> jwt_view" where
  "view_of keep r =
     \<lparr>vw_Token = jr_Token r, vw_Subject = jr_Subject r, vw_IssuedAt = keep (jr_IssuedAt r),
      vw_ExpiresAt = keep (jr_ExpiresAt r), vw_Revoked = jr_Revoked r\<rparr>"

definition view_active :: "time \<Rightarrow> jwt_view option \<Rightarrow> bool" where
  "view_active now v = (case v of None \<Rightarrow> False | Some v \<Rightarrow> \<not> vw_Revoked v \<and> now < vw_ExpiresAt v)"

definition revoke_view :: "time \<Rightarrow> jwt_view \<Rightarrow> jwt_view" where
  "revoke_view now v = (if view_active now (Some v) then v\<lparr>vw_Revoked := True\<rparr> else v)"

definition cleanup_view :: "time \<Rightarrow> jwt_view option \<Rightarrow> jwt_view option" where
  "cleanup_view cutoff v =
     (case v of None \<Rightarrow> None | Some v \<Rightarrow> if cutoff < vw_ExpiresAt v then Some v else None)"

text \<open>Changes of a store, and what they mean on the abstract map.\<close>

datatype store_op = SaveOp jwt_record | RevokeOp time | CleanupOp time

fun run_store :: "'s jwt_store_ops \<Rightarrow> store_op list \<Rightarrow> 's \<Rightarrow> 's" where
  "run_store ops [] s = s"
| "run_store ops (SaveOp r # xs) s = run_store ops xs (snd (js_Save ops r s))"
| "run_store ops (RevokeOp now # xs) s = run_store ops xs (snd (js_RevokeAllActive ops now s))"
| "run_store ops (CleanupOp cutoff # xs) s = run_store ops xs (snd (js_CleanupExpired ops cutoff s))"

fun run_views :: "(time \<Rightarrow> time) \<Rightarrow> store_op list \<Rightarrow> (string \<rightharpoonup> jwt_view) \<Rightarrow> (string \<rightharpoonup> jwt_view)" where
  "run_views keep [] m = m"
| "run_views keep (SaveOp r # xs) m = run_views keep xs (m(jr_JTI r \<mapsto> view_of keep r))"
| "run_views keep (RevokeOp now # xs) m = run_views keep xs (\<lambda>j. map_option (revoke_view now) (m j))"
| "run_views keep (CleanupOp cutoff # xs) m = run_views keep xs (\<lambda>j. cleanup_view cutoff (m j))"

locale jwt_store =
  fixes ops :: "'s jwt_store_ops" and inv :: "'s \<Rightarrow> bool"
    and abs :: "'s \<Rightarrow> string \<rightharpoonup> jwt_view" and keep :: "time \<Rightarrow> time"
  assumes keep_le: "keep t \<le> t" and keep_gt: "t - 1000 < keep t"
    and save: "inv s \<Longrightarrow> \<exists>s'. js_Save ops r s = (None, s') \<and> inv s' \<and>
      abs s' = (abs s)(jr_JTI r \<mapsto> view_of keep r)"
    and check: "inv s \<Longrightarrow> js_IsActive ops now j s = Inr (view_active now (abs s j))"
    and revoke: "inv s \<Longrightarrow> \<exists>s'. js_RevokeAllActive ops now s = (None, s') \<and> inv s' \<and>
      abs s' = (\<lambda>j. map_option (revoke_view now) (abs s j))"
    and cleanup: "inv s \<Longrightarrow> \<exists>s'. js_CleanupExpired ops cutoff s = (None, s') \<and> inv s' \<and>
      abs s' = (\<lambda>j. cleanup_view cutoff (abs s j))"
begin

lemma revoke_active:
  "now \<le> t \<Longrightarrow> \<not> view_active t (map_option (revoke_view now) v)"
  by (cases v) (auto simp: view_active_def revoke_view_def)

lemma cleanup_active: "cutoff \<le> t \<Longrightarrow> view_active t (cleanup_view cutoff v) \<longleftrightarrow> view_active t v"
  by (cases v) (auto simp: view_active_def cleanup_view_def)

text \<open>After a rotation the new token is active until it expires, and of the others those that were, unless they are revoked.\<close>

lemma rotate_active:
  assumes "inv s" "Issue sign jti i now iss = Inr r"
  obtains s' where "Rotate sign ops iss cfg jti i now s = (None, s')" "inv s'"
    "abs s' jti = None \<or> abs s' jti = Some (view_of keep r)"
    "\<And>t j. now \<le> t \<Longrightarrow> view_active t (abs s' j) \<longleftrightarrow>
       (if j = jti then t < keep (now + is_TTL iss) else \<not> rc_RevokePrevious cfg \<and> view_active t (abs s j))"
proof -
  have r: "jr_JTI r = jti" "jr_ExpiresAt r = now + is_TTL iss" "jr_Revoked r = False"
    using assms(2) by (auto simp: Issue_def Let_def split: if_splits sum.splits)
  obtain s1 where s1: "(if rc_RevokePrevious cfg then js_RevokeAllActive ops now s else (None, s)) = (None, s1)"
    "inv s1" "\<And>t j. now \<le> t \<Longrightarrow> view_active t (abs s1 j) \<longleftrightarrow> \<not> rc_RevokePrevious cfg \<and> view_active t (abs s j)"
  proof (cases "rc_RevokePrevious cfg")
    case True
    from revoke [OF assms(1), of now] obtain s1 where "js_RevokeAllActive ops now s = (None, s1)" "inv s1"
      "abs s1 = (\<lambda>j. map_option (revoke_view now) (abs s j))" by blast
    with True revoke_active show ?thesis by (intro that [of s1]) auto
  next
    case False
    with assms(1) show ?thesis by (intro that [of s]) auto
  qed
  from save [OF s1(2), of r] obtain s2 where s2: "js_Save ops r s1 = (None, s2)" "inv s2"
    "abs s2 = (abs s1)(jti \<mapsto> view_of keep r)" by (auto simp: r)
  have act: "view_active t (abs s2 j) \<longleftrightarrow>
      (if j = jti then t < keep (now + is_TTL iss) else \<not> rc_RevokePrevious cfg \<and> view_active t (abs s j))"
    if "now \<le> t" for t j
    using s1(3) [OF that] by (simp add: s2(3)) (simp add: view_active_def view_of_def r)
  show ?thesis
  proof (cases "rc_CleanupRetention cfg > 0")
    case True
    from cleanup [OF s2(2), of "now - rc_CleanupRetention cfg"] obtain s3 where
      s3: "js_CleanupExpired ops (now - rc_CleanupRetention cfg) s2 = (None, s3)" "inv s3"
        "abs s3 = (\<lambda>j. cleanup_view (now - rc_CleanupRetention cfg) (abs s2 j))" by blast
    have "view_active t (abs s3 j) \<longleftrightarrow> view_active t (abs s2 j)" if "now \<le> t" for t j
      using that True by (simp add: s3(3) cleanup_active)
    moreover have "abs s3 jti = None \<or> abs s3 jti = Some (view_of keep r)"
      by (auto simp: s3(3) s2(3) cleanup_view_def)
    ultimately show ?thesis using act True s1 s2 s3 by (intro that [of s3]) (auto simp: Rotate_def assms(2))
  next
    case False
    with act s1 s2 show ?thesis by (intro that [of s2]) (auto simp: Rotate_def assms(2))
  qed
qed

lemma validate_active:
  assumes "inv s" "Validate parse ops v now raw_token s = Inr c"
  shows "view_active now (abs s (cl_ID c))"
  using assms check [OF assms(1)] by (auto simp: Validate_def split: if_splits sum.splits)

text \<open>Whatever the JWT library accepts, after a revoking rotation only the new id passes.\<close>

lemma only_newest:
  assumes "inv s" "rc_RevokePrevious cfg" "Rotate sign ops iss cfg jti i now s = (None, s')" "now \<le> t"
    and "Validate parse ops v t raw_token s' = Inr c"
  shows "cl_ID c = jti \<and> t < now + is_TTL iss"
proof -
  obtain r where r: "Issue sign jti i now iss = Inr r"
  proof (cases "Issue sign jti i now iss")
    case (Inl e)
    then have False using assms(2,3) revoke [OF assms(1), of now] by (auto simp: Rotate_def)
    then show ?thesis ..
  qed (auto intro: that)
  from rotate_active [OF assms(1) r, of cfg] obtain s2 where
    s2: "Rotate sign ops iss cfg jti i now s = (None, s2)" "inv s2"
    and act: "\<And>t j. now \<le> t \<Longrightarrow> view_active t (abs s2 j) \<longleftrightarrow>
       (if j = jti then t < keep (now + is_TTL iss) else \<not> rc_RevokePrevious cfg \<and> view_active t (abs s j))" by metis
  from s2(1) assms(3) have "s' = s2" by simp
  with validate_active [OF s2(2)] assms(5) have "view_active t (abs s2 (cl_ID c))" by blast
  then show ?thesis using act [OF assms(4)] assms(2) keep_le [of "now + is_TTL iss"] by (auto split: if_splits)
qed

text \<open>A rotation that fails after revoking leaves no token that passes.\<close>

lemma revoked_none:
  assumes "inv s" "js_RevokeAllActive ops now s = (None, s')" "now \<le> t"
  shows "Validate parse ops v t raw_token s' \<noteq> Inr c"
proof
  assume v: "Validate parse ops v t raw_token s' = Inr c"
  from revoke [OF assms(1), of now] assms(2) have "inv s'" "abs s' = (\<lambda>j. map_option (revoke_view now) (abs s j))"
    by auto
  with validate_active [OF this(1) v] revoke_active [OF assms(3)] show False by simp
qed

text \<open>Any sequence of changes has the same meaning in every store.\<close>

lemma run_store_abs:
  "inv s \<Longrightarrow> inv (run_store ops xs s) \<and> abs (run_store ops xs s) = run_views keep xs (abs s)"
proof (induction xs arbitrary: s)
  case (Cons x xs)
  show ?case
  proof (cases x)
    case (SaveOp r)
    with save [OF Cons.prems, of r] Cons.IH show ?thesis by (auto simp: fun_upd_def)
  next
    case (RevokeOp now)
    with revoke [OF Cons.prems, of now] Cons.IH show ?thesis by auto
  next
    case (CleanupOp cutoff)
    with cleanup [OF Cons.prems, of cutoff] Cons.IH show ?thesis by auto
  qed
qed simp

end

subsection \<open>The two stores\<close>


lemma revoke_commutes:
  "view_of (\<lambda>t. t) (if \<not> jr_Revoked r \<and> now < jr_ExpiresAt r then r\<lparr>jr_Revoked := True\<rparr> else r) =
     revoke_view now (view_of (\<lambda>t. t) r)"
  by (simp add: view_of_def revoke_view_def view_active_def)


definition no_faults :: jwt_faults where
  "no_faults = \<lparr>jf_save = None, jf_check = None, jf_revoke = None, jf_latest = None, jf_cleanup = None\<rparr>"

text \<open>The schema's UNIQUE constraint and the precision of its times.\<close>

definition pg_inv :: "jwt_table \<Rightarrow> bool" where
  "pg_inv db \<longleftrightarrow> distinct (map jr_JTI db) \<and> (\<forall>r \<in> set db. pg_time (jr_ExpiresAt r) = jr_ExpiresAt r)"

definition row_for :: "string \<Rightarrow> jwt_table \<Rightarrow> jwt_record option" where
  "row_for j db = find (\<lambda>r. jr_JTI r = j) db"

definition pg_abs :: "jwt_table \<Rightarrow> string \<rightharpoonup> jwt_view" where
  "pg_abs db = (\<lambda>j. map_option (view_of (\<lambda>t. t)) (row_for j db))"

lemma row_for_simps [simp]:
  "row_for j [] = None" "row_for j (r # rs) = (if jr_JTI r = j then Some r else row_for j rs)"
  by (simp_all add: row_for_def)

lemma pg_time_le: "pg_time t \<le> t" "t - 1000 < pg_time t"
  by (simp_all add: pg_time_def)

lemma pg_time_idem [simp]: "pg_time (pg_time t) = pg_time t"
  by (simp add: pg_time_def)

lemma pg_time_cut: "pg_time e = e \<Longrightarrow> e \<le> pg_time t \<longleftrightarrow> e \<le> t"
proof -
  assume e: "pg_time e = e"
  define q r m where "q = t div 1000" and "r = t mod 1000" and "m = e div 1000"
  have "t = q * 1000 + r" "0 \<le> r" "r < 1000"
    by (simp_all add: q_def r_def)
  moreover have "e = m * 1000" using e by (simp add: pg_time_def m_def)
  moreover have "pg_time t = q * 1000" by (simp add: pg_time_def q_def)
  ultimately have "e \<le> pg_time t \<longleftrightarrow> m \<le> q" "m \<le> q \<Longrightarrow> e \<le> t" "q + 1 \<le> m \<Longrightarrow> t < e"
    by linarith+
  then show ?thesis by linarith
qed

lemma view_of_ID [simp]: "view_of keep (r\<lparr>jr_ID := i\<rparr>) = view_of keep r"
  by (simp add: view_of_def)

lemma upsert_row_for:
  "map_option (view_of (\<lambda>t. t)) (row_for j (upsert_jwt r db)) =
     (if j = jr_JTI r then Some (view_of (\<lambda>t. t) r) else map_option (view_of (\<lambda>t. t)) (row_for j db))"
  by (induction db) auto

lemma upsert_keys: "set (map jr_JTI (upsert_jwt r db)) = insert (jr_JTI r) (set (map jr_JTI db))"
  by (induction db) auto

lemma upsert_distinct: "distinct (map jr_JTI db) \<Longrightarrow> distinct (map jr_JTI (upsert_jwt r db))"
  using upsert_keys by (induction db) auto

lemma upsert_times:
  "pg_time (jr_ExpiresAt r) = jr_ExpiresAt r \<Longrightarrow> \<forall>q \<in> set db. pg_time (jr_ExpiresAt q) = jr_ExpiresAt q \<Longrightarrow>
     \<forall>q \<in> set (upsert_jwt r db). pg_time (jr_ExpiresAt q) = jr_ExpiresAt q"
  by (induction db) auto

lemma row_for_map: "(\<And>r. jr_JTI (f r) = jr_JTI r) \<Longrightarrow> row_for j (map f db) = map_option f (row_for j db)"
  by (induction db) auto

lemma row_for_None: "row_for j db = None \<longleftrightarrow> j \<notin> jr_JTI ` set db"
  by (induction db) auto

lemma row_for_filter:
  "distinct (map jr_JTI db) \<Longrightarrow>
     row_for j (filter P db) = (case row_for j db of None \<Rightarrow> None | Some r \<Rightarrow> if P r then Some r else None)"
proof (induction db)
  case (Cons r db)
  moreover from Cons.prems have "row_for (jr_JTI r) db = None" by (simp add: row_for_None)
  ultimately show ?case by auto
qed simp

lemma row_for_ex:
  "distinct (map jr_JTI db) \<Longrightarrow>
     list_ex (\<lambda>r. jr_JTI r = j \<and> P r) db \<longleftrightarrow> (case row_for j db of None \<Rightarrow> False | Some r \<Rightarrow> P r)"
proof (induction db)
  case (Cons r db)
  moreover from Cons.prems have "row_for (jr_JTI r) db = None" by (simp add: row_for_None)
  ultimately show ?case by auto
qed simp

lemma pg_row_simps [simp]:
  "jr_JTI (pg_row r) = jr_JTI r" "jr_ExpiresAt (pg_row r) = pg_time (jr_ExpiresAt r)"
  "view_of (\<lambda>t. t) (pg_row r) = view_of pg_time r"
  by (simp_all add: pg_row_def view_of_def)

lemma pg_save:
  assumes "pg_inv db"
  shows "pg_inv (upsert_jwt (pg_row r) db)"
    "pg_abs (upsert_jwt (pg_row r) db) = (pg_abs db)(jr_JTI r \<mapsto> view_of pg_time r)"
proof -
  show "pg_inv (upsert_jwt (pg_row r) db)"
    using assms unfolding pg_inv_def by (intro conjI upsert_distinct upsert_times) simp_all
  show "pg_abs (upsert_jwt (pg_row r) db) = (pg_abs db)(jr_JTI r \<mapsto> view_of pg_time r)"
    by (rule ext) (simp add: pg_abs_def upsert_row_for)
qed

definition revoke_row :: "time \<Rightarrow> jwt_record \<Rightarrow> jwt_record" where
  "revoke_row now r = (if \<not> jr_Revoked r \<and> now < jr_ExpiresAt r then r\<lparr>jr_Revoked := True\<rparr> else r)"

lemma revoke_row_keeps [simp]:
  "jr_JTI (revoke_row now r) = jr_JTI r" "jr_ExpiresAt (revoke_row now r) = jr_ExpiresAt r"
  by (simp_all add: revoke_row_def)

lemma pg_revoke:
  assumes "pg_inv db"
  shows "pg_inv (map (revoke_row now) db)"
    "pg_abs (map (revoke_row now) db) = (\<lambda>j. map_option (revoke_view now) (pg_abs db j))"
proof -
  have "map jr_JTI (map (revoke_row now) db) = map jr_JTI db" by simp
  then show "pg_inv (map (revoke_row now) db)" using assms by (simp add: pg_inv_def del: map_map)
  have "view_of (\<lambda>t. t) (revoke_row now r) = revoke_view now (view_of (\<lambda>t. t) r)" for r
    using revoke_commutes by (simp add: revoke_row_def)
  then show "pg_abs (map (revoke_row now) db) = (\<lambda>j. map_option (revoke_view now) (pg_abs db j))"
    by (simp add: pg_abs_def row_for_map option.map_comp o_def)
qed

lemma pg_cleanup:
  assumes "pg_inv db"
  shows "pg_inv (filter (\<lambda>r. \<not> jr_ExpiresAt r \<le> pg_time cutoff) db)"
    "pg_abs (filter (\<lambda>r. \<not> jr_ExpiresAt r \<le> pg_time cutoff) db) = (\<lambda>j. cleanup_view cutoff (pg_abs db j))"
proof -
  have eq: "filter (\<lambda>r. \<not> jr_ExpiresAt r \<le> pg_time cutoff) db = filter (\<lambda>r. cutoff < jr_ExpiresAt r) db"
    using assms by (intro filter_cong) (auto simp: pg_inv_def pg_time_cut not_le)
  show "pg_inv (filter (\<lambda>r. \<not> jr_ExpiresAt r \<le> pg_time cutoff) db)"
    using assms by (auto simp: pg_inv_def distinct_map_filter)
  show "pg_abs (filter (\<lambda>r. \<not> jr_ExpiresAt r \<le> pg_time cutoff) db) = (\<lambda>j. cleanup_view cutoff (pg_abs db j))"
    using assms unfolding eq
    by (auto simp: pg_inv_def pg_abs_def fun_eq_iff row_for_filter cleanup_view_def view_of_def split: option.split)
qed

interpretation pg: jwt_store "postgres_ops no_faults" pg_inv pg_abs pg_time
proof (unfold_locales, goal_cases)
  case (1 t)
  show ?case by (rule pg_time_le)
next
  case (2 t)
  show ?case by (rule pg_time_le)
next
  case (3 s r)
  then show ?case using pg_save by (simp add: postgres_ops_def no_faults_def pg_Save_def)
next
  case (4 s now j)
  then show ?case
    by (auto simp: postgres_ops_def no_faults_def pg_IsActive_def pg_abs_def view_active_def view_of_def
        pg_inv_def row_for_ex split: option.split)
next
  case (5 s now)
  then show ?case using pg_revoke [of s now]
    by (simp add: postgres_ops_def no_faults_def pg_RevokeAllActive_def revoke_row_def [abs_def])
next
  case (6 s cutoff)
  then show ?case using pg_cleanup [of s cutoff]
    by (simp add: postgres_ops_def no_faults_def pg_CleanupExpired_def)
qed

subsection \<open>Properties\<close>

text \<open>
  What the gateway relies on of the JWT library: a token signed with a secret is not empty, and parsing
  it with that secret, issuer and subject, between its times at the precision of a second, gives
  valid claims with its id.
\<close>

definition accepts_own :: "jwt_sign \<Rightarrow> jwt_parse \<Rightarrow> bool" where
  "accepts_own sign parse \<longleftrightarrow>
     (\<forall>secret c tok key now. sign secret c = Inr tok \<longrightarrow> key ''HS256'' = Inr secret \<longrightarrow>
        cl_NotBefore c \<le> now \<longrightarrow> now < cl_ExpiresAt c div second * second \<longrightarrow>
        tok \<noteq> [] \<and> (\<exists>c'. parse key (cl_Issuer c) (cl_Subject c) now tok = Inr (c', True) \<and> cl_ID c' = cl_ID c))"

lemma pg_time_second: "x div second * second \<le> pg_time x"
proof -
  have "pg_time (x div second * second) = x div second * second"
    by (simp add: pg_time_def second_def mult.commute [of _ 1000000000] div_mult2_eq [symmetric])
  then have "x div second * second \<le> pg_time x \<longleftrightarrow> x div second * second \<le> x" by (rule pg_time_cut)
  then show ?thesis by (simp add: second_def)
qed

lemma newest_validates:
  assumes "pg_inv db" "rc_RevokePrevious cfg"
    and "Rotate sign (postgres_ops no_faults) iss cfg jti i now db = (None, db')" "now \<le> t"
    and "Validate parse (postgres_ops f) v t raw_token db' = Inr c"
  shows "cl_ID c = jti \<and> t < now + is_TTL iss"
proof -
  have "Validate parse (postgres_ops no_faults) v t raw_token db' = Inr c"
    using assms(5) by (auto simp: Validate_def postgres_ops_def pg_IsActive_def no_faults_def
        split: if_splits sum.splits option.splits)
  with pg.only_newest [OF assms(1,2,3,4)] show ?thesis by blast
qed

text \<open>
  After a rotation with \<open>revoke_previous\<close> only the new token opens the admin API. Whatever the JWT
  library accepts, from the time of the rotation on a token that validates against the PostgreSQL
  store carries the new id and has not outlived the TTL; later failures of the database only refuse
  more.
\<close>

lemma only_newest_validates:
  assumes "pg_inv db" "rc_RevokePrevious cfg"
    and "Rotate sign (postgres_ops no_faults) iss cfg jti i now db = (None, db')" "now \<le> t"
    and "Validate parse (postgres_ops f) v t raw_token db' = Inr c"
  shows "cl_ID c = jti \<and> t < now + is_TTL iss"
  using assms by (rule newest_validates)

text \<open>
  A rotated token works. With a JWT library that accepts its own tokens, a validator with the
  issuer's secret, issuer and subject accepts the stored token from the rotation until the second in
  which it expires.
\<close>

lemma rotated_token_validates:
  assumes "accepts_own sign parse" "pg_inv db" "jti \<noteq> []"
    and "Rotate sign (postgres_ops no_faults) iss cfg jti i now db = (None, db')"
    and "v = \<lparr>va_Secret = is_Secret iss, va_Issuer = is_Issuer iss, va_Subject = is_Subject iss\<rparr>"
    and "now \<le> t" "t < (now + is_TTL iss) div second * second"
  shows "\<exists>r c. row_for jti db' = Some r \<and>
    Validate parse (postgres_ops no_faults) v t (jr_Token r) db' = Inr c \<and> cl_ID c = jti"
proof -
  have ops: "js_RevokeAllActive (postgres_ops no_faults) now db = (None, map (revoke_row now) db)"
    by (simp add: postgres_ops_def no_faults_def pg_RevokeAllActive_def revoke_row_def [abs_def])
  obtain r where r: "Issue sign jti i now iss = Inr r"
    using assms(4) by (cases "Issue sign jti i now iss") (auto simp: Rotate_def ops split: if_splits)
  then obtain claims where sign: "sign (is_Secret iss) claims = Inr (jr_Token r)"
    and claims: "claims = \<lparr>cl_ID = jti, cl_Issuer = is_Issuer iss, cl_Subject = is_Subject iss, cl_IssuedAt = now,
        cl_ExpiresAt = now + is_TTL iss, cl_NotBefore = now\<rparr>"
    by (auto simp: Issue_def Let_def split: if_splits sum.splits)
  from pg.rotate_active [OF assms(2) r, of cfg] assms(4)
  have inv: "pg_inv db'" and abs: "pg_abs db' jti = None \<or> pg_abs db' jti = Some (view_of pg_time r)"
    and act: "view_active t (pg_abs db' jti) \<longleftrightarrow> t < pg_time (now + is_TTL iss)"
    using assms(6) by (metis Pair_inject)+
  have active: "view_active t (pg_abs db' jti)"
    using act assms(7) pg_time_second [of "now + is_TTL iss"] by simp
  then have "pg_abs db' jti = Some (view_of pg_time r)" using abs by (auto simp: view_active_def)
  then obtain q where q: "row_for jti db' = Some q" "jr_Token q = jr_Token r"
    by (auto simp: pg_abs_def view_of_def)
  have "jr_Token r \<noteq> [] \<and> (\<exists>c'. parse (keyfunc (is_Secret iss)) (is_Issuer iss) (is_Subject iss) t (jr_Token r) =
      Inr (c', True) \<and> cl_ID c' = jti)"
    using assms(1) [unfolded accepts_own_def, rule_format, OF sign, of "keyfunc (is_Secret iss)" t] assms(6,7)
    by (simp add: claims keyfunc_def)
  then obtain c where "jr_Token r \<noteq> []" "cl_ID c = jti"
    "parse (keyfunc (is_Secret iss)) (is_Issuer iss) (is_Subject iss) t (jr_Token r) = Inr (c, True)" by blast
  then have "Validate parse (postgres_ops no_faults) v t (jr_Token q) db' = Inr c"
    using pg.check [OF inv, of t jti] active assms(3,5) by (simp add: Validate_def q(2))
  with q(1) \<open>cl_ID c = jti\<close> show ?thesis by blast
qed

text \<open>A toy JWT library, whose token is the letter \<open>t\<close> and the id, and an issuer and configuration.\<close>

definition sample_sign :: jwt_sign where
  "sample_sign secret c = Inr (''t'' @ cl_ID c)"

definition sample_parse :: jwt_parse where
  "sample_parse key iss sub now tok =
     (case key ''HS256'' of
        Inl e \<Rightarrow> Inl e
      | Inr secret \<Rightarrow>
          Inr (\<lparr>cl_ID = drop 1 tok, cl_Issuer = iss, cl_Subject = sub, cl_IssuedAt = 0,
            cl_ExpiresAt = 0, cl_NotBefore = 0\<rparr>, True))"

lemma sample_accepts_own: "accepts_own sample_sign sample_parse"
  by (auto simp: accepts_own_def sample_sign_def sample_parse_def)

definition sample_issuer :: issuer where
  "sample_issuer = \<lparr>is_Secret = ''s'', is_Issuer = ''gw'', is_Subject = ''admin'', is_TTL = 3600000000000\<rparr>"

definition sample_rotation :: rotator_config where
  "sample_rotation =
     \<lparr>rc_Every = 1, rc_OnStart = True, rc_RevokePrevious = True, rc_CleanupRetention = 0, rc_LogToken = False\<rparr>"

definition sample_row :: "string \<Rightarrow> time \<Rightarrow> jwt_record" where
  "sample_row jti issued =
     \<lparr>jr_ID = ''i'', jr_JTI = jti, jr_Token = ''t'' @ jti, jr_Subject = ''admin'', jr_IssuedAt = issued,
      jr_ExpiresAt = issued + 3600000000000, jr_Revoked = False\<rparr>"

lemma sample_rotate:
  "Rotate sample_sign (postgres_ops no_faults) sample_issuer sample_rotation ''new'' ''i'' 5000000000 [sample_row ''old'' 0] =
     (None, [(sample_row ''old'' 0)\<lparr>jr_Revoked := True\<rparr>, sample_row ''new'' 5000000000])"
  by (simp add: Rotate_def Issue_def sample_issuer_def sample_rotation_def sample_row_def sample_sign_def
      postgres_ops_def no_faults_def pg_RevokeAllActive_def pg_Save_def pg_row_def pg_time_def)

lemma sample_table_inv: "pg_inv [sample_row ''old'' 0]"
  by (simp add: pg_inv_def sample_row_def pg_time_def)

definition sample_validator :: validator where
  "sample_validator = \<lparr>va_Secret = ''s'', va_Issuer = ''gw'', va_Subject = ''admin''\<rparr>"

lemma rotated_token_validates_example:
  "\<exists>r c. row_for ''new'' [(sample_row ''old'' 0)\<lparr>jr_Revoked := True\<rparr>, sample_row ''new'' 5000000000] = Some r \<and>
    Validate sample_parse (postgres_ops no_faults) sample_validator 6000000000 (jr_Token r)
      [(sample_row ''old'' 0)\<lparr>jr_Revoked := True\<rparr>, sample_row ''new'' 5000000000] = Inr c \<and> cl_ID c = ''new''"
  by (rule rotated_token_validates [OF sample_accepts_own sample_table_inv _ sample_rotate])
    (simp_all add: sample_validator_def sample_issuer_def second_def)

lemma only_newest_validates_example:
  "Validate sample_parse (postgres_ops no_faults) sample_validator 6000000000 ''told''
     [(sample_row ''old'' 0)\<lparr>jr_Revoked := True\<rparr>, sample_row ''new'' 5000000000] = Inl ''token revoked or not found'' \<and>
   (6000000000 :: time) < 5000000000 + is_TTL sample_issuer"
proof -
  let ?db = "[(sample_row ''old'' 0)\<lparr>jr_Revoked := True\<rparr>, sample_row ''new'' 5000000000]"
  obtain c where c: "Validate sample_parse (postgres_ops no_faults) sample_validator 6000000000 ''tnew'' ?db = Inr c"
    by (simp add: Validate_def sample_parse_def keyfunc_def sample_validator_def postgres_ops_def no_faults_def
        pg_IsActive_def sample_row_def)
  have "rc_RevokePrevious sample_rotation" by (simp add: sample_rotation_def)
  from only_newest_validates [OF sample_table_inv this sample_rotate _ c]
  have "(6000000000 :: time) < 5000000000 + is_TTL sample_issuer" by simp
  then show ?thesis
    by (simp add: Validate_def sample_parse_def keyfunc_def sample_validator_def postgres_ops_def no_faults_def
        pg_IsActive_def sample_row_def)
qed

text \<open>
  C37: a rotation that fails half way locks every administrator out. The old tokens are revoked before
  the new one is issued and saved: if issuing fails, or the database refuses the new row, then no
  token at all validates afterwards, until a later rotation succeeds.
\<close>

theorem failed_rotation_locks_out:
  assumes "pg_inv db" "rc_RevokePrevious cfg" "jf_revoke f = None"
    and "(\<exists>e. Issue sign jti i now iss = Inl e) \<or> (\<exists>e. jf_save f = Some e)" "now \<le> t"
  shows "Validate parse (postgres_ops g) v t raw_token (snd (Rotate sign (postgres_ops f) iss cfg jti i now db)) \<noteq> Inr c"
proof -
  let ?db = "map (revoke_row now) db"
  have rot: "snd (Rotate sign (postgres_ops f) iss cfg jti i now db) = ?db"
    using assms(2-4)
    by (auto simp: Rotate_def postgres_ops_def pg_RevokeAllActive_def pg_Save_def revoke_row_def [abs_def] split: sum.split)
  have "js_RevokeAllActive (postgres_ops no_faults) now db = (None, ?db)"
    by (simp add: postgres_ops_def no_faults_def pg_RevokeAllActive_def revoke_row_def [abs_def])
  from pg.revoked_none [OF assms(1) this assms(5)]
  have none: "Validate parse (postgres_ops no_faults) v t raw_token ?db \<noteq> Inr c" .
  show ?thesis
  proof
    assume "Validate parse (postgres_ops g) v t raw_token (snd (Rotate sign (postgres_ops f) iss cfg jti i now db)) = Inr c"
    then have "Validate parse (postgres_ops no_faults) v t raw_token ?db = Inr c"
      unfolding rot by (auto simp: Validate_def postgres_ops_def pg_IsActive_def no_faults_def
          split: if_splits sum.splits option.splits)
    with none show False ..
  qed
qed

theorem failed_rotation_locks_out_witness:
  "\<forall>c. Validate sample_parse (postgres_ops no_faults) sample_validator 6000000000 ''told''
     (snd (Rotate sample_sign (postgres_ops (no_faults\<lparr>jf_save := Some ''disk full''\<rparr>)) sample_issuer sample_rotation
       ''new'' ''i'' 5000000000 [sample_row ''old'' 0])) \<noteq> Inr c"
  by (intro allI failed_rotation_locks_out [OF sample_table_inv])
    (simp_all add: sample_rotation_def no_faults_def)





end
