(* ===== verification/Jsonrpc.thy ===== *)
theory Jsonrpc
  imports Json_Lemmas
begin

section \<open>JSON-RPC messages: \<open>internal/jsonrpc\<close>\<close>

text \<open>
  The views of requests, responses and notifications that the gateway decodes, and the functions
  that read them. A \<open>json.RawMessage\<close> is its text, empty when the field was never assigned; a
  pointer to one is an option. The parameter \<open>jerr\<close> is the text of the error that
  \<open>json.Unmarshal\<close> gives on a body it refuses.
\<close>

subsection \<open>The decoded structs\<close>

record rpc_request =
  rq_Method :: string
  rq_ID :: string

record rpc_response =
  rs_Error :: "string option"
  rs_ID :: string

definition assign_request :: "rpc_request \<Rightarrow> string \<Rightarrow> jval \<Rightarrow> rpc_request option" where
  "assign_request q k v =
     (if is_field ''method'' k then map_option (\<lambda>m. q\<lparr>rq_Method := m\<rparr>) (dec_string (rq_Method q) v)
      else if is_field ''id'' k then Some (q\<lparr>rq_ID := raw v\<rparr>)
      else Some q)"

definition dec_request :: "jval \<Rightarrow> rpc_request option" where
  "dec_request = dec_struct assign_request \<lparr>rq_Method = [], rq_ID = []\<rparr>"

definition assign_response :: "rpc_response \<Rightarrow> string \<Rightarrow> jval \<Rightarrow> rpc_response option" where
  "assign_response s k v =
     (if is_field ''error'' k then Some (s\<lparr>rs_Error := (if v = JNull then None else Some (raw v))\<rparr>)
      else if is_field ''id'' k then Some (s\<lparr>rs_ID := raw v\<rparr>)
      else Some s)"

definition dec_response :: "jval \<Rightarrow> rpc_response option" where
  "dec_response = dec_struct assign_response \<lparr>rs_Error = None, rs_ID = []\<rparr>"

subsection \<open>The methods of a request\<close>

text \<open>The loop over a batch, from index \<open>i\<close>.\<close>

fun batch_methods :: "nat \<Rightarrow> rpc_request list \<Rightarrow> string + string list" where
  "batch_methods i [] = Inr []"
| "batch_methods i (item # batch) =
     (if rq_Method item = [] then Inl (''batch['' @ show_nat i @ '']: missing method'')
      else
        (case batch_methods (Suc i) batch of
           Inl e \<Rightarrow> Inl e
         | Inr methods \<Rightarrow> Inr (rq_Method item # methods)))"

definition ParseMethods :: "(string \<Rightarrow> string) \<Rightarrow> string \<Rightarrow> string + string list" where
  "ParseMethods jerr body =
     (let body = trim_space body
      in if length body = 0 then Inl ''empty body''
         else if hd body = CHR ''['' then
           (case unmarshal (dec_slice dec_request) body of
              None \<Rightarrow> Inl (''invalid json-rpc batch: '' @ jerr body)
            | Some batch \<Rightarrow>
                if length batch = 0 then Inl ''empty json-rpc batch'' else batch_methods 0 batch)
         else
           (case unmarshal dec_request body of
              None \<Rightarrow> Inl (''invalid json-rpc request: '' @ jerr body)
            | Some single \<Rightarrow>
                if rq_Method single = [] then Inl ''missing method'' else Inr [rq_Method single]))"

subsection \<open>Counting results\<close>

fun count_results :: "rpc_response list \<Rightarrow> int \<Rightarrow> int \<Rightarrow> int \<times> int" where
  "count_results [] success errors = (success, errors)"
| "count_results (item # batch) success errors =
     (if rs_Error item = None then count_results batch (success + 1) errors
      else count_results batch success (errors + 1))"

definition CountResults :: "string \<Rightarrow> int \<times> int" where
  "CountResults body =
     (let body = trim_space body
      in if length body = 0 then (0, 0)
         else if hd body = CHR ''['' then
           (case unmarshal (dec_slice dec_response) body of
              None \<Rightarrow> (0, 0)
            | Some batch \<Rightarrow> count_results batch 0 0)
         else
           (case unmarshal dec_response body of
              None \<Rightarrow> (0, 0)
            | Some single \<Rightarrow> if rs_Error single = None then (1, 0) else (0, 1)))"

definition CountSuccess :: "string \<Rightarrow> int" where
  "CountSuccess body = fst (CountResults body)"

subsection \<open>Messages on a WebSocket\<close>

datatype message_kind = KindRequest | KindResponse | KindNotification | KindUnknown

record envelope =
  en_JSONRPC :: string
  en_Method :: string
  en_ID :: string
  en_Error :: string
  en_Result :: string
  en_Params :: string

definition assign_envelope :: "envelope \<Rightarrow> string \<Rightarrow> jval \<Rightarrow> envelope option" where
  "assign_envelope e k v =
     (if is_field ''jsonrpc'' k then map_option (\<lambda>x. e\<lparr>en_JSONRPC := x\<rparr>) (dec_string (en_JSONRPC e) v)
      else if is_field ''method'' k then map_option (\<lambda>x. e\<lparr>en_Method := x\<rparr>) (dec_string (en_Method e) v)
      else if is_field ''id'' k then Some (e\<lparr>en_ID := raw v\<rparr>)
      else if is_field ''error'' k then Some (e\<lparr>en_Error := raw v\<rparr>)
      else if is_field ''result'' k then Some (e\<lparr>en_Result := raw v\<rparr>)
      else if is_field ''params'' k then Some (e\<lparr>en_Params := raw v\<rparr>)
      else Some e)"

definition dec_envelope :: "jval \<Rightarrow> envelope option" where
  "dec_envelope = dec_struct assign_envelope
     \<lparr>en_JSONRPC = [], en_Method = [], en_ID = [], en_Error = [], en_Result = [], en_Params = []\<rparr>"

definition has_id :: "string \<Rightarrow> bool" where
  "has_id i \<longleftrightarrow> length i > 0 \<and> i \<noteq> ''null''"

definition Classify :: "string \<Rightarrow> message_kind" where
  "Classify body =
     (let body = trim_space body
      in if length body = 0 then KindUnknown
         else if hd body = CHR ''['' then KindRequest
         else
           (case unmarshal dec_envelope body of
              None \<Rightarrow> KindUnknown
            | Some env \<Rightarrow>
                let hasID = has_id (en_ID env)
                in if en_Method env \<noteq> [] \<and> \<not> hasID then KindNotification
                   else if en_Method env \<noteq> [] \<and> hasID then KindRequest
                   else if hasID \<and> (length (en_Result env) > 0 \<or> length (en_Error env) > 0) then KindResponse
                   else if hasID then KindResponse
                   else KindUnknown))"

definition normalizeID :: "string \<Rightarrow> string" where
  "normalizeID i =
     (if length i = 0 \<or> i = ''null'' then []
      else
        (case unmarshal (dec_string []) i of
           Some s \<Rightarrow> s
         | None \<Rightarrow> (case unmarshal dec_number i of Some n \<Rightarrow> n | None \<Rightarrow> i)))"

definition firstStringParam :: "string \<Rightarrow> string" where
  "firstStringParam params =
     (if length params = 0 then []
      else
        (case unmarshal (dec_slice (\<lambda>v. Some (raw v))) params of
           None \<Rightarrow> []
         | Some arr \<Rightarrow>
             if length arr = 0 then []
             else (case unmarshal (dec_string []) (arr ! 0) of Some s \<Rightarrow> s | None \<Rightarrow> [])))"

record request_meta =
  qm_Method :: string
  qm_ID :: string
  qm_Params :: string

definition assign_request_meta :: "request_meta \<Rightarrow> string \<Rightarrow> jval \<Rightarrow> request_meta option" where
  "assign_request_meta q k v =
     (if is_field ''method'' k then map_option (\<lambda>m. q\<lparr>qm_Method := m\<rparr>) (dec_string (qm_Method q) v)
      else if is_field ''id'' k then Some (q\<lparr>qm_ID := raw v\<rparr>)
      else if is_field ''params'' k then Some (q\<lparr>qm_Params := raw v\<rparr>)
      else Some q)"

definition dec_request_meta :: "jval \<Rightarrow> request_meta option" where
  "dec_request_meta = dec_struct assign_request_meta \<lparr>qm_Method = [], qm_ID = [], qm_Params = []\<rparr>"

text \<open>The id, the method and the kind of subscription.\<close>

definition ParseRequestMeta :: "(string \<Rightarrow> string) \<Rightarrow> string \<Rightarrow> string + string \<times> string \<times> string" where
  "ParseRequestMeta jerr body =
     (let body = trim_space body
      in if length body = 0 then Inl ''empty body''
         else if hd body = CHR ''['' then Inl ''batch not supported on inspect path''
         else
           (case unmarshal dec_request_meta body of
              None \<Rightarrow> Inl (jerr body)
            | Some q \<Rightarrow>
                if qm_Method q = [] then Inl ''missing method''
                else
                  Inr (normalizeID (qm_ID q), qm_Method q,
                       if qm_Method q = ''eth_subscribe'' \<or> qm_Method q = ''eth_unsubscribe''
                       then firstStringParam (qm_Params q) else [])))"

record response_meta =
  sm_ID :: string
  sm_Error :: string
  sm_Result :: string

definition assign_response_meta :: "response_meta \<Rightarrow> string \<Rightarrow> jval \<Rightarrow> response_meta option" where
  "assign_response_meta s k v =
     (if is_field ''id'' k then Some (s\<lparr>sm_ID := raw v\<rparr>)
      else if is_field ''error'' k then Some (s\<lparr>sm_Error := raw v\<rparr>)
      else if is_field ''result'' k then Some (s\<lparr>sm_Result := raw v\<rparr>)
      else Some s)"

definition dec_response_meta :: "jval \<Rightarrow> response_meta option" where
  "dec_response_meta = dec_struct assign_response_meta \<lparr>sm_ID = [], sm_Error = [], sm_Result = []\<rparr>"

text \<open>The id, whether the call succeeded, and the result.\<close>

definition ParseResponseMeta :: "(string \<Rightarrow> string) \<Rightarrow> string \<Rightarrow> string + string \<times> bool \<times> string" where
  "ParseResponseMeta jerr body =
     (let body = trim_space body
      in if length body = 0 then Inl ''empty body''
         else
           (case unmarshal dec_response_meta body of
              None \<Rightarrow> Inl (jerr body)
            | Some s \<Rightarrow>
                let i = normalizeID (sm_ID s)
                in if length (sm_Error s) > 0 \<and> sm_Error s \<noteq> ''null'' then Inr (i, False, [])
                   else if length (sm_Result s) > 0 \<and> sm_Result s \<noteq> ''null'' then
                     let res = (case unmarshal (dec_string []) (sm_Result s) of Some r \<Rightarrow> r | None \<Rightarrow> [])
                     in Inr (i, True, if res = [] then sm_Result s else res)
                   else Inr (i, True, [])))"

record notification_params =
  np_Subscription :: string
  np_Result :: string

record notification =
  nt_Method :: string
  nt_Params :: "notification_params option"
  nt_ID :: string

definition assign_notification_params ::
  "notification_params \<Rightarrow> string \<Rightarrow> jval \<Rightarrow> notification_params option" where
  "assign_notification_params p k v =
     (if is_field ''subscription'' k
        then map_option (\<lambda>s. p\<lparr>np_Subscription := s\<rparr>) (dec_string (np_Subscription p) v)
      else if is_field ''result'' k then Some (p\<lparr>np_Result := raw v\<rparr>)
      else Some p)"

definition assign_notification :: "notification \<Rightarrow> string \<Rightarrow> jval \<Rightarrow> notification option" where
  "assign_notification n k v =
     (if is_field ''method'' k then map_option (\<lambda>m. n\<lparr>nt_Method := m\<rparr>) (dec_string (nt_Method n) v)
      else if is_field ''params'' k then
        (if v = JNull then Some (n\<lparr>nt_Params := None\<rparr>)
         else
           let p = (case nt_Params n of Some p \<Rightarrow> p | None \<Rightarrow> \<lparr>np_Subscription = [], np_Result = []\<rparr>)
           in map_option (\<lambda>p. n\<lparr>nt_Params := Some p\<rparr>) (dec_struct assign_notification_params p v))
      else if is_field ''id'' k then Some (n\<lparr>nt_ID := raw v\<rparr>)
      else Some n)"

definition dec_notification :: "jval \<Rightarrow> notification option" where
  "dec_notification = dec_struct assign_notification \<lparr>nt_Method = [], nt_Params = None, nt_ID = []\<rparr>"

text \<open>The method and the subscription id; \<open>None\<close> when the message is not a notification.\<close>

definition ParseNotification :: "string \<Rightarrow> (string \<times> string) option" where
  "ParseNotification body =
     (let body = trim_space body
      in case unmarshal dec_notification body of
           None \<Rightarrow> None
         | Some n \<Rightarrow>
             if has_id (nt_ID n) then None
             else if nt_Method n = [] then None
             else Some (nt_Method n, case nt_Params n of Some p \<Rightarrow> np_Subscription p | None \<Rightarrow> []))"

end
