(* ===== verification/Http.thy ===== *)
theory Http
  imports Jsonrpc Ratelimit Auth Balancer Stats Model
begin

section \<open>Requests, replies and the state they act on; \<open>internal/httputil\<close> and \<open>internal/filter\<close>\<close>

text \<open>
  A request is what the handlers read of it, with its context; a reply is a status, a content type and
  a body, or a panic, which the router's recoverer turns into a plain 500; \<open>Hijacked\<close> is a connection
  that the WebSocket library has taken over. The gateway's state is the
  product of the components' states, with two logs: the requests forwarded upstream and the billing
  events handed to the publisher. Handlers run one at a time in the model; everything that varies
  from call to call and is not the gateway's own (the clock, random ids, Redis, the rate library, the
  upstream nodes, the texts of library errors) is in the environment.
\<close>

subsection \<open>Requests and replies\<close>

record request =
  ht_Method :: string
  ht_Host :: string
  ht_token :: string
  ht_RemoteAddr :: string
  ht_Header :: "string \<Rightarrow> string"
  ht_Query :: "string \<Rightarrow> string"
  ht_Body :: "string + string"
  ht_ctx :: req_context

datatype reply = Reply int string string | Panic | Hijacked

definition status :: "reply \<Rightarrow> int" where
  "status r = (case r of Reply c t b \<Rightarrow> c | Panic \<Rightarrow> 500 | Hijacked \<Rightarrow> 101)"

text \<open>\<open>io.ReadAll(io.LimitReader(r, n))\<close>.\<close>

definition read_limited :: "nat \<Rightarrow> string + string \<Rightarrow> string + string" where
  "read_limited n b = (case b of Inl e \<Rightarrow> Inl e | Inr s \<Rightarrow> Inr (take n s))"

definition two_mb :: nat where "two_mb = 2097152"
definition eight_mb :: nat where "eight_mb = 8388608"

subsection \<open>Environment and state\<close>

text \<open>
  \<open>en_upstream n url body ua\<close> is the outcome of the \<open>n\<close>-th POST: a transport error, or a status with a
  body whose reading may fail. \<open>en_now\<close> is the clock when the handler starts, \<open>en_done\<close> when the
  upstream has answered. The last two fields are the WebSocket library: the message and status with
  which it refuses to upgrade a request, if it does, and whether it reaches an upstream.
\<close>

record ('l, 'r) env =
  en_now :: time
  en_done :: time
  en_uuid :: "nat \<Rightarrow> string"
  en_rops :: "'r redis_ops"
  en_lops :: "'l rate_ops"
  en_ulower :: "string \<Rightarrow> string"
  en_jerr :: "string \<Rightarrow> string"
  en_upstream :: "nat \<Rightarrow> string \<Rightarrow> string \<Rightarrow> string \<Rightarrow> string + int \<times> (string + string)"
  en_upgrade :: "request \<Rightarrow> (string \<times> int) option"
  en_dial :: "string \<Rightarrow> bool"

record ('l, 'r) gateway =
  gw_tokens :: token_store
  gw_registry :: registry
  gw_limiter :: "('l, 'r) limiter"
  gw_stats :: "collector option"
  gw_events :: "billing_event list"
  gw_forwards :: "(string \<times> string) list"

type_synonym ('l, 'r, 'z) handler = "request \<Rightarrow> ('l, 'r, 'z) gateway_scheme \<Rightarrow> reply \<times> ('l, 'r, 'z) gateway_scheme"

text \<open>\<open>if h.Stats != nil { ... }\<close>.\<close>

definition with_stats :: "(collector \<Rightarrow> collector) \<Rightarrow> ('l, 'r, 'z) gateway_scheme \<Rightarrow> ('l, 'r, 'z) gateway_scheme" where
  "with_stats f w = w\<lparr>gw_stats := map_option f (gw_stats w)\<rparr>"

lemma with_stats_simps [simp]:
  "gw_tokens (with_stats f w) = gw_tokens w" "gw_registry (with_stats f w) = gw_registry w"
  "gw_limiter (with_stats f w) = gw_limiter w" "gw_stats (with_stats f w) = map_option f (gw_stats w)"
  "gw_events (with_stats f w) = gw_events w" "gw_forwards (with_stats f w) = gw_forwards w"
  by (simp_all add: with_stats_def)

subsection \<open>Error replies\<close>

text \<open>
  The body that \<open>writeErr\<close> and \<open>writeJSONError\<close> encode: a map, whose keys the encoder sorts, and a
  newline.
\<close>

definition error_body :: "int \<Rightarrow> string \<Rightarrow> string" where
  "error_body code msg =
     dq ''{`error`:{`code`:'' @ show_int code @ dq '',`message`:'' @ json_quote msg
       @ dq ''},`id`:null,`jsonrpc`:`2.0`}'' @ [CHR 0x0A]"

definition writeErr :: "int \<Rightarrow> int \<Rightarrow> string \<Rightarrow> reply" where
  "writeErr st code msg = Reply st ''application/json'' (error_body code msg)"

definition writeJSONError :: "int \<Rightarrow> int \<Rightarrow> string \<Rightarrow> reply" where
  "writeJSONError httpStatus code msg = Reply httpStatus ''application/json'' (error_body code msg)"

lemma status_write [simp]:
  "status (writeErr st code msg) = st" "status (writeJSONError st code msg) = st"
  by (simp_all add: status_def writeErr_def writeJSONError_def)

subsection \<open>The client address\<close>

text \<open>
  The host that \<open>net.SplitHostPort\<close> returns. The port starts after the last colon; a bracketed host
  ends just before it, a plain one contains no colon; no other bracket is allowed.
\<close>

definition split_host :: "string \<Rightarrow> string option" where
  "split_host s =
     (if CHR '':'' \<notin> set s then None
      else if hd s = CHR ''['' then
        (let host = takeWhile (\<lambda>c. c \<noteq> CHR '']'') (tl s)
         in case dropWhile (\<lambda>c. c \<noteq> CHR '']'') (tl s) of
              b # c # port \<Rightarrow>
                if c = CHR '':'' \<and> CHR '':'' \<notin> set port \<and> CHR ''['' \<notin> set (tl s) \<and> CHR '']'' \<notin> set port
                then Some host else None
            | _ \<Rightarrow> None)
      else
        (let host = takeWhile (\<lambda>c. c \<noteq> CHR '':'') s; port = tl (dropWhile (\<lambda>c. c \<noteq> CHR '':'') s)
         in if CHR '':'' \<in> set port \<or> CHR ''['' \<in> set s \<or> CHR '']'' \<in> set s then None else Some host))"

definition ClientIP :: "request \<Rightarrow> string" where
  "ClientIP r =
     (let ip = trim_space (ht_Header r ''X-Real-IP'')
      in if ip \<noteq> [] then ip
         else
           let xff = ht_Header r ''X-Forwarded-For''; ip = trim_space (before (CHR '','') xff)
           in if xff \<noteq> [] \<and> ip \<noteq> [] then ip
              else (case split_host (ht_RemoteAddr r) of None \<Rightarrow> ht_RemoteAddr r | Some host \<Rightarrow> host))"

subsection \<open>The method filter\<close>

text \<open>\<open>None\<close> is a nil error.\<close>

definition CheckMethods :: "token option \<Rightarrow> string list \<Rightarrow> string option" where
  "CheckMethods token methods =
     (case token of
        None \<Rightarrow> Some ''token is nil''
      | Some t \<Rightarrow>
          let denied = filter (\<lambda>m. m \<in> tok_DeniedMethods t) methods
          in if length denied = 0 then None
             else Some (''method(s) not allowed: '' @ join '', '' denied))"

lemma CheckMethods_None:
  "CheckMethods token methods = None \<longleftrightarrow>
     (\<exists>t. token = Some t \<and> (\<forall>m \<in> set methods. m \<notin> tok_DeniedMethods t))"
  by (auto simp: CheckMethods_def filter_empty_conv Let_def split: option.splits)

end
