(* ===== verification/Middleware.thy ===== *)
theory Middleware
  imports Http
begin

section \<open>The HTTP middleware: \<open>internal/middleware\<close>\<close>

text \<open>
  Each middleware takes the next handler and gives a handler. The order in which the gateway composes
  them for a JSON-RPC request is \<open>rpc_stack\<close> in the theory of the routes. Log lines are not modelled.
\<close>

definition Domain_mw :: "('l, 'r) env \<Rightarrow> string list \<Rightarrow> ('l, 'r, 'z) handler \<Rightarrow> ('l, 'r, 'z) handler" where
  "Domain_mw e domains next = (\<lambda>r w.
     if \<not> HostAllowed (en_ulower e) domains (ht_Host r) then
       (writeErr 403 (-32010) ''host not allowed'', with_stats (IncDomainRejected (en_now e)) w)
     else next r w)"

definition PathAuth_mw :: "('l, 'r) env \<Rightarrow> ('l, 'r, 'z) handler \<Rightarrow> ('l, 'r, 'z) handler" where
  "PathAuth_mw e next = (\<lambda>r w.
     let key = trim_space (ht_token r)
     in if key = [] then
          (writeErr 401 (-32001) ''missing api token in path'', with_stats (IncAuthFailed (en_now e)) w)
        else
          (case Lookup (gw_tokens w) key of
             None \<Rightarrow> (writeErr 401 (-32001) ''invalid api token'', with_stats (IncAuthFailed (en_now e)) w)
           | Some token \<Rightarrow> next (r\<lparr>ht_ctx := WithToken (ht_ctx r) (Some token)\<rparr>) w))"

definition Chain_mw :: "string \<Rightarrow> ('l, 'r, 'z) handler \<Rightarrow> ('l, 'r, 'z) handler" where
  "Chain_mw chainID next = (\<lambda>r w. next (r\<lparr>ht_ctx := WithChainID (ht_ctx r) chainID\<rparr>) w)"

text \<open>A request without a token cannot get here; reading its key would be a nil dereference.\<close>

definition MethodFilter_mw :: "('l, 'r) env \<Rightarrow> ('l, 'r, 'z) handler \<Rightarrow> ('l, 'r, 'z) handler" where
  "MethodFilter_mw e next = (\<lambda>r w.
     case read_limited two_mb (ht_Body r) of
       Inl err \<Rightarrow> (writeErr 400 (-32700) ''parse error'', w)
     | Inr body \<Rightarrow>
         let r = r\<lparr>ht_Body := Inr body\<rparr>
         in case ParseMethods (en_jerr e) body of
              Inl err \<Rightarrow> (writeErr 400 (-32600) err, w)
            | Inr methods \<Rightarrow>
                let token = ctx_Token (ht_ctx r)
                in case CheckMethods token methods of
                     Some err \<Rightarrow>
                       (case token of
                          None \<Rightarrow> (Panic, w)
                        | Some t \<Rightarrow>
                            (writeErr 403 (-32601) err, with_stats (IncMethodDenied (en_now e) (meta_of t)) w))
                   | None \<Rightarrow> next (r\<lparr>ht_ctx := WithMethods (ht_ctx r) methods\<rparr>) w)"

definition RateLimit_mw :: "('l, 'r) env \<Rightarrow> ('l, 'r, 'z) handler \<Rightarrow> ('l, 'r, 'z) handler" where
  "RateLimit_mw e next = (\<lambda>r w.
     case ctx_Token (ht_ctx r) of
       None \<Rightarrow> (Panic, w)
     | Some token \<Rightarrow>
         let chainID = ctx_ChainID (ht_ctx r); clientIP = ClientIP r;
             (res, l) = Allow (en_rops e) (en_lops e) (en_now e) token chainID clientIP (gw_limiter w);
             w = w\<lparr>gw_limiter := l\<rparr>
         in if \<not> res_Allowed res then
              (writeErr 429 (-32005) (''rate limited: '' @ res_Reason res),
               with_stats (IncRateLimited (en_now e) (meta_of token)) w)
            else next r w)"

end
