(* ===== verification/Proxy.thy ===== *)
theory Proxy
  imports Middleware
begin

section \<open>The HTTP proxy: \<open>internal/proxy\<close>\<close>

text \<open>
  \<open>ServeHTTP\<close> with its one retry on another node, the accounting of the response, and the billing
  event. The goroutine that publishes the event is modelled by appending it to the log of events; the
  publishers of the theory Billing run on that log. The transport settings of the HTTP client are not
  modelled.
\<close>

definition set_registry :: "registry \<Rightarrow> ('l, 'r, 'z) gateway_scheme \<Rightarrow> ('l, 'r, 'z) gateway_scheme" where
  "set_registry g w = w\<lparr>gw_registry := g\<rparr>"

text \<open>\<open>pool.Next()\<close>, \<open>pool.NextWS()\<close>, \<open>pool.ReportFailure(node)\<close> and \<open>pool.ReportSuccess(node)\<close> on the network's pool.\<close>

definition pool_next :: "string \<Rightarrow> registry \<Rightarrow> pick \<times> registry" where
  "pool_next c g =
     (case rg_pools g c of
        None \<Rightarrow> (NoNode, g)
      | Some p \<Rightarrow> (case Next (rg_heap g) p of (x, p) \<Rightarrow> (x, g\<lparr>rg_pools := (rg_pools g)(c \<mapsto> p)\<rparr>)))"

definition pool_next_ws :: "string \<Rightarrow> registry \<Rightarrow> pick \<times> registry" where
  "pool_next_ws c g =
     (case rg_pools g c of
        None \<Rightarrow> (NoNode, g)
      | Some p \<Rightarrow> (case NextWS (rg_heap g) p of (x, p) \<Rightarrow> (x, g\<lparr>rg_pools := (rg_pools g)(c \<mapsto> p)\<rparr>)))"

definition pool_failure :: "string \<Rightarrow> nat \<Rightarrow> registry \<Rightarrow> registry" where
  "pool_failure c a g =
     (case rg_pools g c of None \<Rightarrow> g | Some p \<Rightarrow> g\<lparr>rg_heap := ReportFailure p a (rg_heap g)\<rparr>)"

definition pool_success :: "string \<Rightarrow> nat \<Rightarrow> registry \<Rightarrow> registry" where
  "pool_success c a g =
     (case rg_pools g c of None \<Rightarrow> g | Some p \<Rightarrow> g\<lparr>rg_heap := ReportSuccess p a (rg_heap g)\<rparr>)"

definition node_url :: "('l, 'r, 'z) gateway_scheme \<Rightarrow> nat \<Rightarrow> string" where
  "node_url w a = nd_URL (hp_node (rg_heap (gw_registry w)) a)"

text \<open>The body and the status, or an error. The log of forwards counts the calls.\<close>

definition forward ::
  "('l, 'r) env \<Rightarrow> string \<Rightarrow> string \<Rightarrow> string \<Rightarrow> ('l, 'r, 'z) gateway_scheme \<Rightarrow> (string + string \<times> int) \<times> ('l, 'r, 'z) gateway_scheme" where
  "forward e upstream body ua w =
     (let n = length (gw_forwards w); w = w\<lparr>gw_forwards := gw_forwards w @ [(upstream, body)]\<rparr>
      in case en_upstream e n upstream body ua of
           Inl err \<Rightarrow> (Inl err, w)
         | Inr (st, resp) \<Rightarrow>
             (case read_limited eight_mb resp of
                Inl err \<Rightarrow> (Inl err, w)
              | Inr respBody \<Rightarrow> (Inr (respBody, st), w)))"

text \<open>The node and the outcome after the first call and, if that failed, the retry on another node.\<close>

definition forward_retry ::
  "('l, 'r) env \<Rightarrow> string \<Rightarrow> string \<Rightarrow> string \<Rightarrow> nat \<Rightarrow> ('l, 'r, 'z) gateway_scheme
    \<Rightarrow> (nat \<times> (string + string \<times> int)) option \<times> ('l, 'r, 'z) gateway_scheme" where
  "forward_retry e chainID body ua node w =
     (case forward e (node_url w node) body ua w of
        (Inr res, w) \<Rightarrow> (Some (node, Inr res), w)
      | (Inl err, w) \<Rightarrow>
          let w = set_registry (pool_failure chainID node (gw_registry w)) w
          in case pool_next chainID (gw_registry w) of
               (Pick alt, g) \<Rightarrow>
                 let w = set_registry g w
                 in if node_url w alt \<noteq> node_url w node then
                      (case forward e (node_url w alt) body ua w of
                         (Inl err, w) \<Rightarrow> (Some (node, Inl err), w)
                       | (Inr res, w) \<Rightarrow> (Some (alt, Inr res), w))
                    else (Some (node, Inl err), w)
             | (NoNode, g) \<Rightarrow> (Some (node, Inl err), set_registry g w)
             | (Panicked, g) \<Rightarrow> (None, set_registry g w))"

definition amount_cents :: "token \<Rightarrow> bool \<Rightarrow> int \<Rightarrow> int" where
  "amount_cents token billable successN =
     (if billable \<and> tok_PricePerSuccessCents token > 0
      then wrap64 (tok_PricePerSuccessCents token * successN) else 0)"

definition http_event ::
  "('l, 'r) env \<Rightarrow> token \<Rightarrow> string \<Rightarrow> string list \<Rightarrow> int \<Rightarrow> string \<Rightarrow> string \<Rightarrow> nat \<Rightarrow> billing_event" where
  "http_event e token chainID methods successN upstream clientIP n =
     \<lparr>ev_EventID = en_uuid e n, ev_TokenKey = tok_Key token, ev_TokenName = tok_Name token,
      ev_UserID = tok_UserID token, ev_Plan = tok_Plan token, ev_ChainID = chainID, ev_Methods = methods,
      ev_SuccessN = successN, ev_Billable = \<not> tok_BillingFree token,
      ev_AmountCents = amount_cents token (\<not> tok_BillingFree token) successN,
      ev_Transport = ''http'', ev_EventKind = ''rpc'', ev_Upstream = upstream,
      ev_LatencyMs = (en_done e - en_now e) sdiv 1000000, ev_ClientIP = clientIP, ev_At = en_done e\<rparr>"

text \<open>What follows a response of the upstream: health, statistics, usage, billing, and the reply.\<close>

definition account ::
  "('l, 'r) env \<Rightarrow> token \<Rightarrow> string \<Rightarrow> string list \<Rightarrow> string \<Rightarrow> nat \<Rightarrow> string \<Rightarrow> int \<Rightarrow> ('l, 'r, 'z) gateway_scheme
    \<Rightarrow> reply \<times> ('l, 'r, 'z) gateway_scheme" where
  "account e token chainID methods clientIP node respBody st w =
     (let url = node_url w node;
          w = set_registry ((if st \<ge> 500 then pool_failure else pool_success) chainID node (gw_registry w)) w;
          reply = Reply st ''application/json'' respBody
      in if \<not> (st \<ge> 200 \<and> st < 300) \<and> st \<ge> 500 then
           (reply, with_stats (RecordProxy (en_done e) (meta_of token) chainID 0 0 True (\<not> tok_BillingFree token)) w)
         else
           let (successN, rpcErrN) = (if st \<ge> 200 \<and> st < 300 then CountResults respBody else (0, 0));
               billable = \<not> tok_BillingFree token;
               w = with_stats (RecordProxy (en_done e) (meta_of token) chainID successN rpcErrN False billable) w;
               w = (if successN > 0 then
                      w\<lparr>gw_limiter := IncrSuccess (en_rops e) (en_done e) (tok_Key token) successN (gw_limiter w),
                        gw_events := gw_events w @
                          [http_event e token chainID methods successN url clientIP (length (gw_events w))]\<rparr>
                    else w)
           in (reply, w))"

definition ServeHTTP :: "('l, 'r) env \<Rightarrow> ('l, 'r, 'z) handler" where
  "ServeHTTP e r w =
     (if ht_Method r \<noteq> ''POST'' then (writeJSONError 405 (-32600) ''only POST is allowed'', w)
      else
        let token = ctx_Token (ht_ctx r); chainID = ctx_ChainID (ht_ctx r);
            methods = ctx_Methods (ht_ctx r); clientIP = ClientIP r
        in case token of
             None \<Rightarrow> (writeJSONError 401 (-32001) ''unauthorized'', w)
           | Some t \<Rightarrow>
               if chainID = [] then (writeJSONError 401 (-32001) ''unauthorized'', w)
               else if lookup_pool (gw_registry w) chainID = None then
                 (writeJSONError 404 (-32002) ''unknown chain'', w)
               else
                 (case read_limited two_mb (ht_Body r) of
                    Inl err \<Rightarrow> (writeJSONError 400 (-32700) ''failed to read body'', w)
                  | Inr body \<Rightarrow>
                      (case pool_next chainID (gw_registry w) of
                         (Panicked, g) \<Rightarrow> (Panic, set_registry g w)
                       | (NoNode, g) \<Rightarrow>
                           (writeJSONError 502 (-32003) ''no upstream available'',
                            with_stats (RecordProxy (en_now e) (meta_of t) chainID 0 0 True False) (set_registry g w))
                       | (Pick node, g) \<Rightarrow>
                           (case forward_retry e chainID body (ht_Header r ''User-Agent'') node (set_registry g w) of
                              (None, w) \<Rightarrow> (Panic, w)
                            | (Some (node, Inl err), w) \<Rightarrow>
                                (writeJSONError 502 (-32004) ''upstream unavailable'',
                                 with_stats (RecordProxy (en_done e) (meta_of t) chainID 0 0 True False) w)
                            | (Some (node, Inr (respBody, st)), w) \<Rightarrow>
                                account e t chainID methods clientIP node respBody st w))))"

end
