(* ===== verification/Admin.thy ===== *)
theory Admin
  imports Proxy Admin_Jwt
begin

section \<open>The admin API: \<open>internal/admin\<close>\<close>

text \<open>
  The authenticated reports and the reload of the upstreams. A reply carries the value that the code
  encodes as JSON; its text is in Theory \<open>Json_Docs\<close>. The JWT store is the one of the theory \<open>Admin_Jwt\<close>; the routes and
  their token parameter are as the router matched them. Where the code ranges over a map, the order is
  part of the source \<open>admin_env\<close>, with the configuration file and the JWT library.
\<close>

datatype admin_route =
    GetStats | GetStatsTokens | GetStatsToken string | GetTokens | GetUpstreams | PostReload

datatype admin_body =
    AError string
  | AOverview overview
  | AList time int "token_snapshot list"
  | AToken token_snapshot
  | AChains "string \<rightharpoonup> node_view list"
  | AReloaded "string \<rightharpoonup> node_view list"

datatype admin_reply = AdminReply int admin_body | AdminPanic

record admin_env =
  ae_now :: time
  ae_ulower :: "string \<Rightarrow> string"
  ae_read_file :: "string \<Rightarrow> string + string"
  ae_yaml :: "string \<Rightarrow> string + config"
  ae_parse :: jwt_parse
  ae_store_order :: "string list"
  ae_stats_order :: "string list"
  ae_file_order :: "string list"
  ae_pool_order :: "string list"

text \<open>\<open>ah_Validator\<close> and \<open>ah_ConfigPath\<close> are the handler's fields that are not part of the gateway's state; \<open>None\<close> is a nil validator.\<close>

record admin_handler =
  ah_Validator :: "validator option"
  ah_ConfigPath :: string

subsection \<open>Authentication\<close>

text \<open>
  The seven bytes of the prefix are compared by simple folding, which on them is the folding of ASCII
  letters.
\<close>

definition extractBearer :: "request \<Rightarrow> string" where
  "extractBearer r =
     (let authz = ht_Header r ''Authorization''
      in if length authz \<ge> 7 \<and> map lower_char (take 7 authz) = ''bearer '' then trim_space (drop 7 authz)
         else trim_space (ht_Query r ''access_token''))"

text \<open>\<open>None\<close> lets the request through.\<close>

definition admin_auth ::
  "admin_env \<Rightarrow> 's jwt_store_ops \<Rightarrow> admin_handler \<Rightarrow> request \<Rightarrow> 's \<Rightarrow> admin_reply option" where
  "admin_auth ae ops h r s =
     (case ah_Validator h of
        None \<Rightarrow> Some (AdminReply 401 (AError ''jwt auth not configured''))
      | Some v \<Rightarrow>
          let raw_token = extractBearer r
          in if raw_token = [] then Some (AdminReply 401 (AError ''missing bearer token''))
             else
               (case Validate (ae_parse ae) ops v (ae_now ae) raw_token s of
                  Inl e \<Rightarrow> Some (AdminReply 401 (AError ''invalid or revoked jwt''))
                | Inr c \<Rightarrow> None))"

subsection \<open>Reports\<close>

text \<open>The collector, on which a nil pointer would panic.\<close>

definition on_collector ::
  "(collector \<Rightarrow> admin_reply \<times> collector) \<Rightarrow> ('l, 'r, 'z) gateway_scheme \<Rightarrow> admin_reply \<times> ('l, 'r, 'z) gateway_scheme" where
  "on_collector f w =
     (case gw_stats w of
        None \<Rightarrow> (AdminPanic, w)
      | Some c \<Rightarrow> (case f c of (x, c) \<Rightarrow> (x, w\<lparr>gw_stats := Some c\<rparr>)))"

definition overview_report ::
  "admin_env \<Rightarrow> ('l, 'r, 'z) gateway_scheme \<Rightarrow> admin_reply \<times> ('l, 'r, 'z) gateway_scheme" where
  "overview_report ae w = on_collector (\<lambda>c.
     case Snapshot (ae_now ae) (ListMeta (ae_store_order ae) (gw_tokens w)) (ae_stats_order ae) c of
       (ov, c) \<Rightarrow> (AdminReply 200 (AOverview ov), c)) w"

definition listTokens ::
  "admin_env \<Rightarrow> ('l, 'r, 'z) gateway_scheme \<Rightarrow> admin_reply \<times> ('l, 'r, 'z) gateway_scheme" where
  "listTokens ae w = on_collector (\<lambda>c.
     case Snapshot (ae_now ae) (ListMeta (ae_store_order ae) (gw_tokens w)) (ae_stats_order ae) c of
       (ov, c) \<Rightarrow> (AdminReply 200 (AList (ov_GeneratedAt ov) (ov_TokenCount ov) (ov_Tokens ov)), c)) w"

definition findMeta :: "token_meta list \<Rightarrow> string \<Rightarrow> token_meta option" where
  "findMeta list key = find (\<lambda>m. tm_Key m = key) list"

definition meta_snapshot :: "token_meta \<Rightarrow> token_snapshot" where
  "meta_snapshot m =
     \<lparr>sn_TokenKey = tm_Key m, sn_TokenName = tm_Name m, sn_Plan = tm_Plan m,
      sn_BillingFree = tm_BillingFree m, sn_Enabled = tm_Enabled m, sn_LastRequest = None,
      sn_Metrics = snapshot zero_metrics, sn_ByChain = Map.empty\<rparr>"

definition tokenStats ::
  "admin_env \<Rightarrow> string \<Rightarrow> ('l, 'r, 'z) gateway_scheme \<Rightarrow> admin_reply \<times> ('l, 'r, 'z) gateway_scheme" where
  "tokenStats ae key w = on_collector (\<lambda>c.
     let metas = ListMeta (ae_store_order ae) (gw_tokens w); c = RegisterTokens metas c
     in case TokenSnapshot key c of
          Some snap \<Rightarrow> (AdminReply 200 (AToken snap), c)
        | None \<Rightarrow>
            (case findMeta metas key of
               Some meta \<Rightarrow> (AdminReply 200 (AToken (meta_snapshot meta)), c)
             | None \<Rightarrow> (AdminReply 404 (AError ''token not found''), c))) w"

subsection \<open>Upstreams\<close>

definition upstreams ::
  "('l, 'r, 'z) gateway_scheme \<Rightarrow> admin_reply \<times> ('l, 'r, 'z) gateway_scheme" where
  "upstreams w = (AdminReply 200 (AChains (registry_snapshot (gw_registry w))), w)"

definition reloadUpstreams ::
  "admin_env \<Rightarrow> string \<Rightarrow> ('l, 'r, 'z) gateway_scheme \<Rightarrow> admin_reply \<times> ('l, 'r, 'z) gateway_scheme" where
  "reloadUpstreams ae path w =
     (if path = [] then (AdminReply 503 (AError ''reload unavailable''), w)
      else
        (case Load (ae_ulower ae) (ae_read_file ae) (ae_yaml ae) (ae_file_order ae) path of
           Inl e \<Rightarrow> (AdminReply 400 (AError e), w)
         | Inr cfg \<Rightarrow>
             (case ReloadNodes (ae_pool_order ae) (cf_Chains cfg) (gw_registry w) of
                (Some e, g) \<Rightarrow> (AdminReply 400 (AError e), set_registry g w)
              | (None, g) \<Rightarrow> (AdminReply 200 (AReloaded (registry_snapshot g)), set_registry g w))))"

subsection \<open>Routes\<close>

definition admin_dispatch ::
  "admin_env \<Rightarrow> admin_handler \<Rightarrow> admin_route \<Rightarrow> ('l, 'r, 'z) gateway_scheme \<Rightarrow> admin_reply \<times> ('l, 'r, 'z) gateway_scheme" where
  "admin_dispatch ae h route w =
     (case route of
        GetStats \<Rightarrow> overview_report ae w
      | GetStatsTokens \<Rightarrow> listTokens ae w
      | GetStatsToken key \<Rightarrow> tokenStats ae key w
      | GetTokens \<Rightarrow> listTokens ae w
      | GetUpstreams \<Rightarrow> upstreams w
      | PostReload \<Rightarrow> reloadUpstreams ae (ah_ConfigPath h) w)"

definition Routes ::
  "admin_env \<Rightarrow> 's jwt_store_ops \<Rightarrow> admin_handler \<Rightarrow> admin_route \<Rightarrow> request \<Rightarrow> 's
    \<Rightarrow> ('l, 'r, 'z) gateway_scheme \<Rightarrow> admin_reply \<times> ('l, 'r, 'z) gateway_scheme" where
  "Routes ae ops h route r s w =
     (case admin_auth ae ops h r s of
        Some refusal \<Rightarrow> (refusal, w)
      | None \<Rightarrow> admin_dispatch ae h route w)"

end
