(* ===== verification/Wsproxy.thy ===== *)
theory Wsproxy
  imports Proxy
begin

section \<open>The WebSocket proxy: \<open>internal/wsproxy\<close>\<close>

text \<open>
  The connection guard, the handler up to the start of a session, and the session: what each message
  from the client and from the upstream does to it. The two pumps of a session run concurrently;
  in the model a message is handled as one step, and steps of the two directions interleave in any
  order. Frames written to either side are appended to the session's two logs. The handshakes of the
  WebSocket library are arguments: whether the upgrade of the client and the dial of the upstream
  succeed.
\<close>

subsection \<open>The connection guard\<close>

record conn_guard =
  cg_count :: "string \<rightharpoonup> int"
  cg_max :: int

definition NewConnGuard :: "int \<Rightarrow> conn_guard" where
  "NewConnGuard limit = \<lparr>cg_count = Map.empty, cg_max = limit\<rparr>"

definition conns :: "conn_guard \<Rightarrow> string \<Rightarrow> int" where
  "conns g token = map_get 0 (cg_count g) token"

definition Acquire :: "string \<Rightarrow> conn_guard \<Rightarrow> bool \<times> conn_guard" where
  "Acquire token g =
     (if cg_max g > 0 \<and> conns g token \<ge> cg_max g then (False, g)
      else (True, g\<lparr>cg_count := (cg_count g)(token \<mapsto> wrap64 (conns g token + 1))\<rparr>))"

definition Release :: "string \<Rightarrow> conn_guard \<Rightarrow> conn_guard" where
  "Release token g =
     (let g = (if conns g token > 0 then g\<lparr>cg_count := (cg_count g)(token \<mapsto> conns g token - 1)\<rparr> else g)
      in if conns g token = 0 then g\<lparr>cg_count := (cg_count g)(token := None)\<rparr> else g)"

subsection \<open>Sessions\<close>

record pending_req =
  pq_method :: string
  pq_subKind :: string

record session =
  se_token :: token
  se_chainID :: string
  se_clientIP :: string
  se_upstream :: string
  se_pending :: "string \<rightharpoonup> pending_req"
  se_subs :: "string \<rightharpoonup> string"
  se_subN :: int
  se_billUnits :: int
  se_maxSubs :: int
  se_closed :: bool
  se_to_client :: "string list"
  se_to_server :: "string list"

definition se_meta :: "session \<Rightarrow> token_meta" where
  "se_meta s = meta_of (se_token s)"

text \<open>
  The gateway with the guard and the open sessions. \<open>http.Error\<close> writes plain text with a newline.
\<close>

record ('l, 'r) ws_gateway = "('l, 'r) gateway" +
  gw_conns :: conn_guard
  gw_sessions :: "nat \<rightharpoonup> session"
  gw_opened :: nat

definition http_Error :: "string \<Rightarrow> int \<Rightarrow> reply" where
  "http_Error msg code = Reply code ''text/plain; charset=utf-8'' (msg @ [CHR 0x0A])"

definition new_session :: "websocket_config \<Rightarrow> token \<Rightarrow> string \<Rightarrow> string \<Rightarrow> string \<Rightarrow> session" where
  "new_session cfg token chainID clientIP upstream =
     \<lparr>se_token = token, se_chainID = chainID, se_clientIP = clientIP, se_upstream = upstream,
      se_pending = Map.empty, se_subs = Map.empty, se_subN = 0,
      se_billUnits = ws_NotificationBillUnits cfg, se_maxSubs = ws_MaxSubscriptionsPerConn cfg,
      se_closed = False, se_to_client = [], se_to_server = []\<rparr>"

definition node_ws_url :: "('l, 'r, 'z) gateway_scheme \<Rightarrow> nat \<Rightarrow> string" where
  "node_ws_url w a = nd_WSURL (hp_node (rg_heap (gw_registry w)) a)"

text \<open>
  The handler between the acquisition of the guard and its deferred release: the reply, and the
  session if one starts.
\<close>

definition ws_connect ::
  "('l, 'r) env \<Rightarrow> websocket_config \<Rightarrow> token \<Rightarrow> string \<Rightarrow> request \<Rightarrow> ('l, 'r, 'z) gateway_scheme
    \<Rightarrow> (reply + session) \<times> ('l, 'r, 'z) gateway_scheme" where
  "ws_connect e cfg token chainID r w =
     (if lookup_pool (gw_registry w) chainID = None then (Inl (http_Error ''unknown chain'' 404), w)
      else
        (case pool_next_ws chainID (gw_registry w) of
           (Panicked, g) \<Rightarrow> (Inl Panic, set_registry g w)
         | (NoNode, g) \<Rightarrow> (Inl (http_Error ''no websocket upstream'' 502), set_registry g w)
         | (Pick node, g) \<Rightarrow>
             let w = set_registry g w
             in if node_ws_url w node = [] then (Inl (http_Error ''no websocket upstream'' 502), w)
                else
                  (case en_upgrade e r of
                     Some (msg, code) \<Rightarrow> (Inl (http_Error msg code), w)
                   | None \<Rightarrow>
                       if \<not> en_dial e (node_ws_url w node) then (Inl Hijacked, w)
                       else
                         (Inr (new_session cfg token chainID (ClientIP r) (node_ws_url w node)),
                          with_stats (RecordWSConnect (en_now e) (meta_of token) chainID) w))))"

definition set_conns :: "(conn_guard \<Rightarrow> conn_guard) \<Rightarrow> ('l, 'r) ws_gateway \<Rightarrow> ('l, 'r) ws_gateway" where
  "set_conns f w = w\<lparr>gw_conns := f (gw_conns w)\<rparr>"

text \<open>
  The deferred release runs when the handler returns: at once unless a session starts, else when
  the first pump ends (\<open>ws_end\<close>).
\<close>

definition ws_ServeHTTP ::
  "('l, 'r) env \<Rightarrow> websocket_config \<Rightarrow> request \<Rightarrow> ('l, 'r) ws_gateway \<Rightarrow> reply \<times> ('l, 'r) ws_gateway" where
  "ws_ServeHTTP e cfg r w =
     (let chainID = ctx_ChainID (ht_ctx r)
      in case ctx_Token (ht_ctx r) of
           None \<Rightarrow> (http_Error ''unauthorized'' 401, w)
         | Some token \<Rightarrow>
             if chainID = [] then (http_Error ''unauthorized'' 401, w)
             else
               (case Acquire (tok_Key token) (gw_conns w) of
                  (False, g) \<Rightarrow> (http_Error ''too many websocket connections'' 429, w\<lparr>gw_conns := g\<rparr>)
                | (True, g) \<Rightarrow>
                    (case ws_connect e cfg token chainID r (w\<lparr>gw_conns := g\<rparr>) of
                       (Inl reply, w) \<Rightarrow> (reply, set_conns (Release (tok_Key token)) w)
                     | (Inr s, w) \<Rightarrow>
                         (Hijacked, w\<lparr>gw_sessions := (gw_sessions w)(gw_opened w \<mapsto> s),
                                       gw_opened := Suc (gw_opened w)\<rparr>))))"

definition ws_end :: "nat \<Rightarrow> session \<Rightarrow> ('l, 'r) ws_gateway \<Rightarrow> ('l, 'r) ws_gateway" where
  "ws_end n s w =
     set_conns (Release (tok_Key (se_token s))) (w\<lparr>gw_sessions := (gw_sessions w)(n := None)\<rparr>)"

subsection \<open>Messages from the client\<close>

definition to_client :: "string \<Rightarrow> session \<Rightarrow> session" where
  "to_client frame s = s\<lparr>se_to_client := se_to_client s @ [frame]\<rparr>"

definition to_server :: "string \<Rightarrow> session \<Rightarrow> session" where
  "to_server frame s = s\<lparr>se_to_server := se_to_server s @ [frame]\<rparr>"

definition ws_error :: "string \<Rightarrow> string \<Rightarrow> string" where
  "ws_error code msg =
     dq ''{`jsonrpc`:`2.0`,`id`:null,`error`:{`code`:'' @ code @ dq '',`message`:`'' @ msg @ dq ''`}}''"

text \<open>The registration of a single request; \<open>False\<close> refuses the message.\<close>

definition register_request :: "('l, 'r) env \<Rightarrow> string \<Rightarrow> session \<Rightarrow> bool \<times> session" where
  "register_request e data s =
     (case ParseRequestMeta (en_jerr e) data of
        Inl err \<Rightarrow> (True, s)
      | Inr (i, method, subKind) \<Rightarrow>
          if i = [] then (True, s)
          else if method = ''eth_subscribe'' \<and> se_maxSubs s > 0 \<and> se_subN s \<ge> se_maxSubs s then
            (False, to_client (ws_error ''-32006'' ''too many subscriptions'') s)
          else
            (True, s\<lparr>se_pending := (se_pending s)(i \<mapsto> \<lparr>pq_method = method, pq_subKind = subKind\<rparr>)\<rparr>))"

definition handleInbound ::
  "('l, 'r) env \<Rightarrow> string \<Rightarrow> session \<Rightarrow> ('l, 'r, 'z) gateway_scheme \<Rightarrow> bool \<times> session \<times> ('l, 'r, 'z) gateway_scheme" where
  "handleInbound e data s w =
     (let (res, l) = Allow (en_rops e) (en_lops e) (en_now e) (se_token s) (se_chainID s) (se_clientIP s) (gw_limiter w);
          w = w\<lparr>gw_limiter := l\<rparr>
      in if \<not> res_Allowed res then
           (False, to_client (ws_error ''-32005'' (''rate limited: '' @ res_Reason res)) s,
            with_stats (IncRateLimited (en_now e) (se_meta s)) w)
         else if Classify data = KindRequest then
           (case ParseMethods (en_jerr e) data of
              Inl err \<Rightarrow> (False, to_client (ws_error ''-32600'' ''invalid request'') s, w)
            | Inr methods \<Rightarrow>
                (case CheckMethods (Some (se_token s)) methods of
                   Some err \<Rightarrow>
                     (False, to_client (ws_error ''-32601'' err) s,
                      with_stats (IncMethodDenied (en_now e) (se_meta s)) w)
                 | None \<Rightarrow>
                     if length methods = 1 then
                       (case register_request e data s of (ok, s) \<Rightarrow> (ok, s, w))
                     else (True, s, w)))
         else (True, s, w))"

text \<open>
  One turn of \<open>pumpClientToUpstream\<close>: the outcome of the read, and whether the write to the upstream
  succeeds. \<open>False\<close> ends the pump.
\<close>

definition closeBoth :: "session \<Rightarrow> session" where
  "closeBoth s = s\<lparr>se_closed := True\<rparr>"

definition pumpClientToUpstream ::
  "('l, 'r) env \<Rightarrow> string option \<Rightarrow> bool \<Rightarrow> session \<Rightarrow> ('l, 'r, 'z) gateway_scheme \<Rightarrow> bool \<times> session \<times> ('l, 'r, 'z) gateway_scheme" where
  "pumpClientToUpstream e read write_ok s w =
     (case read of
        None \<Rightarrow> (False, closeBoth s, w)
      | Some data \<Rightarrow>
          (case handleInbound e data s w of
             (False, s, w) \<Rightarrow> (True, s, w)
           | (True, s, w) \<Rightarrow> if write_ok then (True, to_server data s, w) else (False, closeBoth s, w)))"

subsection \<open>Messages from the upstream\<close>

definition ws_event ::
  "('l, 'r) env \<Rightarrow> session \<Rightarrow> int \<Rightarrow> bool \<Rightarrow> string list \<Rightarrow> string \<Rightarrow> nat \<Rightarrow> billing_event" where
  "ws_event e s successN billable methods kind n =
     \<lparr>ev_EventID = en_uuid e n, ev_TokenKey = tok_Key (se_token s), ev_TokenName = tok_Name (se_token s),
      ev_UserID = tok_UserID (se_token s), ev_Plan = tok_Plan (se_token s), ev_ChainID = se_chainID s,
      ev_Methods = methods, ev_SuccessN = successN, ev_Billable = billable,
      ev_AmountCents = amount_cents (se_token s) billable successN,
      ev_Transport = ''ws'', ev_EventKind = kind, ev_Upstream = se_upstream s,
      ev_LatencyMs = 0, ev_ClientIP = se_clientIP s, ev_At = en_now e\<rparr>"

definition publish ::
  "('l, 'r) env \<Rightarrow> int \<Rightarrow> bool \<Rightarrow> string list \<Rightarrow> string \<Rightarrow> session \<Rightarrow> ('l, 'r, 'z) gateway_scheme \<Rightarrow> ('l, 'r, 'z) gateway_scheme" where
  "publish e successN billable methods kind s w =
     (if successN \<le> 0 then w
      else w\<lparr>gw_events := gw_events w @ [ws_event e s successN billable methods kind (length (gw_events w))]\<rparr>)"

definition count_usage :: "('l, 'r) env \<Rightarrow> int \<Rightarrow> session \<Rightarrow> ('l, 'r, 'z) gateway_scheme \<Rightarrow> ('l, 'r, 'z) gateway_scheme" where
  "count_usage e n s w =
     w\<lparr>gw_limiter := IncrSuccess (en_rops e) (en_now e) (tok_Key (se_token s)) n (gw_limiter w)\<rparr>"

definition notify :: "('l, 'r) env \<Rightarrow> string \<Rightarrow> string \<Rightarrow> session \<Rightarrow> ('l, 'r, 'z) gateway_scheme \<Rightarrow> ('l, 'r, 'z) gateway_scheme" where
  "notify e method subID s w =
     (let units = (if se_billUnits s \<le> 0 then 1 else se_billUnits s);
          subKind =
            (if subID \<noteq> [] then
               (case se_subs s subID of Some k \<Rightarrow> if k \<noteq> [] then k else method | None \<Rightarrow> method)
             else method);
          billable = \<not> tok_BillingFree (se_token s);
          w = with_stats (RecordWSNotification (en_now e) (se_meta s) (se_chainID s) 1 units billable) w;
          w = count_usage e units s w
      in publish e units billable [subKind] ''ws_notification'' s w)"

text \<open>
  The bookkeeping of a response to a pending request \<open>pr\<close>: the counts, and the subscriptions it opens
  or closes.
\<close>

definition settle :: "pending_req \<Rightarrow> bool \<Rightarrow> string \<Rightarrow> int \<times> int \<Rightarrow> session \<Rightarrow> (int \<times> int) \<times> session" where
  "settle pr okSucc result counts s =
     (let counts = (if counts = (0, 0) then (if okSucc then (1, 0) else (0, 1)) else counts);
          s = (if okSucc \<and> pq_method pr = ''eth_subscribe'' then
                 (let sid = trim_char (CHR 0x22) result
                  in if sid \<noteq> [] then
                       s\<lparr>se_subs := (se_subs s)(sid \<mapsto> pq_subKind pr), se_subN := wrap64 (se_subN s + 1)\<rparr>
                     else s)
               else s);
          s = (if okSucc \<and> pq_method pr = ''eth_unsubscribe'' \<and> se_subN s > 0
               then s\<lparr>se_subN := se_subN s - 1\<rparr> else s)
      in (counts, s))"

definition answer :: "('l, 'r) env \<Rightarrow> string \<Rightarrow> session \<Rightarrow> (int \<times> int) \<times> session" where
  "answer e data s =
     (let counts = CountResults data
      in case ParseResponseMeta (en_jerr e) data of
           Inl err \<Rightarrow> (counts, s)
         | Inr (i, okSucc, result) \<Rightarrow>
             if i = [] then (counts, s)
             else
               (case se_pending s i of
                  None \<Rightarrow> (counts, s)
                | Some pr \<Rightarrow> settle pr okSucc result counts (s\<lparr>se_pending := (se_pending s)(i := None)\<rparr>)))"

definition handleOutbound ::
  "('l, 'r) env \<Rightarrow> string \<Rightarrow> session \<Rightarrow> ('l, 'r, 'z) gateway_scheme \<Rightarrow> session \<times> ('l, 'r, 'z) gateway_scheme" where
  "handleOutbound e data s w =
     (case ParseNotification data of
        Some (method, subID) \<Rightarrow> (s, notify e method subID s w)
      | None \<Rightarrow>
          (case answer e data s of
             ((successN, rpcErrN), s) \<Rightarrow>
               if successN = 0 \<and> rpcErrN = 0 then (s, w)
               else
                 let billable = \<not> tok_BillingFree (se_token s);
                     w = with_stats (RecordProxy (en_now e) (se_meta s) (se_chainID s) successN rpcErrN False billable) w
                 in if successN > 0 then
                      (s, publish e successN billable [] ''rpc'' s (count_usage e successN s w))
                    else (s, w)))"

definition pumpUpstreamToClient ::
  "('l, 'r) env \<Rightarrow> string option \<Rightarrow> bool \<Rightarrow> session \<Rightarrow> ('l, 'r, 'z) gateway_scheme \<Rightarrow> bool \<times> session \<times> ('l, 'r, 'z) gateway_scheme" where
  "pumpUpstreamToClient e read write_ok s w =
     (case read of
        None \<Rightarrow> (False, closeBoth s, w)
      | Some data \<Rightarrow>
          (case handleOutbound e data s w of
             (s, w) \<Rightarrow> if write_ok then (True, to_client data s, w) else (False, closeBoth s, w)))"

subsection \<open>The sessions of the gateway\<close>

text \<open>
  One turn of a pump of session \<open>n\<close>. The session ends with the first pump that ends. A message that the
  other pump has in hand at that moment is not handled in the model.
\<close>

definition pump_turn ::
  "(session \<Rightarrow> ('l, 'r) ws_gateway \<Rightarrow> bool \<times> session \<times> ('l, 'r) ws_gateway) \<Rightarrow> nat
    \<Rightarrow> ('l, 'r) ws_gateway \<Rightarrow> ('l, 'r) ws_gateway" where
  "pump_turn pump n w =
     (case gw_sessions w n of
        None \<Rightarrow> w
      | Some s \<Rightarrow>
          (case pump s w of
             (True, s, w) \<Rightarrow> w\<lparr>gw_sessions := (gw_sessions w)(n \<mapsto> s)\<rparr>
           | (False, s, w) \<Rightarrow> ws_end n s w))"

end
