(* ===== verification/Gateway.thy ===== *)
theory Gateway
  imports Admin Wsproxy Balancer_Registry
begin

section \<open>The gateway: \<open>cmd/gateway\<close>\<close>

text \<open>
  How \<open>main\<close> puts the components together: the state it builds from the configuration, the stacks of
  middleware in front of the two proxies, the wiring of the admin API, the reload on SIGHUP, and the
  steps of the running gateway with its reachable states. Here a request is one step; Theory \<open>Flight\<close> has
  its stages, Theory \<open>Startup\<close> the program around the steps, with its connections and the shutdown,
  Theory \<open>Background\<close> the loops. The HTTP server and the router's own middleware (request ids,
  \<open>RealIP\<close>, the recoverer, the timeout) are not modelled: a request is as the router hands it over.
\<close>

subsection \<open>Start\<close>

text \<open>
  \<open>ids\<close> and \<open>ks\<close> are the orders in which the configured networks and the tokens are visited, \<open>h\<close> is the
  heap, \<open>rdb\<close> the Redis client if there is one.
\<close>

definition new_gateway ::
  "heap \<Rightarrow> string list \<Rightarrow> string list \<Rightarrow> 'r option \<Rightarrow> config \<Rightarrow> token_store \<Rightarrow> ('l, 'r) ws_gateway" where
  "new_gateway h ids ks rdb cfg tokenStore =
     \<lparr>gw_tokens = tokenStore, gw_registry = NewRegistry h ids cfg, gw_limiter = New rdb True,
      gw_stats = Some (RegisterTokens (ListMeta ks tokenStore) NewCollector), gw_events = [], gw_forwards = [],
      gw_conns = NewConnGuard (ws_MaxConnectionsPerToken (cf_WebSocket cfg)),
      gw_sessions = Map.empty, gw_opened = 0\<rparr>"

text \<open>An error ends the program.\<close>

definition boot ::
  "admin_env \<Rightarrow> (string \<Rightarrow> string) \<Rightarrow> string \<Rightarrow> token_db option \<Rightarrow> 'r option \<Rightarrow> heap
    \<Rightarrow> string + config \<times> ('l, 'r) ws_gateway" where
  "boot ae jerr path pg rdb h =
     (case Load (ae_ulower ae) (ae_read_file ae) (ae_yaml ae) (ae_file_order ae) path of
        Inl e \<Rightarrow> Inl e
      | Inr cfg \<Rightarrow>
          (case initTokenStore jerr cfg (if db_Enabled (cf_Database cfg) then pg else None) of
             Inl e \<Rightarrow> Inl e
           | Inr tokenStore \<Rightarrow>
               Inr (cfg, new_gateway h (ae_file_order ae) (ae_store_order ae) rdb cfg tokenStore)))"

subsection \<open>The admin API\<close>

definition admin_issuer :: "config \<Rightarrow> issuer" where
  "admin_issuer cfg =
     (let j = ad_JWT (cf_Admin cfg)
      in \<lparr>is_Secret = aj_Secret j, is_Issuer = aj_Issuer j, is_Subject = aj_Subject j, is_TTL = aj_TTL j\<rparr>)"

definition admin_validator :: "config \<Rightarrow> validator" where
  "admin_validator cfg =
     (let j = ad_JWT (cf_Admin cfg)
      in \<lparr>va_Secret = aj_Secret j, va_Issuer = aj_Issuer j, va_Subject = aj_Subject j\<rparr>)"

definition admin_rotator :: "config \<Rightarrow> rotator_config" where
  "admin_rotator cfg =
     (let j = ad_JWT (cf_Admin cfg)
      in \<lparr>rc_Every = aj_RotateEvery j, rc_OnStart = aj_RotateOnStart j, rc_RevokePrevious = aj_RevokePrevious j,
          rc_CleanupRetention = aj_CleanupRetention j, rc_LogToken = aj_LogToken j\<rparr>)"

definition new_admin :: "config \<Rightarrow> string \<Rightarrow> admin_handler" where
  "new_admin cfg path = \<lparr>ah_Validator = Some (admin_validator cfg), ah_ConfigPath = path\<rparr>"

subsection \<open>Routes\<close>

text \<open>\<open>rpc_stack\<close> serves POST on \<open>/{token}/<chain>\<close>, \<open>ws_stack\<close> serves GET, the handshake.\<close>

definition rpc_stack :: "('l, 'r) env \<Rightarrow> config \<Rightarrow> string \<Rightarrow> request \<Rightarrow> ('l, 'r, 'z) gateway_scheme \<Rightarrow> reply \<times> ('l, 'r, 'z) gateway_scheme" where
  "rpc_stack e cfg chainID =
     Domain_mw e (sv_Domains (cf_Server cfg))
       (PathAuth_mw e (Chain_mw chainID (MethodFilter_mw e (RateLimit_mw e (ServeHTTP e)))))"

definition ws_stack :: "('l, 'r) env \<Rightarrow> config \<Rightarrow> string \<Rightarrow> request \<Rightarrow> ('l, 'r) ws_gateway \<Rightarrow> reply \<times> ('l, 'r) ws_gateway" where
  "ws_stack e cfg chainID =
     Domain_mw e (sv_Domains (cf_Server cfg))
       (PathAuth_mw e (Chain_mw chainID (ws_ServeHTTP e (cf_WebSocket cfg))))"

subsection \<open>Reload on SIGHUP\<close>

text \<open>Errors are logged; the loop goes on.\<close>

definition sighup :: "admin_env \<Rightarrow> string \<Rightarrow> ('l, 'r, 'z) gateway_scheme \<Rightarrow> ('l, 'r, 'z) gateway_scheme" where
  "sighup ae path w =
     (case Load (ae_ulower ae) (ae_read_file ae) (ae_yaml ae) (ae_file_order ae) path of
        Inl e \<Rightarrow> w
      | Inr cfg \<Rightarrow>
          (case ReloadNodes (ae_pool_order ae) (cf_Chains cfg) (gw_registry w) of (e, g) \<Rightarrow> set_registry g w))"

subsection \<open>The running gateway\<close>

text \<open>
  One request, one turn of a pump, one probe, one refresh or one reload at a time, with any
  environment. The router gives a request an empty context and only configured networks have routes;
  the WebSocket routes exist if they are enabled. A health check copies the addresses of a pool's nodes
  and probes them one by one: by then the pool may have been reloaded, so a probe is of any node that was ever built. An admin request that is not authenticated changes
  nothing and is not a step. Reloaded files have node weights whose sums fit in an \<open>int\<close>.
\<close>

definition weights_fit :: "admin_env \<Rightarrow> bool" where
  "weights_fit ae \<longleftrightarrow>
     (\<forall>data cfg c ch. ae_yaml ae data = Inr cfg \<longrightarrow> cf_Chains cfg c = Some ch \<longrightarrow> fits (ch_Nodes ch))"

inductive gw_step :: "config \<Rightarrow> ('l, 'r) ws_gateway \<Rightarrow> ('l, 'r) ws_gateway \<Rightarrow> bool" for cfg where
  rpc: "cf_Chains cfg c \<noteq> None \<Longrightarrow> ht_ctx r = empty_context \<Longrightarrow> rpc_stack e cfg c r w = (reply, w') \<Longrightarrow>
     gw_step cfg w w'"
| ws_open: "ws_Enabled (cf_WebSocket cfg) \<Longrightarrow> cf_Chains cfg c \<noteq> None \<Longrightarrow> ht_ctx r = empty_context \<Longrightarrow>
     ws_stack e cfg c r w = (reply, w') \<Longrightarrow> gw_step cfg w w'"
| ws_in: "gw_step cfg w (pump_turn (pumpClientToUpstream e read ok) n w)"
| ws_out: "gw_step cfg w (pump_turn (pumpUpstreamToClient e read ok) n w)"
| probe: "rg_pools (gw_registry w) c = Some p \<Longrightarrow> a < hp_next (rg_heap (gw_registry w)) \<Longrightarrow>
     gw_step cfg w (set_registry ((gw_registry w)\<lparr>rg_heap := check_node post p a (rg_heap (gw_registry w))\<rparr>) w)"
| refresh: "gw_step cfg w (w\<lparr>gw_tokens := refresh_tick jerr db (gw_tokens w)\<rparr>)"
| sighup: "weights_fit ae \<Longrightarrow> gw_step cfg w (sighup ae path w)"
| admin: "weights_fit ae \<Longrightarrow> admin_dispatch ae h route w = (reply, w') \<Longrightarrow> gw_step cfg w w'"

inductive gw_reachable :: "config \<Rightarrow> ('l, 'r) ws_gateway \<Rightarrow> bool" for cfg where
  start: "enumerates ids (cf_Chains cfg) \<Longrightarrow> gw_reachable cfg (new_gateway h ids ks rdb cfg tokenStore)"
| step: "gw_reachable cfg w \<Longrightarrow> gw_step cfg w w' \<Longrightarrow> gw_reachable cfg w'"

inductive_cases gw_stepE: "gw_step cfg w w'"

end
