(* ===== verification/Books.thy ===== *)
theory Books
  imports Http Ratelimit_Spec
begin

section \<open>Three books of one use: statistics, quota and billing events\<close>

text \<open>
  Every successful call is entered three times: in the statistics of its token, in the daily count that
  the quota reads, and in a billing event. \<open>booked\<close> says of two states of the gateway that everything
  entered between them was entered in all three alike; it is closed under composition, and the
  lemmas below establish it for the single updates the handlers make.
\<close>

subsection \<open>What a call of the collector records\<close>

text \<open>
  The successes that a call adds for a token, where \<open>B\<close> selects them by whether they are billable. At
  64 bits, as the counters are.
\<close>

fun recorded :: "(bool \<Rightarrow> bool) \<Rightarrow> string \<Rightarrow> stat_event \<Rightarrow> i64" where
  "recorded B key (Ev_Proxy now meta ch s e u b) =
     (if tm_Key meta = key \<and> B b \<and> \<not> u \<and> s > 0 then of_int s else 0)"
| "recorded B key (Ev_WSNotification now meta ch n u b) =
     (if tm_Key meta = key \<and> B b \<and> n > 0 then of_int (if u \<le> 0 then n else u) else 0)"
| "recorded B key ev = 0"

definition token_counter :: "(atomic_metrics \<Rightarrow> i64) \<Rightarrow> string \<Rightarrow> collector \<Rightarrow> i64" where
  "token_counter f key c = (case co_tokens c key of None \<Rightarrow> 0 | Some st \<Rightarrow> f (ts_metrics st))"

text \<open>The counters of successes, each with the calls it counts.\<close>

definition success_counter :: "(atomic_metrics \<Rightarrow> i64) \<Rightarrow> (bool \<Rightarrow> bool) \<Rightarrow> bool" where
  "success_counter f B \<longleftrightarrow>
     f = SuccessCalls \<and> B = (\<lambda>b. True) \<or> f = BillableCalls \<and> B = (\<lambda>b. b) \<or> f = FreeCalls \<and> B = Not"

lemma counter_ensure:
  "f zero_metrics = 0 \<Longrightarrow> token_counter f key (ensureToken meta c) = token_counter f key c"
  by (auto simp: token_counter_def ensureToken_def split: option.split)

lemma counter_global [simp]: "token_counter f key (on_global g c) = token_counter f key c"
  by (simp add: token_counter_def on_global_def)

lemma counter_token:
  assumes "f zero_metrics = 0" "\<And>st. f (ts_metrics (F st)) = f (ts_metrics st) + d"
  shows "token_counter f key (on_token F meta c) = token_counter f key c + (if tm_Key meta = key then d else 0)"
proof -
  have "token_counter f key (on_token F meta c) =
      token_counter f key (ensureToken meta c) + (if tm_Key meta = key then d else 0)"
    using ensureToken_at [of meta c] assms(2) by (auto simp: on_token_def token_counter_def Let_def)
  with counter_ensure [of f key meta c] assms(1) show ?thesis by simp
qed

lemma counter_register:
  "f zero_metrics = 0 \<Longrightarrow> token_counter f key (RegisterTokens metas c) = token_counter f key c"
  unfolding RegisterTokens_def by (induction metas arbitrary: c) (simp_all add: counter_ensure)

lemma event_counter:
  assumes "success_counter f B"
  shows "token_counter f key (apply_event ev c) = token_counter f key c + recorded B key ev"
proof -
  have z: "f zero_metrics = 0" using assms by (auto simp: success_counter_def zero_metrics_def)
  show ?thesis
  proof (cases ev)
    case (Ev_Proxy now meta ch s e u b)
    have "f (add_proxy now s e u b m) = f m + (if B b \<and> \<not> u \<and> s > 0 then of_int s else 0)" for m
      using assms by (auto simp: success_counter_def add_proxy_def touch_def Let_def)
    with z show ?thesis
      by (simp add: Ev_Proxy RecordProxy_def Let_def
          counter_token [where d = "if B b \<and> \<not> u \<and> s > 0 then of_int s else 0"])
  next
    case (Ev_WSNotification now meta ch n u b)
    have "f (add_notification now n v b m) = f m + (if B b then of_int v else 0)" for m v
      using assms by (auto simp: success_counter_def add_notification_def touch_def Let_def)
    with z show ?thesis
      by (simp add: Ev_WSNotification RecordWSNotification_def Let_def
          counter_token [where d = "if B b then of_int (if u \<le> 0 then n else u) else 0"])
  qed (use z assms in \<open>auto simp: stat_ops counter_register counter_token [where d = 0] success_counter_def
        add_denied_def add_limited_def add_connect_def touch_def\<close>)
qed

lemma events_counter:
  assumes "success_counter f B"
  shows "token_counter f key (fold apply_event evs c) = token_counter f key c + sum_list (map (recorded B key) evs)"
  by (induction evs arbitrary: c) (simp_all add: event_counter [OF assms] add.assoc)

subsection \<open>What billing events say\<close>

definition billed_sum :: "(billing_event \<Rightarrow> bool) \<Rightarrow> billing_event list \<Rightarrow> int" where
  "billed_sum P evs = sum_list (map ev_SuccessN (filter P evs))"

lemma billed_sum_simps [simp]:
  "billed_sum P [] = 0"
  "billed_sum P (evs @ evs') = billed_sum P evs + billed_sum P evs'"
  "billed_sum P (ev # evs) = (if P ev then ev_SuccessN ev else 0) + billed_sum P evs"
  by (simp_all add: billed_sum_def)

definition agrees :: "stat_event list \<Rightarrow> billing_event list \<Rightarrow> bool" where
  "agrees evs bs \<longleftrightarrow>
     (\<forall>B key. sum_list (map (recorded B key) evs) =
        of_int (billed_sum (\<lambda>ev. ev_TokenKey ev = key \<and> B (ev_Billable ev)) bs))"

lemma agrees_Nil [simp]: "agrees [] []"
  by (simp add: agrees_def)

lemma agrees_append: "agrees evs bs \<Longrightarrow> agrees evs' bs' \<Longrightarrow> agrees (evs @ evs') (bs @ bs')"
  by (simp add: agrees_def)

text \<open>The entry of an event in the daily count.\<close>

definition usage_call :: "billing_event \<Rightarrow> time \<times> string \<times> int" where
  "usage_call ev = (ev_At ev, ev_TokenKey ev, ev_SuccessN ev)"

subsection \<open>The relation\<close>

definition booked_by ::
  "stat_event list \<Rightarrow> billing_event list \<Rightarrow> ('l, 'r, 'z) gateway_scheme \<Rightarrow> ('l, 'r, 'z) gateway_scheme \<Rightarrow> bool" where
  "booked_by evs bs w w' \<longleftrightarrow>
     gw_stats w' = map_option (fold apply_event evs) (gw_stats w) \<and>
     gw_events w' = gw_events w @ bs \<and> agrees evs bs \<and> (\<forall>ev \<in> set bs. 0 < ev_SuccessN ev) \<and>
     (lm_rdb (gw_limiter w') = None \<longleftrightarrow> lm_rdb (gw_limiter w) = None) \<and>
     (\<forall>rops. lm_rdb (gw_limiter w) = None \<longrightarrow>
        lm_daily (gw_limiter w') = lm_daily (count_all rops (map usage_call bs) (gw_limiter w)))"

definition booked :: "('l, 'r, 'z) gateway_scheme \<Rightarrow> ('l, 'r, 'z) gateway_scheme \<Rightarrow> bool" where
  "booked w w' \<longleftrightarrow> (\<exists>evs bs. booked_by evs bs w w')"

lemma count_all_append: "count_all rops (xs @ ys) l = count_all rops ys (count_all rops xs l)"
  by (simp add: count_all_def)

lemma count_all_rdb: "lm_rdb l = None \<Longrightarrow> lm_rdb (count_all rops xs l) = None"
  by (induction xs arbitrary: l) (auto simp: count_all_def IncrSuccess_keeps)

lemma count_all_daily:
  "lm_rdb l = None \<Longrightarrow> lm_rdb l' = None \<Longrightarrow> lm_daily l = lm_daily l' \<Longrightarrow>
     lm_daily (count_all rops xs l) = lm_daily (count_all rops xs l')"
proof (induction xs arbitrary: l l')
  case Nil
  then show ?case by (simp add: count_all_def)
next
  case (Cons x xs)
  obtain t k n where x: "x = (t, k, n)" by (cases x)
  have "lm_daily (IncrSuccess rops t k n l) = lm_daily (IncrSuccess rops t k n l')"
    using Cons.prems by (simp add: IncrSuccess_def Let_def)
  with Cons.IH [OF IncrSuccess_keeps [OF Cons.prems(1)] IncrSuccess_keeps [OF Cons.prems(2)]] show ?case
    by (simp add: count_all_def x)
qed

lemma booked_by_refl: "booked_by [] [] w w"
  by (simp add: booked_by_def count_all_def option.map_id0)

lemma booked_by_trans:
  assumes 1: "booked_by evs bs w w'" and 2: "booked_by evs' bs' w' w''"
  shows "booked_by (evs @ evs') (bs @ bs') w w''"
proof -
  have "lm_daily (gw_limiter w'') = lm_daily (count_all rops (map usage_call (bs @ bs')) (gw_limiter w))"
    if n: "lm_rdb (gw_limiter w) = None" for rops
  proof -
    have n': "lm_rdb (gw_limiter w') = None" using 1 n by (simp add: booked_by_def)
    have d: "lm_daily (gw_limiter w') = lm_daily (count_all rops (map usage_call bs) (gw_limiter w))"
      using 1 n unfolding booked_by_def by blast
    have "lm_daily (gw_limiter w'') = lm_daily (count_all rops (map usage_call bs') (gw_limiter w'))"
      using 2 n' unfolding booked_by_def by blast
    also have "\<dots> = lm_daily (count_all rops (map usage_call bs')
        (count_all rops (map usage_call bs) (gw_limiter w)))"
      using n' count_all_rdb [OF n] d by (rule count_all_daily)
    finally show ?thesis by (simp add: count_all_append)
  qed
  with 1 2 show ?thesis by (auto simp: booked_by_def agrees_append option.map_comp o_def)
qed

lemma booked_refl [simp]: "booked w w"
  using booked_by_refl unfolding booked_def by blast

lemma booked_trans [trans]: "booked w w' \<Longrightarrow> booked w' w'' \<Longrightarrow> booked w w''"
  using booked_by_trans unfolding booked_def by blast

text \<open>The updates that enter nothing.\<close>

definition quiet_event :: "stat_event \<Rightarrow> bool" where
  "quiet_event ev \<longleftrightarrow> (\<forall>B key. recorded B key ev = 0)"

lemma quiet_events [simp]:
  "quiet_event (Ev_DomainRejected now)" "quiet_event (Ev_AuthFailed now)" "quiet_event (Ev_MethodDenied now m)"
  "quiet_event (Ev_RateLimited now m)" "quiet_event (Ev_Proxy now m ch s e True b)"
  "quiet_event (Ev_WSConnect now m ch)" "quiet_event (Ev_Register ms)"
  "s \<le> 0 \<Longrightarrow> quiet_event (Ev_Proxy now m ch s e u b)"
  by (simp_all add: quiet_event_def)

lemma apply_event_eta:
  "apply_event (Ev_DomainRejected now) = IncDomainRejected now" "apply_event (Ev_AuthFailed now) = IncAuthFailed now"
  "apply_event (Ev_MethodDenied now m) = IncMethodDenied now m" "apply_event (Ev_RateLimited now m) = IncRateLimited now m"
  "apply_event (Ev_Proxy now m ch n k u b) = RecordProxy now m ch n k u b"
  "apply_event (Ev_WSConnect now m ch) = RecordWSConnect now m ch"
  "apply_event (Ev_WSNotification now m ch n units b) = RecordWSNotification now m ch n units b"
  "apply_event (Ev_Register ms) = RegisterTokens ms"
  by (simp_all add: fun_eq_iff)

lemma booked_quiet: "quiet_event ev \<Longrightarrow> booked w (with_stats (apply_event ev) w)"
  unfolding booked_def booked_by_def
  by (rule exI [of _ "[ev]"], rule exI [of _ "[]"])
    (auto simp: agrees_def quiet_event_def count_all_def fun_eq_iff intro: option.map_cong)

lemma booked_same:
  "gw_stats w' = gw_stats w \<Longrightarrow> gw_events w' = gw_events w \<Longrightarrow> gw_limiter w' = gw_limiter w \<Longrightarrow> booked w w'"
  unfolding booked_def booked_by_def
  by (rule exI [of _ "[]"], rule exI [of _ "[]"]) (simp add: count_all_def option.map_id0)

lemma booked_allow:
  assumes "Allow rops lops now t c ip (gw_limiter w) = (res, l)"
  shows "booked w (w\<lparr>gw_limiter := l\<rparr>)"
proof -
  have "lm_daily l = lm_daily (gw_limiter w)" "lm_rdb l = None \<longleftrightarrow> lm_rdb (gw_limiter w) = None"
    using allow_effect [where l = "gw_limiter w" and rops = rops and lops = lops and now = now and t = t and chainID = c
      and clientIP = ip] unfolding assms by simp_all
  then show ?thesis unfolding booked_def booked_by_def
    by (intro exI [of _ "[]"]) (simp add: count_all_def option.map_id0)
qed

text \<open>A success: one call of the collector, the daily count, and the event.\<close>

lemma booked_success:
  assumes "\<forall>B key. recorded B key ev = (if tok_Key t = key \<and> B (ev_Billable b) then of_int (ev_SuccessN b) else 0)"
    and "ev_TokenKey b = tok_Key t" "0 < ev_SuccessN b"
  shows "booked w (with_stats (apply_event ev) w
    \<lparr>gw_limiter := IncrSuccess rops (ev_At b) (tok_Key t) (ev_SuccessN b) (gw_limiter w),
     gw_events := gw_events w @ [b]\<rparr>)"
proof -
  let ?l = "IncrSuccess rops (ev_At b) (tok_Key t) (ev_SuccessN b) (gw_limiter w)"
  have "lm_rdb ?l = None \<longleftrightarrow> lm_rdb (gw_limiter w) = None"
    by (auto simp: IncrSuccess_def Let_def split: option.splits)
  moreover have "lm_daily ?l = lm_daily (count_all rops' [usage_call b] (gw_limiter w))"
    if "lm_rdb (gw_limiter w) = None" for rops'
    using that assms by (simp add: count_all_def usage_call_def IncrSuccess_def Let_def)
  ultimately show ?thesis
    using assms unfolding booked_def booked_by_def
    by (intro exI [of _ "[ev]"] exI [of _ "[b]"]) (auto simp: agrees_def fun_eq_iff intro: option.map_cong)
qed

end
