(* ===== verification/Proxy_Spec.thy ===== *)
theory Proxy_Spec
  imports Proxy Balancer_Registry Books Auth_Spec
begin

section \<open>The HTTP path: what a request may do\<close>

text \<open>
  What \<open>ServeHTTP\<close> and the middleware change, and when. The lemmas on the registry say that a request is
  a sequence of the registry's own steps, so that its invariant holds throughout and no node choice
  panics; the lemmas on forwards and events bound what one request sends and bills.
\<close>

subsection \<open>Requests are steps of the registry\<close>

abbreviation reg_steps :: "registry \<Rightarrow> registry \<Rightarrow> bool" where
  "reg_steps \<equiv> reg_step\<^sup>*\<^sup>*"

lemma reg_steps_inv: "reg_steps g g' \<Longrightarrow> reg_inv g \<Longrightarrow> reg_inv g'"
  by (induction rule: rtranclp_induct) (auto intro: reg_step_inv)

lemma reg_steps_dom: "reg_steps g g' \<Longrightarrow> dom (rg_pools g') = dom (rg_pools g)"
  by (induction rule: rtranclp_induct) (simp_all add: reg_step_dom)

lemma reg_steps_reachable: "reg_steps g g' \<Longrightarrow> reg_reachable cfg g \<Longrightarrow> reg_reachable cfg g'"
  by (induction rule: rtranclp_induct) (auto intro: reg_reachable.step)

text \<open>A node of the pool of network \<open>c\<close>, with its URL.\<close>

definition serves :: "registry \<Rightarrow> string \<Rightarrow> nat \<Rightarrow> bool" where
  "serves g c a \<longleftrightarrow> (\<exists>p. rg_pools g c = Some p \<and> a \<in> set (po_nodes p) \<and> a < hp_next (rg_heap g))"

definition pool_urls :: "registry \<Rightarrow> string \<Rightarrow> string set" where
  "pool_urls g c =
     (case rg_pools g c of None \<Rightarrow> {} | Some p \<Rightarrow> (\<lambda>a. nd_URL (hp_node (rg_heap g) a)) ` set (po_nodes p))"

text \<open>Choosing and reporting keep the nodes of the pools and their URLs.\<close>

definition same_nodes :: "registry \<Rightarrow> registry \<Rightarrow> bool" where
  "same_nodes g g' \<longleftrightarrow>
     (\<forall>c a. serves g' c a = serves g c a) \<and> (\<forall>c. pool_urls g' c = pool_urls g c) \<and>
     (\<forall>a. nd_URL (hp_node (rg_heap g') a) = nd_URL (hp_node (rg_heap g) a)) \<and>
     (\<forall>a. nd_WSURL (hp_node (rg_heap g') a) = nd_WSURL (hp_node (rg_heap g) a))"

lemma same_nodes_refl [simp]: "same_nodes g g"
  by (simp add: same_nodes_def)

lemma same_nodes_trans [trans]: "same_nodes g g' \<Longrightarrow> same_nodes g' g'' \<Longrightarrow> same_nodes g g''"
  by (simp add: same_nodes_def)

lemma same_nodes_rr:
  "rg_pools g c = Some p \<Longrightarrow> same_nodes g (g\<lparr>rg_pools := (rg_pools g)(c \<mapsto> p\<lparr>po_rr := r\<rparr>)\<rparr>)"
  by (auto simp: same_nodes_def serves_def pool_urls_def split: option.splits)

lemma report_nodes:
  "nd_URL (report_success t n) = nd_URL n" "nd_WSURL (report_success t n) = nd_WSURL n"
  "nd_URL (report_failure t n) = nd_URL n" "nd_WSURL (report_failure t n) = nd_WSURL n"
  by (simp_all add: report_success_def report_failure_def Let_def)

lemma same_nodes_report:
  "same_nodes g (g\<lparr>rg_heap := ReportSuccess p a (rg_heap g)\<rparr>)"
  "same_nodes g (g\<lparr>rg_heap := ReportFailure p a (rg_heap g)\<rparr>)"
  by (auto simp: same_nodes_def serves_def pool_urls_def ReportSuccess_def ReportFailure_def set_node_def
      report_nodes split: option.split)

lemma pool_next_picks:
  assumes "reg_inv g" "rg_pools g c \<noteq> None"
  obtains a g' where "pool_next c g = (Pick a, g')" "serves g c a" "reg_steps g g'" "same_nodes g g'"
proof -
  from assms obtain p where p: "rg_pools g c = Some p" and inv: "pool_inv (rg_heap g) p"
    by (auto simp: reg_inv_def)
  from Next_cases [OF inv] obtain a r where n: "Next (rg_heap g) p = (Pick a, p\<lparr>po_rr := r\<rparr>)"
    and a: "a \<in> set (po_nodes p)" by metis
  let ?g = "g\<lparr>rg_pools := (rg_pools g)(c \<mapsto> p\<lparr>po_rr := r\<rparr>)\<rparr>"
  have "reg_step g ?g" using p n by (rule reg_step.next_http)
  moreover have "serves g c a" using p a inv by (auto simp: serves_def pool_inv_def)
  moreover have "pool_next c g = (Pick a, ?g)" by (simp add: pool_next_def p n)
  ultimately show thesis using that same_nodes_rr [OF p] by blast
qed

lemma pool_next_ws_picks:
  assumes "reg_inv g" "rg_pools g c \<noteq> None"
  obtains (none) "pool_next_ws c g = (NoNode, g)"
  | (some) a g' where "pool_next_ws c g = (Pick a, g')" "serves g c a" "reg_steps g g'" "same_nodes g g'"
      "nd_WSURL (hp_node (rg_heap g) a) \<noteq> []"
proof -
  from assms obtain p where p: "rg_pools g c = Some p" and inv: "pool_inv (rg_heap g) p"
    by (auto simp: reg_inv_def)
  from inv show thesis
  proof (cases rule: NextWS_cases)
    case none
    then have "pool_next_ws c g = (NoNode, g\<lparr>rg_pools := (rg_pools g)(c \<mapsto> p)\<rparr>)"
      by (simp add: pool_next_ws_def p)
    moreover have "g\<lparr>rg_pools := (rg_pools g)(c \<mapsto> p)\<rparr> = g" using p by (simp add: map_upd_triv)
    ultimately show thesis using that(1) by simp
  next
    case (some a r)
    let ?g = "g\<lparr>rg_pools := (rg_pools g)(c \<mapsto> p\<lparr>po_rr := r\<rparr>)\<rparr>"
    have "reg_step g ?g" using p some(1) by (rule reg_step.next_ws)
    moreover have "serves g c a" using p some(2) inv by (auto simp: serves_def pool_inv_def)
    moreover have "pool_next_ws c g = (Pick a, ?g)" by (simp add: pool_next_ws_def p some(1))
    ultimately show thesis using that(2) same_nodes_rr [OF p] some(3) by (auto simp: has_ws_def)
  qed
qed

lemma pool_report_steps:
  assumes "serves g c' a"
  shows "reg_steps g (pool_failure c a g)" "same_nodes g (pool_failure c a g)"
    "reg_steps g (pool_success c a g)" "same_nodes g (pool_success c a g)"
  using assms reg_step.success [of g c _ a] reg_step.failure [of g c _ a]
  by (auto simp: pool_failure_def pool_success_def serves_def same_nodes_report split: option.split
      intro!: r_into_rtranclp)


subsection \<open>Forwarding\<close>

text \<open>What \<open>forward_retry\<close> sends: the body to one node, and after a failure perhaps to another one.\<close>

lemma forward_frame:
  "forward e u body ua w = (x, w') \<Longrightarrow> w' = w\<lparr>gw_forwards := gw_forwards w @ [(u, body)]\<rparr>"
  by (auto simp: forward_def Let_def split: sum.splits prod.splits)

lemma forward_eq:
  "\<exists>x. forward e u body ua w = (x, w\<lparr>gw_forwards := gw_forwards w @ [(u, body)]\<rparr>)"
  using forward_frame by (metis surj_pair)

definition retry_urls :: "registry \<Rightarrow> string \<Rightarrow> string list \<Rightarrow> bool" where
  "retry_urls g c us \<longleftrightarrow> length us \<le> 2 \<and> distinct us \<and> set us \<subseteq> pool_urls g c"

lemma serves_url: "serves g c a \<Longrightarrow> nd_URL (hp_node (rg_heap g) a) \<in> pool_urls g c"
  by (auto simp: serves_def pool_urls_def)

lemma serves_lookup: "serves g c a \<Longrightarrow> rg_pools g c \<noteq> None"
  by (auto simp: serves_def)

lemma set_registry_simps [simp]:
  "gw_registry (set_registry g w) = g" "gw_forwards (set_registry g w) = gw_forwards w"
  "set_registry g (set_registry g' w) = set_registry g w" "gw_limiter (set_registry g w) = gw_limiter w"
  "gw_stats (set_registry g w) = gw_stats w" "gw_events (set_registry g w) = gw_events w"
  "gw_tokens (set_registry g w) = gw_tokens w"
  by (simp_all add: set_registry_def)

definition sent :: "registry \<Rightarrow> string list \<Rightarrow> string \<Rightarrow> ('l, 'r, 'z) gateway_scheme \<Rightarrow> ('l, 'r, 'z) gateway_scheme" where
  "sent g us body w = w\<lparr>gw_registry := g, gw_forwards := gw_forwards w @ map (\<lambda>u. (u, body)) us\<rparr>"

lemma sent_simps [simp]:
  "gw_registry (sent g us body w) = g" "gw_limiter (sent g us body w) = gw_limiter w"
  "gw_stats (sent g us body w) = gw_stats w" "gw_events (sent g us body w) = gw_events w"
  "gw_tokens (sent g us body w) = gw_tokens w" "set_registry g' (sent g us body w) = sent g' us body w"
  "gw_forwards (sent g us body w) = gw_forwards w @ map (\<lambda>u. (u, body)) us"
  by (simp_all add: sent_def set_registry_def)

lemma sent_forward:
  "\<exists>x. forward e u body ua (sent g us body w) = (x, sent g (us @ [u]) body w)"
  using forward_eq [of e u body ua "sent g us body w"] by (simp add: sent_def)

lemma sent_none: "w = sent (gw_registry w) [] body w"
  by (simp add: sent_def)

lemma forward_retry_spec:
  fixes w :: "('l, 'r, 'z) gateway_scheme"
  assumes "reg_inv (gw_registry w)" "serves (gw_registry w) c a"
  obtains b res g us where "forward_retry e c body ua a w = (Some (b, res), sent g us body w)"
    "serves g c b" "reg_steps (gw_registry w) g" "same_nodes (gw_registry w) g" "retry_urls (gw_registry w) c us"
proof -
  let ?u = "node_url w a" and ?g = "gw_registry w"
  obtain x where x: "forward e ?u body ua w = (x, sent ?g [?u] body w)"
    using sent_forward [of e ?u body ua ?g "[]" w] by (auto simp flip: sent_none)
  have u: "?u \<in> pool_urls ?g c" using serves_url [OF assms(2)] by (simp add: node_url_def)
  show thesis
  proof (cases x)
    case (Inr res)
    with x assms(2) u that [of a "Inr res" ?g "[?u]"] show thesis
      by (simp add: forward_retry_def retry_urls_def)
  next
    case (Inl err)
    let ?g1 = "pool_failure c a ?g"
    note f = pool_report_steps(1,2) [OF assms(2), of c]
    have inv1: "reg_inv ?g1" and in1: "rg_pools ?g1 c \<noteq> None"
      using reg_steps_inv [OF f(1) assms(1)] reg_steps_dom [OF f(1)] serves_lookup [OF assms(2)] by auto
    from pool_next_picks [OF inv1 in1] obtain b g2 where n: "pool_next c ?g1 = (Pick b, g2)"
      and b: "serves ?g1 c b" and s2: "reg_steps ?g1 g2" and m2: "same_nodes ?g1 g2" by blast
    have steps: "reg_steps ?g g2" and same: "same_nodes ?g g2"
      using f s2 m2 same_nodes_trans rtranclp_trans by metis+
    have sv: "serves g2 c a" "serves g2 c b" using assms(2) b same m2 by (simp_all add: same_nodes_def)
    have urls: "node_url (sent g2 us body w) d = nd_URL (hp_node (rg_heap ?g) d)" for us d
      using same by (simp add: node_url_def same_nodes_def)
    let ?v = "nd_URL (hp_node (rg_heap ?g) b)"
    have v: "?v \<in> pool_urls ?g c" using serves_url [OF sv(2)] same by (simp add: same_nodes_def)
    have start: "forward_retry e c body ua a w =
      (if ?v \<noteq> ?u then
         (case forward e ?v body ua (sent g2 [?u] body w) of
            (Inl err, w) \<Rightarrow> (Some (a, Inl err), w)
          | (Inr res, w) \<Rightarrow> (Some (b, Inr res), w))
       else (Some (a, Inl err), sent g2 [?u] body w))"
      unfolding forward_retry_def x using Inl n by (simp add: urls Let_def node_url_def [of w])
    obtain y where y: "forward e ?v body ua (sent g2 [?u] body w) = (y, sent g2 [?u, ?v] body w)"
      using sent_forward [of e ?v body ua g2 "[?u]" w] by auto
    show thesis
    proof (cases "?v = ?u")
      case True
      with start u sv steps same that [of a "Inl err" g2 "[?u]"] show thesis by (simp add: retry_urls_def)
    next
      case False
      then have r: "retry_urls ?g c [?u, ?v]" using u v by (auto simp: retry_urls_def)
      from False start y sv steps same r that show thesis by (cases y) auto
    qed
  qed
qed


subsection \<open>What \<open>ServeHTTP\<close> does\<close>

text \<open>The accounting of an answer with \<open>n\<close> successes and \<open>k\<close> errors from the node with URL \<open>url\<close>.\<close>

definition settled ::
  "('l, 'r) env \<Rightarrow> token \<Rightarrow> string \<Rightarrow> string list \<Rightarrow> string \<Rightarrow> string \<Rightarrow> int \<Rightarrow> int
    \<Rightarrow> ('l, 'r, 'z) gateway_scheme \<Rightarrow> ('l, 'r, 'z) gateway_scheme" where
  "settled e t c ms ip url n k w =
     (let w = with_stats (RecordProxy (en_done e) (meta_of t) c n k False (\<not> tok_BillingFree t)) w
      in if n > 0 then
           w\<lparr>gw_limiter := IncrSuccess (en_rops e) (en_done e) (tok_Key t) n (gw_limiter w),
             gw_events := gw_events w @ [http_event e t c ms n url ip (length (gw_events w))]\<rparr>
         else w)"

definition upstream_failed ::
  "('l, 'r) env \<Rightarrow> token \<Rightarrow> string \<Rightarrow> bool \<Rightarrow> ('l, 'r, 'z) gateway_scheme \<Rightarrow> ('l, 'r, 'z) gateway_scheme" where
  "upstream_failed e t c b = with_stats (RecordProxy (en_done e) (meta_of t) c 0 0 True b)"

definition counted :: "int \<Rightarrow> string \<Rightarrow> int \<times> int" where
  "counted st resp = (if st \<ge> 200 \<and> st < 300 then CountResults resp else (0, 0))"

lemma account_eq:
  "account e t c ms ip a resp st w =
     (Reply st ''application/json'' resp,
      let w' = set_registry ((if st \<ge> 500 then pool_failure else pool_success) c a (gw_registry w)) w
      in if st \<ge> 500 then upstream_failed e t c (\<not> tok_BillingFree t) w'
         else settled e t c ms ip (node_url w a) (fst (counted st resp)) (snd (counted st resp)) w')"
  by (simp add: account_def settled_def upstream_failed_def counted_def Let_def split: prod.split)

text \<open>The registry facts of one request.\<close>

definition request_steps :: "string \<Rightarrow> registry \<Rightarrow> registry \<Rightarrow> string list \<Rightarrow> bool" where
  "request_steps c g g' us \<longleftrightarrow> reg_steps g g' \<and> same_nodes g g' \<and> retry_urls g c us"

lemma retry_urls_same: "same_nodes g g' \<Longrightarrow> retry_urls g' c us = retry_urls g c us"
  by (simp add: retry_urls_def same_nodes_def)

lemma request_steps_report:
  assumes "request_steps c g g' us" "serves g' c a"
  shows "request_steps c g ((if b then pool_failure else pool_success) c a g') us"
  using assms pool_report_steps [OF assms(2), of c]
  by (auto simp: request_steps_def intro: rtranclp_trans same_nodes_trans)

lemma ServeHTTP_cases:
  fixes w :: "('l, 'r, 'z) gateway_scheme"
  assumes "reg_inv (gw_registry w)" "rg_pools (gw_registry w) c \<noteq> None"
    and ctx: "ctx_Token (ht_ctx r) = Some t" "ctx_ChainID (ht_ctx r) = c"
  obtains (refused) st code msg where "ServeHTTP e r w = (writeJSONError st code msg, w)" "st \<in> {400, 401, 405}"
  | (down) body g us where "read_limited two_mb (ht_Body r) = Inr body" "request_steps c (gw_registry w) g us"
      "ServeHTTP e r w =
         (writeJSONError 502 (-32004) ''upstream unavailable'', upstream_failed e t c False (sent g us body w))"
  | (server_error) body g us st resp where "read_limited two_mb (ht_Body r) = Inr body"
      "request_steps c (gw_registry w) g us" "500 \<le> st"
      "ServeHTTP e r w = (Reply st ''application/json'' resp,
         upstream_failed e t c (\<not> tok_BillingFree t) (sent g us body w))"
  | (answered) body g us url st resp where "read_limited two_mb (ht_Body r) = Inr body"
      "request_steps c (gw_registry w) g us" "st < 500" "url \<in> pool_urls (gw_registry w) c"
      "ServeHTTP e r w = (Reply st ''application/json'' resp,
         settled e t c (ctx_Methods (ht_ctx r)) (ClientIP r) url (fst (counted st resp)) (snd (counted st resp))
           (sent g us body w))"
proof (cases "ht_Method r \<noteq> ''POST'' \<or> c = [] \<or> (\<exists>err. read_limited two_mb (ht_Body r) = Inl err)")
  case True
  then have "\<exists>st code msg. ServeHTTP e r w = (writeJSONError st code msg, w) \<and> st \<in> {400, 401, 405}"
    using assms(2) ctx by (auto simp: ServeHTTP_def Let_def lookup_pool_def) (rule exI [of _ 400], auto)
  then show thesis using refused by blast
next
  case False
  then obtain body where body: "read_limited two_mb (ht_Body r) = Inr body"
    by (cases "read_limited two_mb (ht_Body r)") auto
  from pool_next_picks [OF assms(1,2)] obtain a g1 where n: "pool_next c (gw_registry w) = (Pick a, g1)"
    and a: "serves (gw_registry w) c a" and g1: "reg_steps (gw_registry w) g1" "same_nodes (gw_registry w) g1"
    by blast
  let ?w1 = "set_registry g1 w"
  have "reg_inv (gw_registry ?w1)" "serves (gw_registry ?w1) c a"
    using reg_steps_inv [OF g1(1) assms(1)] a g1(2) by (simp_all add: same_nodes_def)
  from forward_retry_spec [OF this, of e body "ht_Header r ''User-Agent''"] obtain b res g us
    where f: "forward_retry e c body (ht_Header r ''User-Agent'') a ?w1 = (Some (b, res), sent g us body ?w1)"
      and b: "serves g c b" and g: "reg_steps g1 g" "same_nodes g1 g" and us: "retry_urls g1 c us"
    unfolding set_registry_simps by metis
  have steps: "request_steps c (gw_registry w) g us"
    using g g1 us by (auto simp: request_steps_def retry_urls_same intro: rtranclp_trans same_nodes_trans)
  have w1: "sent g us body ?w1 = sent g us body w" for g us by (simp add: sent_def set_registry_def)
  have S: "ServeHTTP e r w =
    (case res of
       Inl err \<Rightarrow> (writeJSONError 502 (-32004) ''upstream unavailable'', upstream_failed e t c False (sent g us body w))
     | Inr (resp, st) \<Rightarrow> account e t c (ctx_Methods (ht_ctx r)) (ClientIP r) b resp st (sent g us body w))"
    using False assms(2) ctx n f
    by (auto simp add: ServeHTTP_def Let_def lookup_pool_def body w1 upstream_failed_def split: sum.split)
  show thesis
  proof (cases res)
    case (Inl err)
    with S down [OF body steps] show thesis by simp
  next
    case (Inr x)
    obtain resp st where x: "x = (resp, st)" by fastforce
    let ?u = "node_url (sent g us body w) b"
    have u: "?u \<in> pool_urls (gw_registry w) c"
      using serves_url [OF b] steps by (simp add: node_url_def request_steps_def same_nodes_def)
    note R = request_steps_report [OF steps b, of "500 \<le> st"]
    show thesis
    proof (cases "500 \<le> st")
      case True
      with server_error [OF body, of "pool_failure c b g"] S Inr x R show thesis
        by (simp add: account_eq Let_def)
    next
      case False
      with answered [OF body, of "pool_success c b g" us st ?u resp] S Inr x R u show thesis
        by (simp add: account_eq Let_def)
    qed
  qed
qed


subsection \<open>The books\<close>

lemma booked_sent: "booked w (sent g us body w)"
  by (rule booked_same) simp_all

lemma booked_failed: "booked w (upstream_failed e t c b w)"
  using booked_quiet [of "Ev_Proxy (en_done e) (meta_of t) c 0 0 True b" w]
  by (simp add: upstream_failed_def apply_event_eta)

lemma meta_of_key [simp]: "tm_Key (meta_of t) = tok_Key t"
  by (simp add: meta_of_def)

lemma http_event_simps [simp]:
  "ev_TokenKey (http_event e t c ms n u ip i) = tok_Key t" "ev_SuccessN (http_event e t c ms n u ip i) = n"
  "ev_Billable (http_event e t c ms n u ip i) = (\<not> tok_BillingFree t)" "ev_At (http_event e t c ms n u ip i) = en_done e"
  by (simp_all add: http_event_def)

lemma booked_settled: "booked w (settled e t c ms ip url n k w)"
proof (cases "0 < n")
  case True
  let ?ev = "Ev_Proxy (en_done e) (meta_of t) c n k False (\<not> tok_BillingFree t)"
  let ?b = "http_event e t c ms n url ip (length (gw_events w))"
  have "booked w (with_stats (apply_event ?ev) w
      \<lparr>gw_limiter := IncrSuccess (en_rops e) (ev_At ?b) (tok_Key t) (ev_SuccessN ?b) (gw_limiter w),
       gw_events := gw_events w @ [?b]\<rparr>)"
    by (rule booked_success) (use True in auto)
  with True show ?thesis by (simp add: settled_def Let_def apply_event_eta)
next
  case False
  then have "quiet_event (Ev_Proxy (en_done e) (meta_of t) c n k False (\<not> tok_BillingFree t))" by simp
  from booked_quiet [OF this, of w] False show ?thesis by (simp add: settled_def Let_def apply_event_eta)
qed

lemma ServeHTTP_booked:
  assumes "reg_inv (gw_registry w)" "rg_pools (gw_registry w) c \<noteq> None"
    and "ctx_Token (ht_ctx r) = Some t" "ctx_ChainID (ht_ctx r) = c"
  shows "booked w (snd (ServeHTTP e r w))"
  using assms
proof (cases rule: ServeHTTP_cases [where e = e])
  case (refused st code msg)
  then show ?thesis by simp
next
  case (down body g us)
  then show ?thesis using booked_trans [OF booked_sent booked_failed] by simp
next
  case (server_error body g us st resp)
  then show ?thesis using booked_trans [OF booked_sent booked_failed] by simp
next
  case (answered body g us url st resp)
  then show ?thesis using booked_trans [OF booked_sent booked_settled] by simp
qed

text \<open>
  C6: the client pays for what it receives. A request that reaches the proxy adds at most one billing
  event, and it is determined by the reply that goes to the client: there is one if and only if the
  status is 2xx and the body contains at least one successful response, and it then carries the
  number of them, the token and network of the request, the methods that passed the filter, the
  billable flag of the token, the price times the count, and the URL of a node of that network's pool.
\<close>

theorem client_billed_for_reply:
  assumes "reg_inv (gw_registry w)" "rg_pools (gw_registry w) c \<noteq> None"
    and "ctx_Token (ht_ctx r) = Some t" "ctx_ChainID (ht_ctx r) = c"
  shows "\<exists>st ct resp w' url. ServeHTTP e r w = (Reply st ct resp, w') \<and> url \<in> pool_urls (gw_registry w) c \<and>
    gw_events w' = gw_events w @
      (let n = fst (CountResults resp)
       in if 200 \<le> st \<and> st < 300 \<and> 0 < n
          then [http_event e t c (ctx_Methods (ht_ctx r)) n url (ClientIP r) (length (gw_events w))] else [])"
proof -
  obtain p where p: "rg_pools (gw_registry w) c = Some p" "pool_inv (rg_heap (gw_registry w)) p"
    using assms(1,2) by (auto simp: reg_inv_def)
  then obtain u where u: "u \<in> pool_urls (gw_registry w) c"
    using p by (cases "po_nodes p") (auto simp: pool_urls_def pool_inv_def)
  from assms show ?thesis
  proof (cases rule: ServeHTTP_cases [where e = e])
    case (refused st code msg)
    with u show ?thesis by (auto simp: writeJSONError_def)
  next
    case (down body g us)
    with u show ?thesis by (auto simp: writeJSONError_def upstream_failed_def)
  next
    case (server_error body g us st resp)
    with u show ?thesis by (auto simp: upstream_failed_def)
  next
    case (answered body g us url st resp)
    then show ?thesis by (auto simp: settled_def counted_def Let_def)
  qed
qed


subsection \<open>A request on the sample registry\<close>

text \<open>Every upstream answers with one success; the clock is at one second.\<close>

definition sample_reply :: string where
  "sample_reply = dq ''{`id`:1,`result`:`0x1`}''"

definition sample_env :: "(int, unit) env" where
  "sample_env =
     \<lparr>en_now = 1000000000, en_done = 1000000000, en_uuid = show_nat, en_rops = down_redis,
      en_lops = sample_rate_ops, en_ulower = (\<lambda>s. s), en_jerr = (\<lambda>s. ''invalid json''),
      en_upstream = (\<lambda>n u b ua. Inr (200, Inr sample_reply)), en_upgrade = (\<lambda>r. None), en_dial = (\<lambda>u. True)\<rparr>"

definition sample_store :: token_store where
  "sample_store = \<lparr>sto_tokens = [''demo'' \<mapsto> sample_token]\<rparr>"

definition sample_http :: "(int, unit) gateway" where
  "sample_http =
     \<lparr>gw_tokens = sample_store, gw_registry = sample_registry, gw_limiter = New None True,
      gw_stats = Some NewCollector, gw_events = [], gw_forwards = []\<rparr>"

definition sample_post :: "string \<Rightarrow> string \<Rightarrow> req_context \<Rightarrow> request" where
  "sample_post key body ctx =
     \<lparr>ht_Method = ''POST'', ht_Host = ''localhost'', ht_token = key, ht_RemoteAddr = ''1.2.3.4:5'',
      ht_Header = (\<lambda>h. []), ht_Query = (\<lambda>q. []), ht_Body = Inr body, ht_ctx = ctx\<rparr>"

lemma sample_post_simps [simp]:
  "ht_Method (sample_post key body ctx) = ''POST''" "ht_ctx (sample_post key body ctx) = ctx" "ht_token (sample_post key body ctx) = key"
  "ht_Body (sample_post key body ctx) = Inr body" "ht_Host (sample_post key body ctx) = ''localhost''"
  by (simp_all add: sample_post_def)

definition sample_body :: string where
  "sample_body = dq ''{`id`:1,`method`:`eth_blockNumber`}''"

definition sample_context :: req_context where
  "sample_context = WithChainID (WithToken empty_context (Some sample_token)) ''eth''"

lemma sample_context_simps [simp]:
  "ctx_Token sample_context = Some sample_token" "ctx_ChainID sample_context = ''eth''" "ctx_Methods sample_context = []"
  by (simp_all add: sample_context_def context_defs)

lemma sample_http_simps [simp]:
  "gw_registry sample_http = sample_registry" "gw_events sample_http = []"
  "rg_pools sample_registry ''eth'' \<noteq> None" "reg_inv sample_registry"
  by (simp_all add: sample_http_def sample_pool sample_inv)

theorem client_billed_for_reply_witness:
  "\<exists>st ct resp w' url. ServeHTTP sample_env (sample_post ''demo'' sample_body sample_context) sample_http = (Reply st ct resp, w') \<and>
    url \<in> pool_urls sample_registry ''eth'' \<and>
    gw_events w' =
      (let n = fst (CountResults resp)
       in if 200 \<le> st \<and> st < 300 \<and> 0 < n
          then [http_event sample_env sample_token ''eth'' [] n url (ClientIP (sample_post ''demo'' sample_body sample_context)) 0]
          else [])"
  using client_billed_for_reply [of sample_http "''eth''" "sample_post ''demo'' sample_body sample_context" sample_token sample_env]
  by (simp cong: if_cong)

end
