(* ===== verification/Jsonrpc_Spec.thy ===== *)
theory Jsonrpc_Spec
  imports Jsonrpc
begin

section \<open>What the JSON-RPC readers promise\<close>

text \<open>
  The decoders against declarative readings of the parsed message: which methods \<open>ParseMethods\<close>
  reports, and that the two ways in which the gateway judges a response agree.
\<close>

subsection \<open>The first character decides\<close>

lemma strip_suffix: "\<exists>k. strip ps s = drop k s"
proof (induction ps s rule: strip.induct)
  case (1 ps s)
  show ?case
  proof (cases "find (\<lambda>p. has_prefix p s) ps")
    case None
    then have "strip ps s = drop 0 s" by (simp add: strip.simps [of ps s])
    then show ?thesis by blast
  next
    case (Some p)
    show ?thesis
    proof (cases "p = [] \<or> s = []")
      case True
      then have "strip ps s = drop 0 s" by (simp add: strip.simps [of ps s] Some)
      then show ?thesis by blast
    next
      case False
      with 1 [OF Some] obtain k where "strip ps (drop (length p) s) = drop k (drop (length p) s)" by blast
      with False have "strip ps s = drop (k + length p) s" by (simp add: strip.simps [of ps s] Some)
      then show ?thesis by blast
    qed
  qed
qed

lemma strip_no_prefix:
  "[] \<notin> set ps \<Longrightarrow> strip ps s \<noteq> [] \<Longrightarrow> p \<in> set ps \<Longrightarrow> \<not> has_prefix p (strip ps s)"
proof (induction ps s rule: strip.induct)
  case (1 ps s)
  show ?case
  proof (cases "find (\<lambda>p. has_prefix p s) ps")
    case None
    then have "strip ps s = s" by (simp add: strip.simps [of ps s])
    with None "1.prems"(3) show ?thesis by (auto simp: find_None_iff)
  next
    case (Some q)
    then have "q \<in> set ps" by (metis find_Some_iff nth_mem)
    then have "q \<noteq> []" using "1.prems"(1) by auto
    show ?thesis
    proof (cases "s = []")
      case True
      then show ?thesis using "1.prems"(2) strip_suffix [of ps s] by auto
    next
      case False
      with \<open>q \<noteq> []\<close> have eq: "strip ps s = strip ps (drop (length q) s)" by (simp add: strip.simps [of ps s] Some)
      from 1 Some False \<open>q \<noteq> []\<close> show ?thesis unfolding eq by simp
    qed
  qed
qed

lemma trim_space_hd:
  assumes "trim_space s = c # cs"
  shows "\<not> is_ws c"
proof
  assume ws: "is_ws c"
  let ?t = "strip space_runes s"
  obtain k where "strip (map rev space_runes) (rev ?t) = drop k (rev ?t)" using strip_suffix by blast
  then have "c # cs = take (length ?t - k) ?t" using assms by (simp add: trim_space_def rev_drop)
  then have t: "?t = c # drop 1 ?t" by (cases ?t) (auto simp: take_Cons split: nat.splits)
  have "[c] \<in> set space_runes" using ws by (auto simp: is_ws_def space_runes_def)
  moreover have "[] \<notin> set space_runes" by (simp add: space_runes_def)
  ultimately have "\<not> has_prefix [c] ?t" using t by (intro strip_no_prefix) auto
  moreover have "has_prefix [c] ?t" by (subst t) (simp add: has_prefix_def)
  ultimately show False by blast
qed

lemma skip_ws_trim: "skip_ws (trim_space s) = trim_space s"
  using trim_space_hd [of s] by (cases "trim_space s") (auto simp: skip_ws_def)

fun is_array :: "jval \<Rightarrow> bool" where
  "is_array (JArr vs r) = True"
| "is_array v = False"

lemma pval_array: "pval n d (c # cs) = Some (v, r) \<Longrightarrow> is_array v \<longleftrightarrow> c = CHR ''[''"
  by (cases n) (auto simp: quote_def split: if_splits list.splits)

lemma parse_json_array:
  assumes "parse_json (trim_space s) = Some v"
  shows "trim_space s \<noteq> [] \<and> (is_array v \<longleftrightarrow> hd (trim_space s) = CHR ''['')"
proof -
  let ?t = "trim_space s"
  from assms obtain r where p: "pval (2 * length ?t + 2) 0 ?t = Some (v, r)"
    by (auto simp: parse_json_def skip_ws_trim Let_def split: option.splits if_splits)
  then obtain c cs where t: "?t = c # cs" by (cases ?t) (auto simp: numeral_2_eq_2)
  from p [unfolded t] have "is_array v \<longleftrightarrow> c = CHR ''[''" by (rule pval_array)
  then show ?thesis by (simp add: t)
qed

subsection \<open>Declarative readings\<close>

text \<open>
  The values of the members of a name, in order; the strings among them; and the value that counts.
\<close>

definition values_of :: "string \<Rightarrow> (string \<times> jval) list \<Rightarrow> jval list" where
  "values_of f ms = map snd (filter (\<lambda>(k, v). is_field f k) ms)"

fun text_of :: "jval \<Rightarrow> string option" where
  "text_of (JStr t r) = Some t"
| "text_of v = None"

fun is_text :: "jval \<Rightarrow> bool" where
  "is_text (JStr t r) = True"
| "is_text v = (v = JNull)"

fun is_struct :: "jval \<Rightarrow> bool" where
  "is_struct (JObj ms r) = True"
| "is_struct v = (v = JNull)"

text \<open>\<open>v\<close> is a request that names the method \<open>m\<close>: the last string under its \<open>method\<close> members.\<close>

fun names :: "jval \<Rightarrow> string \<Rightarrow> bool" where
  "names (JObj ms r) m \<longleftrightarrow>
     list_all is_text (values_of ''method'' ms) \<and> m \<noteq> [] \<and>
     last ([] # List.map_filter text_of (values_of ''method'' ms)) = m"
| "names v m \<longleftrightarrow> False"

text \<open>\<open>v\<close> is a response whose last \<open>error\<close> member is not \<open>null\<close>.\<close>

fun failed :: "jval \<Rightarrow> bool" where
  "failed (JObj ms r) \<longleftrightarrow> last (JNull # values_of ''error'' ms) \<noteq> JNull"
| "failed v \<longleftrightarrow> False"

lemma values_of_simps [simp]:
  "values_of f [] = []"
  "values_of f ((k, v) # ms) = (if is_field f k then v # values_of f ms else values_of f ms)"
  by (simp_all add: values_of_def)

lemma fields_differ [simp]:
  "is_field ''error'' k \<Longrightarrow> \<not> is_field ''id'' k" "is_field ''error'' k \<Longrightarrow> \<not> is_field ''result'' k"
  "is_field ''method'' k \<Longrightarrow> \<not> is_field ''id'' k"
  by (auto simp: is_field_def upper_char_def)

subsection \<open>The methods\<close>

lemma dec_string_text: "dec_string s v = (if is_text v then Some (case text_of v of Some t \<Rightarrow> t | None \<Rightarrow> s) else None)"
  by (cases v) auto

lemma dec_members_request:
  "(\<exists>q'. dec_members assign_request q ms = Some q' \<and> rq_Method q' = m) \<longleftrightarrow>
     list_all is_text (values_of ''method'' ms) \<and>
     last (rq_Method q # List.map_filter text_of (values_of ''method'' ms)) = m"
proof (induction ms arbitrary: q)
  case Nil
  then show ?case by (simp add: List.map_filter_simps)
next
  case (Cons x ms)
  obtain k v where x: "x = (k, v)" by (cases x)
  show ?case
    using Cons.IH [of "q\<lparr>rq_Method := case text_of v of Some t \<Rightarrow> t | None \<Rightarrow> rq_Method q\<rparr>"]
      Cons.IH [of "q\<lparr>rq_ID := raw v\<rparr>"] Cons.IH [of q]
    by (auto simp: x assign_request_def dec_string_text List.map_filter_simps split: option.split)
qed

lemma dec_request_names:
  "(\<exists>q. dec_request v = Some q \<and> rq_Method q = m) \<and> m \<noteq> [] \<longleftrightarrow> names v m"
proof (cases v)
  case (JObj ms r)
  have "(\<exists>q. dec_request v = Some q \<and> rq_Method q = m) \<longleftrightarrow>
     list_all is_text (values_of ''method'' ms) \<and>
     last ([] # List.map_filter text_of (values_of ''method'' ms)) = m"
    using dec_members_request [of "\<lparr>rq_Method = [], rq_ID = []\<rparr>" ms m] by (simp add: dec_request_def JObj)
  then show ?thesis by (auto simp: JObj)
qed (auto simp: dec_request_def)

lemma batch_methods_Inr: "batch_methods i qs = Inr ms \<longleftrightarrow> ms = map rq_Method qs \<and> [] \<notin> set ms"
proof (induction qs arbitrary: i ms)
  case Nil
  then show ?case by auto
next
  case (Cons q qs)
  show ?case
  proof (cases "batch_methods (Suc i) qs")
    case (Inl e)
    with Cons.IH [of "Suc i" "map rq_Method qs"] show ?thesis by auto
  next
    case (Inr ms')
    with Cons.IH [of "Suc i" ms'] show ?thesis by (auto simp: Inr)
  qed
qed

lemma dec_list_request:
  "(\<exists>qs. dec_list dec_request vs = Some qs \<and> map rq_Method qs = ms \<and> [] \<notin> set ms) \<longleftrightarrow> list_all2 names vs ms"
proof (induction vs arbitrary: ms)
  case Nil
  then show ?case by auto
next
  case (Cons v vs)
  show ?case
  proof (cases ms)
    case Nil
    then show ?thesis by (auto split: option.splits)
  next
    case (Cons m ms')
    have "(\<exists>qs. dec_list dec_request (v # vs) = Some qs \<and> map rq_Method qs = ms \<and> [] \<notin> set ms) \<longleftrightarrow>
      ((\<exists>q. dec_request v = Some q \<and> rq_Method q = m) \<and> m \<noteq> []) \<and>
      (\<exists>qs. dec_list dec_request vs = Some qs \<and> map rq_Method qs = ms' \<and> [] \<notin> set ms')"
      by (cases "dec_request v"; cases "dec_list dec_request vs") (auto simp: Cons)
    then show ?thesis by (simp add: dec_request_names Cons.IH Cons)
  qed
qed

text \<open>
  C24: \<open>ParseMethods\<close> reads exactly the methods the message names. It succeeds with \<open>ms\<close> if and only if
  the trimmed body is one JSON text and that is either a non-empty array whose elements are, one by
  one and in order, requests naming the elements of \<open>ms\<close>, or a single request naming the one element
  of \<open>ms\<close>. No element of a batch escapes the filter that runs on this list.
\<close>

theorem parse_methods_exact:
  "ParseMethods jerr body = Inr ms \<longleftrightarrow>
     (\<exists>v. parse_json (trim_space body) = Some v \<and>
        (case v of JArr vs r \<Rightarrow> vs \<noteq> [] \<and> list_all2 names vs ms | _ \<Rightarrow> (\<exists>m. names v m \<and> ms = [m])))"
proof (cases "parse_json (trim_space body)")
  case None
  then show ?thesis by (auto simp: ParseMethods_def unmarshal_def Let_def)
next
  case (Some v)
  note hd = parse_json_array [OF Some]
  show ?thesis
  proof (cases "is_array v")
    case True
    then obtain vs r where v: "v = JArr vs r" by (cases v) auto
    have "ParseMethods jerr body = Inr ms \<longleftrightarrow>
      vs \<noteq> [] \<and> (\<exists>qs. dec_list dec_request vs = Some qs \<and> map rq_Method qs = ms \<and> [] \<notin> set ms)"
      using hd dec_list_length [of dec_request vs]
      by (auto simp: ParseMethods_def unmarshal_def Some v batch_methods_Inr Let_def split: option.split)
    then show ?thesis by (simp add: dec_list_request Some v)
  next
    case False
    have "ParseMethods jerr body = Inr ms \<longleftrightarrow>
      (\<exists>m. (\<exists>q. dec_request v = Some q \<and> rq_Method q = m) \<and> m \<noteq> [] \<and> ms = [m])"
      using hd False by (auto simp: ParseMethods_def unmarshal_def Some Let_def split: option.split)
    then have "ParseMethods jerr body = Inr ms \<longleftrightarrow> (\<exists>m. names v m \<and> ms = [m])"
      by (simp add: conj_assoc [symmetric] dec_request_names)
    with False show ?thesis by (cases v) (simp_all add: Some)
  qed
qed

subsection \<open>Successes and errors\<close>

lemma dec_members_response:
  "\<exists>s'. dec_members assign_response s ms = Some s' \<and>
     (rs_Error s' = None \<longleftrightarrow> last ((if rs_Error s = None then JNull else JBool True) # values_of ''error'' ms) = JNull)"
proof (induction ms arbitrary: s)
  case Nil
  then show ?case by simp
next
  case (Cons x ms)
  obtain k v where x: "x = (k, v)" by (cases x)
  show ?case
    using Cons.IH [of "s\<lparr>rs_Error := if v = JNull then None else Some (raw v)\<rparr>"]
      Cons.IH [of "s\<lparr>rs_ID := raw v\<rparr>"] Cons.IH [of s]
    by (auto simp: x assign_response_def split: if_splits)
qed

lemma dec_response_failed:
  "case dec_response v of None \<Rightarrow> \<not> is_struct v
   | Some s \<Rightarrow> is_struct v \<and> (rs_Error s = None \<longleftrightarrow> \<not> failed v)"
proof (cases v)
  case (JObj ms r)
  then show ?thesis
    using dec_members_response [of "\<lparr>rs_Error = None, rs_ID = []\<rparr>" ms] by (auto simp: dec_response_def)
qed (auto simp: dec_response_def)

lemma count_results_eq:
  "count_results rs s e =
     (s + int (length (filter (\<lambda>r. rs_Error r = None) rs)), e + int (length (filter (\<lambda>r. rs_Error r \<noteq> None) rs)))"
  by (induction rs s e rule: count_results.induct) auto

lemma dec_list_response:
  "case dec_list dec_response vs of None \<Rightarrow> \<not> list_all is_struct vs
   | Some rs \<Rightarrow> list_all is_struct vs \<and> map (\<lambda>r. rs_Error r \<noteq> None) rs = map failed vs"
proof (induction vs)
  case Nil
  then show ?case by simp
next
  case (Cons v vs)
  then show ?case using dec_response_failed [of v] by (auto split: option.splits)
qed

lemma filter_length_map: "map f xs = map g ys \<Longrightarrow> length (filter f xs) = length (filter g ys)"
proof (induction xs arbitrary: ys)
  case Nil
  then show ?case by simp
next
  case (Cons x xs)
  then show ?case by (cases ys) auto
qed

lemma count_dec_list:
  assumes "dec_list dec_response vs = Some rs"
  shows "count_results rs 0 0 = (int (length (filter (Not \<circ> failed) vs)), int (length (filter failed vs)))"
proof -
  have 1: "map (\<lambda>r. rs_Error r \<noteq> None) rs = map failed vs" using dec_list_response [of vs] assms by simp
  from arg_cong [OF 1, of "map Not"]
  have 2: "map (\<lambda>r. rs_Error r = None) rs = map (Not \<circ> failed) vs" by (simp add: o_def)
  show ?thesis
    unfolding count_results_eq using filter_length_map [OF 1] filter_length_map [OF 2] by simp
qed

text \<open>
  C25: the gateway counts as a success every response without an error. \<open>CountResults\<close> gives, for a
  body that is one JSON text, the number of responses whose last \<open>error\<close> member is missing or \<open>null\<close>
  and the number of the others, over all elements of a batch, and (0, 0) as soon as one element is
  not an object or \<open>null\<close>, or the body is not JSON. In particular \<open>null\<close> and an object without
  \<open>result\<close> count as successes.
\<close>

theorem count_results_exact:
  "CountResults body =
     (case parse_json (trim_space body) of
        None \<Rightarrow> (0, 0)
      | Some v \<Rightarrow>
          let vs = (case v of JArr vs r \<Rightarrow> vs | _ \<Rightarrow> [v])
          in if list_all is_struct vs
             then (int (length (filter (Not \<circ> failed) vs)), int (length (filter failed vs)))
             else (0, 0))"
proof (cases "parse_json (trim_space body)")
  case None
  then show ?thesis by (auto simp: CountResults_def unmarshal_def Let_def)
next
  case (Some v)
  note hd = parse_json_array [OF Some]
  show ?thesis
  proof (cases "is_array v")
    case True
    then obtain vs r where v: "v = JArr vs r" by (cases v) auto
    show ?thesis
    proof (cases "dec_list dec_response vs")
      case None
      then show ?thesis using hd dec_list_response [of vs]
        by (auto simp: CountResults_def unmarshal_def Some v Let_def)
    next
      case rs: (Some rs)
      then show ?thesis using hd dec_list_response [of vs] count_dec_list [OF rs]
        by (auto simp: CountResults_def unmarshal_def Some v Let_def)
    qed
  next
    case False
    then have single: "(case v of JArr vs r \<Rightarrow> vs | _ \<Rightarrow> [v]) = [v]" by (cases v) auto
    show ?thesis
      using hd False dec_response_failed [of v]
      by (auto simp: CountResults_def unmarshal_def Some single Let_def split: option.splits)
  qed
qed

subsection \<open>The two readings of a response agree\<close>

lemma pval_null: "pval n d s = Some (v, r) \<Longrightarrow> raw v = ''null'' \<longleftrightarrow> v = JNull"
proof
  assume p: "pval n d s = Some (v, r)" and "raw v = ''null''"
  then have s: "s = ''null'' @ r" using pval_raw by metis
  then show "v = JNull" using p by (cases n) (auto simp: quote_def has_prefix_def)
qed simp

lemma pmems_values:
  "pmems n d s = Some (ms, r) \<Longrightarrow> (k, v) \<in> set ms \<Longrightarrow> \<exists>n d s r. pval n d s = Some (v, r)"
proof (induction n arbitrary: s ms r)
  case 0
  then show ?case by simp
next
  case (Suc n)
  then show ?case by (auto split: list.splits if_splits option.splits) blast+
qed

lemma pval_has_id: "pval n d s = Some (v, r) \<Longrightarrow> has_id (raw v) \<longleftrightarrow> v \<noteq> JNull"
  using pval_null pval_raw_nonempty by (fastforce simp: has_id_def)

lemma pval_members:
  assumes "pval n d s = Some (JObj ms t, r)"
  shows "list_all (\<lambda>(k, v). has_id (raw v) \<longleftrightarrow> v \<noteq> JNull) ms"
proof -
  have "has_id (raw v) \<longleftrightarrow> v \<noteq> JNull" if "(k, v) \<in> set ms" for k v
    using assms that by (cases n) (auto split: list.splits if_splits dest: pmems_values pval_has_id)
  then show ?thesis by (auto simp: list_all_iff)
qed

lemma parse_json_members:
  assumes "parse_json s = Some (JObj ms t)"
  shows "list_all (\<lambda>(k, v). has_id (raw v) \<longleftrightarrow> v \<noteq> JNull) ms"
proof -
  obtain n r where "pval n 0 (skip_ws s) = Some (JObj ms t, r)"
    using assms by (auto simp: parse_json_def Let_def simp del: pval.simps split: option.splits if_splits)
  then show ?thesis by (rule pval_members)
qed

lemma dec_members_response_meta:
  "list_all (\<lambda>(k, v). has_id (raw v) \<longleftrightarrow> v \<noteq> JNull) ms \<Longrightarrow>
   \<exists>s'. dec_members assign_response_meta s ms = Some s' \<and>
     (has_id (sm_Error s') \<longleftrightarrow> last ((if has_id (sm_Error s) then JBool True else JNull) # values_of ''error'' ms) \<noteq> JNull)"
proof (induction ms arbitrary: s)
  case Nil
  then show ?case by simp
next
  case (Cons x ms)
  obtain k v where x: "x = (k, v)" by (cases x)
  have v: "has_id (raw v) \<longleftrightarrow> v \<noteq> JNull" and ms: "list_all (\<lambda>(k, v). has_id (raw v) \<longleftrightarrow> v \<noteq> JNull) ms"
    using Cons.prems by (simp_all add: x)
  note IH = Cons.IH [OF ms]
  show ?case
    using IH [of "s\<lparr>sm_Error := raw v\<rparr>"] IH [of "s\<lparr>sm_ID := raw v\<rparr>"] IH [of "s\<lparr>sm_Result := raw v\<rparr>"] IH [of s]
    by (auto simp: x v assign_response_meta_def split: if_splits)
qed

lemma dec_response_meta_failed:
  assumes "parse_json s = Some v"
  shows "case dec_response_meta v of None \<Rightarrow> \<not> is_struct v
    | Some m \<Rightarrow> is_struct v \<and> (has_id (sm_Error m) \<longleftrightarrow> failed v)"
proof (cases v)
  case (JObj ms r)
  then show ?thesis
    using dec_members_response_meta [OF parse_json_members, of s ms r "\<lparr>sm_ID = [], sm_Error = [], sm_Result = []\<rparr>"] assms
    by (auto simp: dec_response_meta_def has_id_def)
qed (auto simp: dec_response_meta_def has_id_def)

text \<open>
  The WebSocket proxy and the HTTP proxy judge a single response alike. Where
  \<open>ParseResponseMeta\<close> reads a response, \<open>CountResults\<close> counts exactly one success if it says that the
  call succeeded and exactly one error otherwise; where it refuses the body, \<open>CountResults\<close> counts
  nothing, unless the body is a batch.
\<close>

lemma readings_agree:
  "case ParseResponseMeta jerr body of
     Inl e \<Rightarrow> CountResults body = (0, 0) \<or> hd (trim_space body) = CHR ''[''
   | Inr (i, ok, r) \<Rightarrow> CountResults body = (if ok then (1, 0) else (0, 1))"
proof (cases "trim_space body = [] \<or> parse_json (trim_space body) = None")
  case True
  then show ?thesis by (auto simp: ParseResponseMeta_def CountResults_def unmarshal_def Let_def)
next
  case False
  then obtain v where v: "parse_json (trim_space body) = Some v" and ne: "trim_space body \<noteq> []" by blast
  note hd = parse_json_array [OF v] and r = dec_response_failed [of v] and m = dec_response_meta_failed [OF v]
  show ?thesis
  proof (cases "dec_response_meta v")
    case None
    with hd r m ne show ?thesis
      by (auto simp: ParseResponseMeta_def CountResults_def unmarshal_def v Let_def split: option.splits)
  next
    case (Some s)
    then have "is_struct v" using m by simp
    then have "hd (trim_space body) \<noteq> CHR ''[''" using hd by (cases v) auto
    with Some hd r m ne show ?thesis
      by (auto simp: ParseResponseMeta_def CountResults_def unmarshal_def v Let_def has_id_def split: option.splits)
  qed
qed

end
