(* ===== verification/Wsproxy_Spec.thy ===== *)
theory Wsproxy_Spec
  imports Wsproxy Proxy_Spec Jsonrpc_Spec
begin

section \<open>The WebSocket proxy: connections, filter, subscriptions, billing\<close>

subsection \<open>The guard's contract\<close>

text \<open>
  What the handler needs of the guard: a slot is refused only when all are held, a granted slot counts
  one more and a released one counts one less. The client is a table of sessions, each holding one
  slot of its key: the count of a key is then the number of its sessions.
\<close>

definition occupied :: "(nat \<rightharpoonup> string) \<Rightarrow> string \<Rightarrow> int" where
  "occupied tab k = int (card {n. tab n = Some k})"

lemma occupied_sub: "finite (dom tab) \<Longrightarrow> finite {n. tab n = Some k}"
  by (rule finite_subset [of _ "dom tab"]) auto

lemma occupied_open:
  assumes "finite (dom tab)" "tab n = None"
  shows "occupied (tab(n \<mapsto> k)) k' = occupied tab k' + (if k' = k then 1 else 0)"
proof -
  have "{i. (tab(n \<mapsto> k)) i = Some k'} = (if k' = k then insert n {i. tab i = Some k'} else {i. tab i = Some k'})"
    using assms(2) by auto
  moreover have "card (insert n {i. tab i = Some k'}) = Suc (card {i. tab i = Some k'})"
    using occupied_sub [OF assms(1), of k'] assms(2) by (intro card_insert_disjoint) auto
  ultimately show ?thesis unfolding occupied_def by (cases "k' = k") simp_all
qed

lemma occupied_close:
  assumes "finite (dom tab)" "tab n = Some k"
  shows "occupied (tab(n := None)) k' = occupied tab k' - (if k' = k then 1 else 0)"
proof -
  let ?t = "tab(n := None)"
  have "occupied (?t(n \<mapsto> k)) k' = occupied ?t k' + (if k' = k then 1 else 0)"
    using assms(1) by (intro occupied_open) auto
  moreover have "?t(n \<mapsto> k) = tab" using assms(2) by auto
  ultimately show ?thesis by simp
qed

locale slot_guard =
  fixes acquire :: "string \<Rightarrow> 'g \<Rightarrow> bool \<times> 'g"
    and release :: "string \<Rightarrow> 'g \<Rightarrow> 'g"
    and held :: "'g \<Rightarrow> string \<Rightarrow> int"
    and limit :: "'g \<Rightarrow> int"
    and ok :: "'g \<Rightarrow> bool"
  assumes refused: "ok g \<Longrightarrow> acquire k g = (False, g') \<Longrightarrow> g' = g \<and> held g k = limit g"
    and granted: "ok g \<Longrightarrow> acquire k g = (True, g') \<Longrightarrow>
      ok g' \<and> limit g' = limit g \<and> held g' = (held g)(k := held g k + 1)"
    and released: "ok g \<Longrightarrow> 0 < held g k \<Longrightarrow>
      ok (release k g) \<and> limit (release k g) = limit g \<and> held (release k g) = (held g)(k := held g k - 1)"
    and bounded: "ok g \<Longrightarrow> held g k \<le> limit g"
    and not_negative: "ok g \<Longrightarrow> 0 \<le> held g k"
begin

definition tracks :: "'g \<Rightarrow> (nat \<rightharpoonup> string) \<Rightarrow> bool" where
  "tracks g tab \<longleftrightarrow> ok g \<and> finite (dom tab) \<and> held g = occupied tab"

lemma tracks_open:
  assumes "tracks g tab" "acquire k g = (True, g')" "tab n = None"
  shows "tracks g' (tab(n \<mapsto> k)) \<and> limit g' = limit g"
proof -
  have g: "ok g" "finite (dom tab)" "held g = occupied tab" using assms(1) by (simp_all add: tracks_def)
  note granted [OF g(1) assms(2)]
  moreover have "(held g)(k := held g k + 1) = occupied (tab(n \<mapsto> k))"
    using occupied_open [OF g(2) assms(3)] g(3) by (auto simp: fun_eq_iff)
  ultimately show ?thesis using g(2) by (simp add: tracks_def)
qed

lemma tracks_close:
  assumes "tracks g tab" "tab n = Some k"
  shows "tracks (release k g) (tab(n := None)) \<and> limit (release k g) = limit g"
proof -
  have g: "ok g" "finite (dom tab)" "held g = occupied tab" using assms(1) by (simp_all add: tracks_def)
  have "n \<in> {i. tab i = Some k}" using assms(2) by simp
  then have "0 < held g k"
    using occupied_sub [OF g(2), of k] g(3) by (auto simp: occupied_def card_gt_0_iff)
  note released [OF g(1) this]
  moreover have "(held g)(k := held g k - 1) = occupied (tab(n := None))"
    using occupied_close [OF g(2) assms(2)] g(3) by (auto simp: fun_eq_iff)
  ultimately show ?thesis using g(2) by (simp add: tracks_def)
qed

text \<open>A slot that is given back at once leaves no trace.\<close>

lemma tracks_undo:
  assumes "tracks g tab" "acquire k g = (True, g')"
  shows "tracks (release k g') tab \<and> limit (release k g') = limit g"
proof -
  have g: "ok g" "finite (dom tab)" "held g = occupied tab" using assms(1) by (simp_all add: tracks_def)
  have g': "ok g'" "limit g' = limit g" "held g' = (held g)(k := held g k + 1)"
    using granted [OF g(1) assms(2)] by auto
  then have "0 < held g' k" using not_negative [OF g(1), of k] by simp
  from released [OF g'(1) this] g g' show ?thesis by (auto simp: tracks_def)
qed

lemma tracks_bound: "tracks g tab \<Longrightarrow> occupied tab k \<le> limit g"
  using bounded by (metis tracks_def)

end

subsection \<open>The guard of the code\<close>

definition guard_ok :: "conn_guard \<Rightarrow> bool" where
  "guard_ok g \<longleftrightarrow>
     0 < cg_max g \<and> in64 (cg_max g) \<and> (\<forall>k. 0 \<le> conns g k \<and> conns g k \<le> cg_max g) \<and>
     (\<forall>k. cg_count g k \<noteq> Some 0)"

lemma conns_update [simp]:
  "conns (g\<lparr>cg_count := (cg_count g)(k \<mapsto> n)\<rparr>) k' = (if k' = k then n else conns g k')"
  "conns (g\<lparr>cg_count := (cg_count g)(k := None)\<rparr>) k' = (if k' = k then 0 else conns g k')"
  by (simp_all add: conns_def map_get_def)

lemma Acquire_granted:
  assumes "guard_ok g" "Acquire k g = (True, g')"
  shows "g' = g\<lparr>cg_count := (cg_count g)(k \<mapsto> conns g k + 1)\<rparr> \<and> conns g k < cg_max g"
proof -
  have "conns g k < cg_max g" and g': "g' = g\<lparr>cg_count := (cg_count g)(k \<mapsto> wrap64 (conns g k + 1))\<rparr>"
    using assms by (auto simp: Acquire_def guard_ok_def split: if_splits)
  moreover from this(1) have "wrap64 (conns g k + 1) = conns g k + 1"
    using assms(1) by (intro wrap64_id) (auto simp: guard_ok_def in64_def intro: order_trans [of _ 0])
  ultimately show ?thesis by simp
qed

lemma Release_held:
  assumes "0 < conns g k"
  shows "conns (Release k g) k' = (if k' = k then conns g k - 1 else conns g k')"
    and "cg_max (Release k g) = cg_max g"
    and "\<forall>j. cg_count g j \<noteq> Some 0 \<Longrightarrow> cg_count (Release k g) j \<noteq> Some 0"
  using assms by (auto simp: Release_def Let_def)

interpretation guard: slot_guard Acquire Release conns cg_max guard_ok
proof
  fix g k g'
  assume ok: "guard_ok g"
  then show "conns g k \<le> cg_max g" "0 \<le> conns g k" by (simp_all add: guard_ok_def)
  show "g' = g \<and> conns g k = cg_max g" if "Acquire k g = (False, g')"
    using that ok by (auto simp: Acquire_def guard_ok_def intro: antisym split: if_splits)
  show "guard_ok g' \<and> cg_max g' = cg_max g \<and> conns g' = (conns g)(k := conns g k + 1)"
    if "Acquire k g = (True, g')"
  proof -
    note A = Acquire_granted [OF ok that]
    define n where "n = conns g k + 1"
    have "0 \<le> conns g k" "0 < cg_max g" using ok by (simp_all add: guard_ok_def)
    with A have n: "0 < n" "n \<le> cg_max g" "0 < cg_max g" by (simp_all add: n_def)
    have g': "g' = g\<lparr>cg_count := (cg_count g)(k \<mapsto> n)\<rparr>" using A by (simp add: n_def)
    from n ok show ?thesis unfolding n_def [symmetric] g' by (auto simp: guard_ok_def fun_eq_iff)
  qed
  show "guard_ok (Release k g) \<and> cg_max (Release k g) = cg_max g \<and>
      conns (Release k g) = (conns g)(k := conns g k - 1)" if "0 < conns g k"
    using Release_held [OF that] ok that unfolding guard_ok_def fun_eq_iff
    by (auto intro: order_trans [of _ "conns g k"])
qed


subsection \<open>What a message may change\<close>

text \<open>The pumps change nothing of the gateway but the three books, and nothing of a session's identity.\<close>

definition only_books :: "('l, 'r, 'z) gateway_scheme \<Rightarrow> ('l, 'r, 'z) gateway_scheme \<Rightarrow> bool" where
  "only_books w w' \<longleftrightarrow> (\<exists>st l evs. w' = w\<lparr>gw_stats := st, gw_limiter := l, gw_events := evs\<rparr>)"

lemma only_books_simps:
  assumes "only_books w w'"
  shows "gw_registry w' = gw_registry w" "gw_tokens w' = gw_tokens w" "gw_forwards w' = gw_forwards w"
    "gateway.more w' = gateway.more w"
  using assms by (auto simp: only_books_def)

lemma only_books_ws:
  assumes "only_books w w'"
  shows "gw_conns w' = gw_conns w" "gw_sessions w' = gw_sessions w" "gw_opened w' = gw_opened w"
  using assms by (auto simp: only_books_def)

lemma only_books_refl [simp]: "only_books w w"
  unfolding only_books_def
  by (rule exI [of _ "gw_stats w"], rule exI [of _ "gw_limiter w"], rule exI [of _ "gw_events w"]) simp

lemma only_books_trans [trans]: "only_books w w' \<Longrightarrow> only_books w' w'' \<Longrightarrow> only_books w w''"
  unfolding only_books_def by (elim exE) (simp, blast)

lemma only_books_stats: "only_books w (with_stats f w)"
  unfolding only_books_def with_stats_def
  by (rule exI [of _ "map_option f (gw_stats w)"], rule exI [of _ "gw_limiter w"], rule exI [of _ "gw_events w"]) simp

lemma only_books_update:
  "only_books w (w\<lparr>gw_limiter := l\<rparr>)" "only_books w (w\<lparr>gw_limiter := l, gw_events := evs\<rparr>)"
  unfolding only_books_def
   apply (rule exI [of _ "gw_stats w"], rule exI [of _ l], rule exI [of _ "gw_events w"], simp)
  apply (rule exI [of _ "gw_stats w"], rule exI [of _ l], rule exI [of _ evs], simp)
  done

definition same_session :: "session \<Rightarrow> session \<Rightarrow> bool" where
  "same_session s s' \<longleftrightarrow>
     se_token s' = se_token s \<and> se_chainID s' = se_chainID s \<and> se_clientIP s' = se_clientIP s \<and>
     se_upstream s' = se_upstream s \<and> se_billUnits s' = se_billUnits s \<and> se_maxSubs s' = se_maxSubs s"

lemma same_session_simps [simp]:
  "same_session s s" "same_session s (to_client f s')= same_session s s'" "same_session s (to_server f s') = same_session s s'"
  "same_session s (closeBoth s') = same_session s s'"
  by (simp_all add: same_session_def to_client_def to_server_def closeBoth_def)

subsection \<open>Messages from the client\<close>

lemma register_same: "register_request e data s = (ok, s') \<Longrightarrow> same_session s s' \<and> se_to_server s' = se_to_server s"
  by (auto simp: register_request_def same_session_def to_client_def split: sum.splits if_splits)

text \<open>The verdict, the session and the statistics after a message of the client.\<close>

lemma handleInbound_eq:
  assumes "Allow (en_rops e) (en_lops e) (en_now e) (se_token s) (se_chainID s) (se_clientIP s) (gw_limiter w) = (res, l)"
  shows "handleInbound e data s w =
    (if \<not> res_Allowed res then
       (False, to_client (ws_error ''-32005'' (''rate limited: '' @ res_Reason res)) s,
        with_stats (IncRateLimited (en_now e) (se_meta s)) (w\<lparr>gw_limiter := l\<rparr>))
     else if Classify data \<noteq> KindRequest then (True, s, w\<lparr>gw_limiter := l\<rparr>)
     else
       (case ParseMethods (en_jerr e) data of
          Inl err \<Rightarrow> (False, to_client (ws_error ''-32600'' ''invalid request'') s, w\<lparr>gw_limiter := l\<rparr>)
        | Inr methods \<Rightarrow>
            (case CheckMethods (Some (se_token s)) methods of
               Some err \<Rightarrow>
                 (False, to_client (ws_error ''-32601'' err) s,
                  with_stats (IncMethodDenied (en_now e) (se_meta s)) (w\<lparr>gw_limiter := l\<rparr>))
             | None \<Rightarrow>
                 (let (ok, s) = (if length methods = 1 then register_request e data s else (True, s))
                  in (ok, s, w\<lparr>gw_limiter := l\<rparr>)))))"
  by (simp add: handleInbound_def assms Let_def split: prod.split sum.split option.split)

lemma handleInbound_parts:
  assumes "Allow (en_rops e) (en_lops e) (en_now e) (se_token s) (se_chainID s) (se_clientIP s) (gw_limiter w) = (res, l)"
    and "handleInbound e data s w = (fwd, s', w')"
  shows "w' \<in> {w\<lparr>gw_limiter := l\<rparr>, with_stats (IncRateLimited (en_now e) (se_meta s)) (w\<lparr>gw_limiter := l\<rparr>),
      with_stats (IncMethodDenied (en_now e) (se_meta s)) (w\<lparr>gw_limiter := l\<rparr>)}"
    and "s' = s \<or> (\<exists>f. s' = to_client f s) \<or> (\<exists>ok. register_request e data s = (ok, s'))"
  using assms(2) unfolding handleInbound_eq [OF assms(1)] Let_def
  by (auto split: if_splits sum.splits option.splits prod.splits)

lemma handleInbound_effect:
  fixes w :: "('l, 'r, 'z) gateway_scheme"
  assumes "handleInbound e data s w = (fwd, s', w')"
  shows "booked w w' \<and> only_books w w' \<and> same_session s s' \<and> se_to_server s' = se_to_server s"
proof -
  obtain res l where a: "Allow (en_rops e) (en_lops e) (en_now e) (se_token s) (se_chainID s) (se_clientIP s) (gw_limiter w)
      = (res, l)" by fastforce
  let ?w = "w\<lparr>gw_limiter := l\<rparr>"
  have w: "booked w ?w" "only_books w ?w" using booked_allow [OF a] only_books_update(1) by blast+
  have q: "booked ?w (with_stats (IncRateLimited (en_now e) (se_meta s)) ?w)"
    "booked ?w (with_stats (IncMethodDenied (en_now e) (se_meta s)) ?w)"
    using booked_quiet [of "Ev_RateLimited (en_now e) (se_meta s)" ?w]
      booked_quiet [of "Ev_MethodDenied (en_now e) (se_meta s)" ?w] by (simp_all add: apply_event_eta)
  have "booked w w' \<and> only_books w w'"
    using handleInbound_parts(1) [OF a assms] w q booked_trans only_books_trans [OF w(2) only_books_stats]
    by auto
  moreover have "same_session s s' \<and> se_to_server s' = se_to_server s"
    using handleInbound_parts(2) [OF a assms] register_same [of e data s]
    by (elim disjE exE) (simp_all add: to_client_def same_session_def)
  ultimately show ?thesis by blast
qed


subsection \<open>Messages from the upstream\<close>

lemma ws_event_simps [simp]:
  "ev_TokenKey (ws_event e s n b ms k i) = tok_Key (se_token s)" "ev_SuccessN (ws_event e s n b ms k i) = n"
  "ev_Billable (ws_event e s n b ms k i) = b" "ev_At (ws_event e s n b ms k i) = en_now e"
  "ev_Methods (ws_event e s n b ms k i) = ms" "ev_EventKind (ws_event e s n b ms k i) = k"
  by (simp_all add: ws_event_def)

lemma se_meta_key [simp]: "tm_Key (se_meta s) = tok_Key (se_token s)"
  by (simp add: se_meta_def)

text \<open>One success: the call of the collector, the daily count, the event.\<close>

definition ws_settled ::
  "('l, 'r) env \<Rightarrow> session \<Rightarrow> stat_event \<Rightarrow> int \<Rightarrow> string list \<Rightarrow> string \<Rightarrow> ('l, 'r, 'z) gateway_scheme \<Rightarrow> ('l, 'r, 'z) gateway_scheme" where
  "ws_settled e s ev n ms kind w =
     (with_stats (apply_event ev) w)
       \<lparr>gw_limiter := IncrSuccess (en_rops e) (en_now e) (tok_Key (se_token s)) n (gw_limiter w),
        gw_events := gw_events w @ [ws_event e s n (\<not> tok_BillingFree (se_token s)) ms kind (length (gw_events w))]\<rparr>"

lemma ws_settled_booked:
  assumes "0 < n"
    and "\<forall>B key. recorded B key ev = (if tok_Key (se_token s) = key \<and> B (\<not> tok_BillingFree (se_token s)) then of_int n else 0)"
  shows "booked w (ws_settled e s ev n ms kind w)"
proof -
  let ?b = "ws_event e s n (\<not> tok_BillingFree (se_token s)) ms kind (length (gw_events w))"
  from booked_success [of ev "se_token s" ?b w "en_rops e"] assms show ?thesis by (simp add: ws_settled_def)
qed

lemma ws_settled_only: "only_books w (ws_settled e s ev n ms kind w)"
  unfolding ws_settled_def by (rule only_books_trans [OF only_books_stats only_books_update(2)])

definition bill_units :: "session \<Rightarrow> int" where
  "bill_units s = (if se_billUnits s \<le> 0 then 1 else se_billUnits s)"

definition sub_kind :: "session \<Rightarrow> string \<Rightarrow> string \<Rightarrow> string" where
  "sub_kind s method subID =
     (case se_subs s subID of Some k \<Rightarrow> if subID \<noteq> [] \<and> k \<noteq> [] then k else method | None \<Rightarrow> method)"

lemma notify_eq:
  "notify e method subID s w =
     ws_settled e s (Ev_WSNotification (en_now e) (se_meta s) (se_chainID s) 1 (bill_units s) (\<not> tok_BillingFree (se_token s)))
       (bill_units s) [sub_kind s method subID] ''ws_notification'' w"
  by (auto simp: notify_def ws_settled_def bill_units_def sub_kind_def publish_def count_usage_def Let_def
      apply_event_eta split: option.split)

lemma bill_units_pos: "0 < bill_units s"
  by (simp add: bill_units_def)

lemma notify_booked: "booked w (notify e method subID s w)"
  unfolding notify_eq by (rule ws_settled_booked) (use bill_units_pos [of s] in auto)

text \<open>
  \<open>CountResults\<close> already counts whatever \<open>ParseResponseMeta\<close> reads, so the correction by a pending
  request never applies.
\<close>

lemma answer_counts: "fst (answer e data s) = CountResults data"
proof (cases "ParseResponseMeta (en_jerr e) data")
  case (Inl err)
  then show ?thesis by (simp add: answer_def)
next
  case (Inr x)
  obtain i okSucc result where x: "x = (i, okSucc, result)" by (cases x)
  have "CountResults data = (if okSucc then (1, 0) else (0, 1))"
    using readings_agree [where jerr = "en_jerr e" and body = data] Inr x by simp
  then show ?thesis using Inr x by (auto simp: answer_def settle_def Let_def split: option.split)
qed

lemma answer_same: "answer e data s = (counts, s') \<Longrightarrow> same_session s s' \<and> se_to_server s' = se_to_server s"
  by (auto simp: answer_def settle_def same_session_def Let_def split: sum.splits option.splits if_splits)

definition ws_answered ::
  "('l, 'r) env \<Rightarrow> session \<Rightarrow> int \<Rightarrow> int \<Rightarrow> ('l, 'r, 'z) gateway_scheme \<Rightarrow> ('l, 'r, 'z) gateway_scheme" where
  "ws_answered e s n k w =
     (let ev = Ev_Proxy (en_now e) (se_meta s) (se_chainID s) n k False (\<not> tok_BillingFree (se_token s))
      in if n = 0 \<and> k = 0 then w
         else if n > 0 then ws_settled e s ev n [] ''rpc'' w else with_stats (apply_event ev) w)"

lemma handleOutbound_eq:
  "handleOutbound e data s w =
     (case ParseNotification data of
        Some (method, subID) \<Rightarrow> (s, notify e method subID s w)
      | None \<Rightarrow>
          let s' = snd (answer e data s)
          in (s', ws_answered e s' (fst (CountResults data)) (snd (CountResults data)) w))"
proof -
  obtain n k where c: "CountResults data = (n, k)" by fastforce
  obtain s' where "answer e data s = ((n, k), s')"
    using answer_counts [of e data s] c by (cases "answer e data s") simp
  with c show ?thesis
    by (simp add: handleOutbound_def ws_answered_def ws_settled_def publish_def count_usage_def Let_def
        apply_event_eta split: option.split)
qed

lemma ws_answered_booked: "booked w (ws_answered e s n k w)"
proof (cases "0 < n")
  case True
  then have "booked w (ws_settled e s
      (Ev_Proxy (en_now e) (se_meta s) (se_chainID s) n k False (\<not> tok_BillingFree (se_token s))) n [] ''rpc'' w)"
    by (intro ws_settled_booked) auto
  with True show ?thesis by (simp add: ws_answered_def)
next
  case False
  then have "quiet_event (Ev_Proxy (en_now e) (se_meta s) (se_chainID s) n k False (\<not> tok_BillingFree (se_token s)))"
    by simp
  from booked_quiet [OF this, of w] False show ?thesis by (simp add: ws_answered_def Let_def)
qed

lemma handleOutbound_effect:
  assumes "handleOutbound e data s w = (s', w')"
  shows "booked w w' \<and> only_books w w' \<and> same_session s s' \<and> se_to_server s' = se_to_server s"
proof (cases "ParseNotification data")
  case None
  then have s': "answer e data s = (CountResults data, s')"
    and w': "w' = ws_answered e s' (fst (CountResults data)) (snd (CountResults data)) w"
    using assms answer_counts [of e data s] by (auto simp: handleOutbound_eq Let_def prod_eq_iff)
  have "only_books w w'"
    unfolding w' ws_answered_def Let_def using ws_settled_only only_books_stats by auto
  with w' ws_answered_booked answer_same [OF s'] show ?thesis by blast
next
  case (Some x)
  obtain m i where "x = (m, i)" by fastforce
  with Some assms notify_booked [of w e m i s] ws_settled_only show ?thesis
    by (auto simp: handleOutbound_eq notify_eq)
qed


text \<open>
  C16: a message of the upstream is billed by what the client is sent. A notification adds exactly one
  event, for the configured units and the kind under which its subscription was opened; any other
  message adds one event for the successes that \<open>CountResults\<close>, the count of the HTTP proxy, finds in
  it, and none if it finds none, whether or not the client ever asked.
\<close>

theorem ws_billed_like_http:
  "gw_events (snd (handleOutbound e data s w)) = gw_events w @
     (case ParseNotification data of
        Some (method, sub) \<Rightarrow>
          [ws_event e s (bill_units s) (\<not> tok_BillingFree (se_token s)) [sub_kind s method sub] ''ws_notification''
             (length (gw_events w))]
      | None \<Rightarrow>
          let n = fst (CountResults data)
          in if 0 < n then [ws_event e s n (\<not> tok_BillingFree (se_token s)) [] ''rpc'' (length (gw_events w))] else [])"
proof (cases "ParseNotification data")
  case None
  have "same_session s (snd (answer e data s))" using answer_same [of e data s] by (cases "answer e data s") simp
  then have "se_token (snd (answer e data s)) = se_token s" "ws_event e (snd (answer e data s)) = ws_event e s"
    by (simp_all add: same_session_def ws_event_def fun_eq_iff)
  with None show ?thesis by (simp add: handleOutbound_eq ws_answered_def ws_settled_def Let_def)
next
  case (Some x)
  then show ?thesis by (simp add: handleOutbound_eq notify_eq ws_settled_def split: prod.split)
qed

subsection \<open>Subscriptions\<close>

text \<open>
  Notifications are billed under the kind the client subscribed to. When the upstream answers a
  pending \<open>eth_subscribe\<close> for \<open>kind\<close> with a subscription id, then the request is no longer pending, and
  a later notification for that id is billed with the method list \<open>[kind]\<close>, for the configured units.
\<close>

lemma subscription_billed:
  assumes "ParseNotification data = None"
    and "ParseResponseMeta (en_jerr e) data = Inr (i, True, res)" "i \<noteq> []"
    and "se_pending s i = Some \<lparr>pq_method = ''eth_subscribe'', pq_subKind = kind\<rparr>" "kind \<noteq> []"
    and "trim_char (CHR 0x22) res = sid" "sid \<noteq> []"
    and "ParseNotification push = Some (method, sid)"
    and "handleOutbound e data s w = (s', w')"
  shows "se_pending s' i = None \<and>
    gw_events (snd (handleOutbound e' push s' w'')) = gw_events w'' @
      [ws_event e' s (bill_units s) (\<not> tok_BillingFree (se_token s)) [kind] ''ws_notification'' (length (gw_events w''))]"
proof -
  have "s' = snd (answer e data s)" using assms(1,9) by (simp add: handleOutbound_eq Let_def)
  also have "\<dots> = s\<lparr>se_pending := (se_pending s)(i := None), se_subs := (se_subs s)(sid \<mapsto> kind),
      se_subN := wrap64 (se_subN s + 1)\<rparr>"
    using assms(2-7) by (simp add: answer_def settle_def Let_def)
  finally have s': "s' = \<dots>" .
  have "ws_event e' s' = ws_event e' s" "bill_units s' = bill_units s" "sub_kind s' method sid = kind"
    using assms(5,7) by (simp_all add: s' ws_event_def bill_units_def sub_kind_def fun_eq_iff)
  then show ?thesis by (simp add: handleOutbound_eq assms(8) notify_eq ws_settled_def) (simp add: s')
qed

text \<open>A session of the sample token with a limit of one subscription.\<close>

definition sample_ws_config :: websocket_config where
  "sample_ws_config =
     \<lparr>ws_Enabled = True, ws_MaxConnectionsPerToken = 2, ws_MaxSubscriptionsPerConn = 1, ws_NotificationBillUnits = 2\<rparr>"

definition sample_session :: session where
  "sample_session = new_session sample_ws_config sample_token ''eth'' ''1.2.3.4'' ''ws://a''"

definition subscribe_frame :: "string \<Rightarrow> string" where
  "subscribe_frame i = dq ''{`id`:'' @ i @ dq '',`method`:`eth_subscribe`,`params`:[`newHeads`]}''"

definition subscribed_frame :: "string \<Rightarrow> string \<Rightarrow> string" where
  "subscribed_frame i sid = dq ''{`id`:'' @ i @ dq '',`result`:`'' @ sid @ dq ''`}''"

definition push_frame :: string where
  "push_frame = dq ''{`method`:`eth_subscription`,`params`:{`subscription`:`0xa`,`result`:{}}}''"

lemma sample_frames:
  "ParseNotification (subscribed_frame ''1'' ''0xa'') = None"
  "ParseResponseMeta jerr (subscribed_frame ''1'' ''0xa'') = Inr (''1'', True, ''0xa'')"
  "ParseNotification push_frame = Some (''eth_subscription'', ''0xa'')"
  by code_simp+

lemma subscription_billed_example:
  "case handleOutbound sample_env (subscribed_frame ''1'' ''0xa'')
      (sample_session\<lparr>se_pending := [''1'' \<mapsto> \<lparr>pq_method = ''eth_subscribe'', pq_subKind = ''newHeads''\<rparr>]\<rparr>) sample_http of
     (s', w') \<Rightarrow> map (\<lambda>ev. (ev_SuccessN ev, ev_Methods ev, ev_EventKind ev))
       (gw_events (snd (handleOutbound sample_env push_frame s' sample_http))) = [(2, [''newHeads''], ''ws_notification'')]"
proof -
  let ?s = "sample_session\<lparr>se_pending := [''1'' \<mapsto> \<lparr>pq_method = ''eth_subscribe'', pq_subKind = ''newHeads''\<rparr>]\<rparr>"
  obtain s' w' where h: "handleOutbound sample_env (subscribed_frame ''1'' ''0xa'') ?s sample_http = (s', w')" by fastforce
  have "trim_char (CHR 0x22) ''0xa'' = ''0xa''" by code_simp
  from subscription_billed [OF sample_frames(1,2) _ _ _ this _ sample_frames(3) h, of "''newHeads''" sample_env sample_http]
  moreover have "bill_units ?s = 2" "se_token ?s = sample_token"
    by (simp_all add: bill_units_def sample_session_def new_session_def sample_ws_config_def)
  ultimately show ?thesis unfolding h prod.case by simp
qed


subsection \<open>The filter on client messages\<close>

definition over_limit :: "('l, 'r) env \<Rightarrow> string \<Rightarrow> session \<Rightarrow> bool" where
  "over_limit e data s \<longleftrightarrow>
     (case ParseRequestMeta (en_jerr e) data of
        Inl err \<Rightarrow> False
      | Inr (i, method, kind) \<Rightarrow>
          i \<noteq> [] \<and> method = ''eth_subscribe'' \<and> 0 < se_maxSubs s \<and> se_maxSubs s \<le> se_subN s)"

lemma register_verdict: "fst (register_request e data s) \<longleftrightarrow> \<not> over_limit e data s"
  by (auto simp: register_request_def over_limit_def split: sum.split prod.split)

definition ws_allowed :: "('l, 'r) env \<Rightarrow> session \<Rightarrow> ('l, 'r, 'z) gateway_scheme \<Rightarrow> bool" where
  "ws_allowed e s w \<longleftrightarrow>
     res_Allowed (fst (Allow (en_rops e) (en_lops e) (en_now e) (se_token s) (se_chainID s) (se_clientIP s) (gw_limiter w)))"

definition ws_passes :: "('l, 'r) env \<Rightarrow> string \<Rightarrow> session \<Rightarrow> bool" where
  "ws_passes e data s \<longleftrightarrow>
     (case Classify data of
        KindRequest \<Rightarrow>
          (case ParseMethods (en_jerr e) data of
             Inl err \<Rightarrow> False
           | Inr ms \<Rightarrow> set ms \<inter> tok_DeniedMethods (se_token s) = {} \<and> \<not> (length ms = 1 \<and> over_limit e data s))
      | _ \<Rightarrow> True)"

lemma handleInbound_verdict: "fst (handleInbound e data s w) \<longleftrightarrow> ws_allowed e s w \<and> ws_passes e data s"
proof -
  obtain res l where a: "Allow (en_rops e) (en_lops e) (en_now e) (se_token s) (se_chainID s) (se_clientIP s) (gw_limiter w)
      = (res, l)" by fastforce
  have c: "CheckMethods (Some (se_token s)) ms = None \<longleftrightarrow> set ms \<inter> tok_DeniedMethods (se_token s) = {}" for ms
    unfolding CheckMethods_None by auto
  show ?thesis
  proof (cases "Classify data = KindRequest")
    case False
    then show ?thesis using a
      by (cases "Classify data") (simp_all add: handleInbound_eq [OF a] ws_allowed_def ws_passes_def)
  next
    case True
    show ?thesis
    proof (cases "ParseMethods (en_jerr e) data")
      case (Inl err)
      with True a show ?thesis by (simp add: handleInbound_eq [OF a] ws_allowed_def ws_passes_def)
    next
      case (Inr ms)
      with True a c [of ms] register_verdict [of e data s] show ?thesis
        by (cases "CheckMethods (Some (se_token s)) ms")
          (auto simp: handleInbound_eq [OF a] ws_allowed_def ws_passes_def split: prod.split)
    qed
  qed
qed

text \<open>
  C39: what a client's message does on the wire. It is forwarded to the upstream, unchanged and once,
  exactly if the limiter allows it, it passes the filter (\<open>ws_passes\<close>: it is not classified as a
  request, or it is one without denied methods and without a subscription too many) and the write
  succeeds; nothing else is ever written to the upstream, and the pump ends only on a failed write.
\<close>

theorem ws_forwards_filtered:
  "case pumpClientToUpstream e (Some data) write_ok s w of
     (continues, s', w') \<Rightarrow>
       se_to_server s' = se_to_server s @ (if ws_allowed e s w \<and> ws_passes e data s \<and> write_ok then [data] else []) \<and>
       (continues \<longleftrightarrow> \<not> (ws_allowed e s w \<and> ws_passes e data s \<and> \<not> write_ok))"
proof -
  obtain fwd s1 w1 where h: "handleInbound e data s w = (fwd, s1, w1)" by (metis prod.exhaust)
  have "fwd \<longleftrightarrow> ws_allowed e s w \<and> ws_passes e data s" using handleInbound_verdict [of e data s w] h by simp
  with h handleInbound_effect [OF h] show ?thesis
    by (cases fwd) (auto simp: pumpClientToUpstream_def to_server_def closeBoth_def)
qed





subsection \<open>The subscription limit\<close>

text \<open>Four messages: two requests to subscribe, then the two answers.\<close>

definition pipelined :: "session \<Rightarrow> (int, unit) gateway \<Rightarrow> bool list \<times> session" where
  "pipelined s w =
     (case handleInbound sample_env (subscribe_frame ''1'') s w of
        (f1, s, w) \<Rightarrow>
          (case handleInbound sample_env (subscribe_frame ''2'') s w of
             (f2, s, w) \<Rightarrow>
               (case handleOutbound sample_env (subscribed_frame ''1'' ''0xa'') s w of
                  (s, w) \<Rightarrow> ([f1, f2], fst (handleOutbound sample_env (subscribed_frame ''2'' ''0xb'') s w)))))"

lemma frame1: "Classify (subscribe_frame ''1'') = KindRequest"
  by code_simp

lemma frame2: "Classify (subscribe_frame ''2'') = KindRequest"
  by code_simp

lemma frame3: "ParseMethods jerr (subscribe_frame ''1'') = Inr [''eth_subscribe'']"
  by code_simp

lemma frame4: "ParseMethods jerr (subscribe_frame ''2'') = Inr [''eth_subscribe'']"
  by code_simp

lemma frame5: "ParseRequestMeta jerr (subscribe_frame ''1'') = Inr (''1'', ''eth_subscribe'', ''newHeads'')"
  by code_simp

lemma frame6: "ParseRequestMeta jerr (subscribe_frame ''2'') = Inr (''2'', ''eth_subscribe'', ''newHeads'')"
  by code_simp

lemma frame7: "ParseNotification (subscribed_frame ''2'' ''0xb'') = None"
  by code_simp

lemma frame8: "ParseResponseMeta jerr (subscribed_frame ''2'' ''0xb'') = Inr (''2'', True, ''0xb'')"
  by code_simp

lemmas pipelined_frames = frame1 frame2 frame3 frame4 frame5 frame6 frame7 frame8

lemma sample_allow:
  "Allow (en_rops sample_env) (en_lops sample_env) (en_now sample_env) sample_token c ip (New None b) =
     (\<lparr>res_Allowed = True, res_Reason = []\<rparr>, New None b)"
  by (simp add: Allow_def allowBucket_def dailyUsed_def quota_reached_def New_def)

lemma sample_inbound:
  assumes "se_token s = sample_token" "Classify data = KindRequest" "ParseMethods (en_jerr sample_env) data = Inr [m]"
    and "m \<noteq> ''debug_traceCall''" "gw_limiter w = New None True"
  shows "handleInbound sample_env data s w =
    (fst (register_request sample_env data s), snd (register_request sample_env data s), w)"
proof -
  have "CheckMethods (Some (se_token s)) [m] = None" using assms(1,4) by (simp add: CheckMethods_None)
  moreover have "w\<lparr>gw_limiter := New None True\<rparr> = w" using assms(5) by simp
  ultimately show ?thesis using assms(1-3,5) by (simp add: handleInbound_def sample_allow Let_def split: prod.split)
qed

text \<open>
  The subscription limit counts only subscriptions that the upstream has confirmed. A client that
  sends its requests before the answers arrive gets past it: with a limit of one, two pipelined
  requests are both forwarded, and after the answers the session holds two subscriptions.
\<close>

lemma subscription_limit_pipelined:
  "se_maxSubs sample_session = 1 \<and>
   (case pipelined sample_session sample_http of (forwarded, s) \<Rightarrow> forwarded = [True, True] \<and> se_subN s = 2)"
proof -
  have s: "se_token sample_session = sample_token" "se_maxSubs sample_session = 1" "se_subN sample_session = 0"
    "se_pending sample_session = Map.empty"
    by (simp_all add: sample_session_def new_session_def sample_ws_config_def)
  have l: "gw_limiter sample_http = New None True" by (simp add: sample_http_def)
  define s1 where "s1 = sample_session\<lparr>se_pending := [''1'' \<mapsto> \<lparr>pq_method = ''eth_subscribe'', pq_subKind = ''newHeads''\<rparr>]\<rparr>"
  define s2 where "s2 = s1\<lparr>se_pending := (se_pending s1)(''2'' \<mapsto> \<lparr>pq_method = ''eth_subscribe'', pq_subKind = ''newHeads''\<rparr>)\<rparr>"
  have "handleInbound sample_env (subscribe_frame ''1'') sample_session sample_http = (True, s1, sample_http)"
    by (subst sample_inbound [OF s(1) pipelined_frames(1,3) _ l])
      (simp_all add: register_request_def pipelined_frames s s1_def)
  moreover have "handleInbound sample_env (subscribe_frame ''2'') s1 sample_http = (True, s2, sample_http)"
    by (subst sample_inbound [OF _ pipelined_frames(2,4) _ l])
      (simp_all add: register_request_def pipelined_frames s s1_def s2_def)
  ultimately show ?thesis
    by (simp add: pipelined_def s handleOutbound_eq sample_frames pipelined_frames answer_def settle_def Let_def
        trim_char_def wrap64_id s1_def s2_def split: prod.split)
qed

end
