(* ===== verification/Gateway_Spec.thy ===== *)
theory Gateway_Spec
  imports Gateway Wsproxy_Spec
begin

section \<open>The gateway as a whole\<close>

text \<open>
  Every step of the running gateway is a sequence of steps of the registry and keeps the three books
  and the table of sessions. From this: no request panics, what is forwarded has passed every check,
  what is counted is billed, and no token holds more connections than configured, in every state
  that any interleaving of requests, messages, probes, refreshes and reloads can reach.
\<close>

subsection \<open>The stack in front of the HTTP proxy\<close>

text \<open>The request that reaches the proxy.\<close>

definition admitted :: "request \<Rightarrow> token \<Rightarrow> string \<Rightarrow> string list \<Rightarrow> string \<Rightarrow> request" where
  "admitted r t c ms body =
     r\<lparr>ht_ctx := WithMethods (WithChainID (WithToken (ht_ctx r) (Some t)) c) ms, ht_Body := Inr body\<rparr>"

lemma admitted_simps [simp]:
  "ctx_Token (ht_ctx (admitted r t c ms body)) = Some t" "ctx_ChainID (ht_ctx (admitted r t c ms body)) = c"
  "ctx_Methods (ht_ctx (admitted r t c ms body)) = ms" "ht_Body (admitted r t c ms body) = Inr body"
  "ClientIP (admitted r t c ms body) = ClientIP r"
  by (simp_all add: admitted_def ClientIP_def Let_def split: option.split)

lemma ClientIP_ctx [simp]: "ClientIP (r\<lparr>ht_ctx := x\<rparr>) = ClientIP r" "ClientIP (r\<lparr>ht_Body := b\<rparr>) = ClientIP r"
  by (simp_all add: ClientIP_def Let_def split: option.split)

text \<open>A rejection counts one event and, at the limiter, spends what the limiter spent.\<close>

definition rejected :: "stat_event option \<Rightarrow> ('l, 'r) limiter \<Rightarrow> ('l, 'r, 'z) gateway_scheme \<Rightarrow> ('l, 'r, 'z) gateway_scheme" where
  "rejected ev l w =
     (let w = w\<lparr>gw_limiter := l\<rparr> in case ev of None \<Rightarrow> w | Some ev \<Rightarrow> with_stats (apply_event ev) w)"

lemma rejected_simps [simp]:
  "gw_registry (rejected ev l w) = gw_registry w" "gw_tokens (rejected ev l w) = gw_tokens w"
  "gw_events (rejected ev l w) = gw_events w" "gw_forwards (rejected ev l w) = gw_forwards w"
  "gateway.more (rejected ev l w) = gateway.more w"
  by (simp_all add: rejected_def with_stats_def Let_def split: option.split)

lemma rpc_stack_cases:
  fixes w :: "('l, 'r, 'z) gateway_scheme"
  obtains (rejected) st code msg ev l where
      "rpc_stack e cfg c r w = (writeErr st code msg, rejected ev l w)" "st \<in> {400, 401, 403, 429}"
      "booked w (rejected ev l w)"
  | (passed) t body ms res l where "Lookup (gw_tokens w) (trim_space (ht_token r)) = Some t"
      "HostAllowed (en_ulower e) (sv_Domains (cf_Server cfg)) (ht_Host r)"
      "read_limited two_mb (ht_Body r) = Inr body" "ParseMethods (en_jerr e) body = Inr ms"
      "set ms \<inter> tok_DeniedMethods t = {}"
      "Allow (en_rops e) (en_lops e) (en_now e) t c (ClientIP r) (gw_limiter w) = (res, l)" "res_Allowed res"
      "rpc_stack e cfg c r w = ServeHTTP e (admitted r t c ms body) (w\<lparr>gw_limiter := l\<rparr>)"
proof -
  have quiet: "booked w (rejected ev (gw_limiter w) w)" if "\<forall>x. ev = Some x \<longrightarrow> quiet_event x" for ev
    using that booked_quiet [of _ w] by (cases ev) (simp_all add: rejected_def Let_def)
  have rej: thesis if "rpc_stack e cfg c r w = (writeErr st code msg, rejected ev (gw_limiter w) w)"
    "st \<in> {400, 401, 403, 429}" "\<forall>x. ev = Some x \<longrightarrow> quiet_event x" for st code msg ev
    using rejected [OF that(1,2) quiet [OF that(3)]] .
  note defs = rpc_stack_def Domain_mw_def PathAuth_mw_def Chain_mw_def MethodFilter_mw_def RateLimit_mw_def Let_def
  have none: "w = rejected None (gw_limiter w) w" by (simp add: rejected_def)
  have some: "with_stats (apply_event ev) w = rejected (Some ev) (gw_limiter w) w" for ev by (simp add: rejected_def)
  show thesis
  proof (cases "HostAllowed (en_ulower e) (sv_Domains (cf_Server cfg)) (ht_Host r)")
    case False
    then show thesis
      by (intro rej [of 403 _ _ "Some (Ev_DomainRejected (en_now e))"])
        (simp_all add: defs apply_event_eta flip: some)
  next
    case host: True
    show thesis
    proof (cases "trim_space (ht_token r) = [] \<or> Lookup (gw_tokens w) (trim_space (ht_token r)) = None")
      case True
      with host have "\<exists>msg. rpc_stack e cfg c r w =
          (writeErr 401 (-32001) msg, rejected (Some (Ev_AuthFailed (en_now e))) (gw_limiter w) w)"
        by (auto simp add: defs apply_event_eta simp flip: some)
      then show thesis using rej by fastforce
    next
      case False
      then obtain t where t: "Lookup (gw_tokens w) (trim_space (ht_token r)) = Some t" "trim_space (ht_token r) \<noteq> []"
        by auto
      show thesis
      proof (cases "read_limited two_mb (ht_Body r)")
        case (Inl err)
        with host t none show thesis by (intro rej [of 400 _ _ None]) (simp_all add: defs)
      next
        case body: (Inr body)
        show thesis
        proof (cases "ParseMethods (en_jerr e) body")
          case (Inl err)
          with host t body none show thesis by (intro rej [of 400 _ _ None]) (simp_all add: defs)
        next
          case ms: (Inr ms)
          show thesis
          proof (cases "CheckMethods (Some t) ms")
            case (Some err)
            with host t body ms show thesis
              by (intro rej [of 403 _ _ "Some (Ev_MethodDenied (en_now e) (meta_of t))"])
                (simp_all add: defs apply_event_eta flip: some)
          next
            case None
            then have ok: "set ms \<inter> tok_DeniedMethods t = {}" by (auto simp: CheckMethods_None)
            obtain res l where a: "Allow (en_rops e) (en_lops e) (en_now e) t c (ClientIP r) (gw_limiter w) = (res, l)"
              by fastforce
            have adm: "r\<lparr>ht_Body := Inr body, ht_ctx := WithMethods (WithChainID (WithToken (ht_ctx r) (Some t)) c) ms\<rparr>
              = admitted r t c ms body" by (simp add: admitted_def)
            show thesis
            proof (cases "res_Allowed res")
              case True
              with host t body ms None a adm show thesis
                by (intro passed [OF t(1) host body ms ok a True]) (simp add: defs)
            next
              case False
              let ?w = "w\<lparr>gw_limiter := l\<rparr>" and ?ev = "Ev_RateLimited (en_now e) (meta_of t)"
              have "booked w (with_stats (apply_event ?ev) ?w)"
                using booked_trans [OF booked_allow [OF a] booked_quiet [of ?ev ?w]] by simp
              then have b: "booked w (rejected (Some ?ev) l w)" by (simp add: rejected_def Let_def)
              with False host t body ms None a show thesis
                by (intro rejected [OF _ _ b, of 429]) (simp_all add: defs rejected_def apply_event_eta)
            qed
          qed
        qed
      qed
    qed
  qed
qed


subsection \<open>The effect of a request\<close>

lemma settled_simps [simp]:
  "gw_registry (settled e t c ms ip url n k w) = gw_registry w" "gw_tokens (settled e t c ms ip url n k w) = gw_tokens w"
  "gw_forwards (settled e t c ms ip url n k w) = gw_forwards w"
  "gateway.more (settled e t c ms ip url n k w) = gateway.more w"
  by (simp_all add: settled_def with_stats_def Let_def)

lemma failed_simps [simp]:
  "gw_registry (upstream_failed e t c b w) = gw_registry w" "gw_tokens (upstream_failed e t c b w) = gw_tokens w"
  "gw_forwards (upstream_failed e t c b w) = gw_forwards w"
  "gateway.more (upstream_failed e t c b w) = gateway.more w"
  by (simp_all add: upstream_failed_def with_stats_def)

lemma sent_more [simp]: "gateway.more (sent g us body w) = gateway.more w"
  by (simp add: sent_def)

lemma retry_urls_Nil [simp]: "retry_urls g c []"
  by (simp add: retry_urls_def)

lemma writes_not_panic [simp]: "writeErr st code msg \<noteq> Panic" "writeJSONError st code msg \<noteq> Panic"
  by (simp_all add: writeErr_def writeJSONError_def)

text \<open>The forwards of a request, and the facts that every handler of requests guarantees.\<close>

definition forwards :: "registry \<Rightarrow> string \<Rightarrow> string list \<Rightarrow> string \<Rightarrow> ('l, 'r, 'z) gateway_scheme \<Rightarrow> ('l, 'r, 'z) gateway_scheme \<Rightarrow> bool" where
  "forwards g c us body w w' \<longleftrightarrow>
     gw_forwards w' = gw_forwards w @ map (\<lambda>u. (u, body)) us \<and> retry_urls g c us"

definition tame :: "reply \<Rightarrow> ('l, 'r, 'z) gateway_scheme \<Rightarrow> ('l, 'r, 'z) gateway_scheme \<Rightarrow> bool" where
  "tame reply w w' \<longleftrightarrow>
     reg_steps (gw_registry w) (gw_registry w') \<and> booked w w' \<and> reply \<noteq> Panic \<and>
     gw_tokens w' = gw_tokens w \<and> gateway.more w' = gateway.more w"

lemma ServeHTTP_effect:
  fixes w :: "('l, 'r, 'z) gateway_scheme"
  assumes "reg_inv (gw_registry w)" "rg_pools (gw_registry w) c \<noteq> None"
    and "ctx_Token (ht_ctx r) = Some t" "ctx_ChainID (ht_ctx r) = c"
    and "ServeHTTP e r w = (reply, w')"
  shows "tame reply w w' \<and>
    (\<exists>us body. forwards (gw_registry w) c us body w w' \<and> (us = [] \<or> read_limited two_mb (ht_Body r) = Inr body))"
proof -
  have b: "booked w w'" using ServeHTTP_booked [OF assms(1-4), of e] assms(5) by simp
  from assms(1-4) show ?thesis
  proof (cases rule: ServeHTTP_cases [where e = e])
    case (refused st code msg)
    with assms(5) b show ?thesis
      by (auto simp: tame_def forwards_def intro!: exI [of _ "[]"])
  next
    case (down body g us)
    with assms(5) b show ?thesis
      by (auto simp: tame_def forwards_def request_steps_def intro!: exI [of _ us] exI [of _ body])
  next
    case (server_error body g us st resp)
    with assms(5) b show ?thesis
      by (auto simp: tame_def forwards_def request_steps_def intro!: exI [of _ us] exI [of _ body])
  next
    case (answered body g us url st resp)
    with assms(5) b show ?thesis
      by (auto simp: tame_def forwards_def request_steps_def intro!: exI [of _ us] exI [of _ body])
  qed
qed

text \<open>What a request has to pass before anything is forwarded.\<close>

definition cleared :: "('l, 'r) env \<Rightarrow> config \<Rightarrow> string \<Rightarrow> request \<Rightarrow> string \<Rightarrow> ('l, 'r, 'z) gateway_scheme \<Rightarrow> bool" where
  "cleared e cfg c r body w \<longleftrightarrow>
     HostAllowed (en_ulower e) (sv_Domains (cf_Server cfg)) (ht_Host r) \<and>
     (\<exists>t ms. Lookup (gw_tokens w) (trim_space (ht_token r)) = Some t \<and>
        read_limited two_mb (ht_Body r) = Inr body \<and> ParseMethods (en_jerr e) body = Inr ms \<and>
        set ms \<inter> tok_DeniedMethods t = {} \<and>
        res_Allowed (fst (Allow (en_rops e) (en_lops e) (en_now e) t c (ClientIP r) (gw_limiter w))))"

lemma read_limited_again: "read_limited n b = Inr s \<Longrightarrow> read_limited n (Inr s) = Inr s"
  by (cases b) (auto simp: read_limited_def)

lemma rpc_effect:
  fixes w :: "('l, 'r, 'z) gateway_scheme"
  assumes "reg_inv (gw_registry w)" "rg_pools (gw_registry w) c \<noteq> None" "rpc_stack e cfg c r w = (reply, w')"
  shows "tame reply w w' \<and>
    (\<exists>us body. forwards (gw_registry w) c us body w w' \<and> (us = [] \<or> cleared e cfg c r body w))"
proof (cases rule: rpc_stack_cases [of e cfg c r w])
  case (rejected st code msg ev l)
  with assms(3) show ?thesis by (auto simp: tame_def forwards_def intro!: exI [of _ "[]"])
next
  case (passed t body ms res l)
  let ?w = "w\<lparr>gw_limiter := l\<rparr>"
  have S: "ServeHTTP e (admitted r t c ms body) ?w = (reply, w')" using passed(8) assms(3) by simp
  have inv: "reg_inv (gw_registry ?w)" "rg_pools (gw_registry ?w) c \<noteq> None" using assms(1,2) by simp_all
  from ServeHTTP_effect [OF inv _ _ S] obtain us body' where tame: "tame reply ?w w'"
    and f: "forwards (gw_registry ?w) c us body' ?w w'"
    and b: "us = [] \<or> read_limited two_mb (Inr body) = Inr body'" by auto
  have "tame reply w w'" using tame booked_trans [OF booked_allow [OF passed(6)], of w'] by (auto simp: tame_def)
  moreover have "us = [] \<or> cleared e cfg c r body' w"
    using b read_limited_again [OF passed(3)] passed by (auto simp: cleared_def)
  ultimately show ?thesis using f by (auto simp: forwards_def)
qed

text \<open>
  C1: nothing unchecked is forwarded. Whatever request comes in for a network, the upstream calls that it
  causes are at most two, to different nodes of that network, and all carry the body, at most 2 MB
  of it, exactly as the filter has seen it; and there are none unless the host is allowed, the token is
  known and enabled, the body parses, none of its methods is denied for the token, and the limiter
  allows the call.
\<close>

theorem only_cleared_forwarded:
  assumes "reg_inv (gw_registry w)" "rg_pools (gw_registry w) c \<noteq> None" "rpc_stack e cfg c r w = (reply, w')"
  shows "\<exists>us body. gw_forwards w' = gw_forwards w @ map (\<lambda>u. (u, body)) us \<and>
    length us \<le> 2 \<and> distinct us \<and> set us \<subseteq> pool_urls (gw_registry w) c \<and> (us = [] \<or> cleared e cfg c r body w)"
  using rpc_effect [OF assms] by (auto simp: forwards_def retry_urls_def)

theorem only_cleared_forwarded_witness:
  "\<exists>us body. gw_forwards (snd (rpc_stack sample_env sample_config ''eth'' (sample_post ''demo'' sample_body empty_context) sample_http)) =
      map (\<lambda>u. (u, body)) us \<and>
    length us \<le> 2 \<and> distinct us \<and> set us \<subseteq> pool_urls sample_registry ''eth'' \<and>
    (us = [] \<or> cleared sample_env sample_config ''eth'' (sample_post ''demo'' sample_body empty_context) body sample_http)"
proof -
  obtain reply w' where r: "rpc_stack sample_env sample_config ''eth'' (sample_post ''demo'' sample_body empty_context) sample_http
      = (reply, w')" by fastforce
  have "gw_forwards sample_http = []" by (simp add: sample_http_def)
  with only_cleared_forwarded [OF _ _ r] show ?thesis by (simp add: r)
qed


subsection \<open>Opening a WebSocket\<close>

lemma http_Error_not_panic [simp]: "http_Error msg code \<noteq> Panic"
  by (simp add: http_Error_def)

lemma with_stats_more [simp]: "gateway.more (with_stats f w) = gateway.more w"
  by (simp add: with_stats_def)

lemma set_registry_more [simp]: "gateway.more (set_registry g w) = gateway.more w"
  by (simp add: set_registry_def)

lemma booked_registry: "booked w (set_registry g w)"
  by (rule booked_same) simp_all

lemma ws_connect_effect:
  fixes w :: "('l, 'r, 'z) gateway_scheme"
  assumes "reg_inv (gw_registry w)" "rg_pools (gw_registry w) c \<noteq> None" "ws_connect e cfg t c r w = (x, w')"
  shows "reg_steps (gw_registry w) (gw_registry w') \<and> booked w w' \<and> gw_tokens w' = gw_tokens w \<and>
    gateway.more w' = gateway.more w \<and> x \<noteq> Inl Panic \<and> (\<forall>s. x = Inr s \<longrightarrow> se_token s = t)"
  using assms(1,2)
proof (cases rule: pool_next_ws_picks)
  case none
  then show ?thesis using assms(2,3) booked_registry [of w "gw_registry w"]
    by (auto simp: ws_connect_def lookup_pool_def)
next
  case (some a g)
  let ?w = "set_registry g w"
  have "booked w (with_stats (RecordWSConnect (en_now e) (meta_of t) c) ?w)"
    using booked_trans [OF booked_registry booked_quiet [of "Ev_WSConnect (en_now e) (meta_of t) c" ?w]]
    by (simp add: apply_event_eta)
  moreover have "x = Inl (http_Error ''no websocket upstream'' 502) \<and> w' = ?w \<or>
      (\<exists>msg code. x = Inl (http_Error msg code)) \<and> w' = ?w \<or> x = Inl Hijacked \<and> w' = ?w \<or>
      (\<exists>u. x = Inr (new_session cfg t c (ClientIP r) u)) \<and>
        w' = with_stats (RecordWSConnect (en_now e) (meta_of t) c) ?w"
    using assms(2,3) some(1)
    by (auto simp: ws_connect_def lookup_pool_def Let_def split: if_splits option.splits)
  ultimately show ?thesis using some(3) booked_registry [of w g]
    by (elim disjE) (auto simp: new_session_def)
qed

text \<open>The table of sessions: each holds a slot of its token's key.\<close>

definition session_keys :: "('l, 'r) ws_gateway \<Rightarrow> nat \<rightharpoonup> string" where
  "session_keys w = (\<lambda>n. map_option (\<lambda>s. tok_Key (se_token s)) (gw_sessions w n))"

definition conn_inv :: "config \<Rightarrow> ('l, 'r) ws_gateway \<Rightarrow> bool" where
  "conn_inv cfg w \<longleftrightarrow>
     guard.tracks (gw_conns w) (session_keys w) \<and>
     cg_max (gw_conns w) = ws_MaxConnectionsPerToken (cf_WebSocket cfg) \<and>
     (\<forall>n. gw_opened w \<le> n \<longrightarrow> gw_sessions w n = None)"

lemma ws_fields:
  fixes w w' :: "('l, 'r) ws_gateway"
  assumes "gateway.more w' = gateway.more w"
  shows "gw_conns w' = gw_conns w" "gw_sessions w' = gw_sessions w" "gw_opened w' = gw_opened w"
  using assms by (cases w, cases w', simp)+

lemma conn_inv_same:
  fixes w w' :: "('l, 'r) ws_gateway"
  shows "conn_inv cfg w \<Longrightarrow> gateway.more w' = gateway.more w \<Longrightarrow> conn_inv cfg w'"
  using ws_fields [of w' w] by (simp add: conn_inv_def session_keys_def)

lemma ws_ServeHTTP_effect:
  fixes w :: "('l, 'r) ws_gateway"
  assumes "reg_inv (gw_registry w)" "rg_pools (gw_registry w) c \<noteq> None" "ctx_ChainID (ht_ctx r) = c"
    and "conn_inv cfg w" "ws_ServeHTTP e wcfg r w = (reply, w')"
  shows "reg_steps (gw_registry w) (gw_registry w') \<and> booked w w' \<and> gw_tokens w' = gw_tokens w \<and>
    reply \<noteq> Panic \<and> conn_inv cfg w'"
proof (cases "ctx_Token (ht_ctx r) = None \<or> c = []")
  case True
  with assms(3-5) show ?thesis by (auto simp: ws_ServeHTTP_def Let_def split: option.splits)
next
  case False
  then obtain t where t: "ctx_Token (ht_ctx r) = Some t" "c \<noteq> []" by auto
  let ?k = "tok_Key t"
  obtain ok g where a: "Acquire ?k (gw_conns w) = (ok, g)" by fastforce
  have tr: "guard.tracks (gw_conns w) (session_keys w)" using assms(4) by (simp add: conn_inv_def)
  then have gok: "guard_ok (gw_conns w)" by (simp add: guard.tracks_def)
  show ?thesis
  proof (cases ok)
    case False
    then have "g = gw_conns w" using guard.refused [OF gok, of ?k g] a by simp
    with False a t assms(3-5) show ?thesis by (auto simp: ws_ServeHTTP_def Let_def)
  next
    case True
    let ?w = "w\<lparr>gw_conns := g\<rparr>"
    obtain x w1 where x: "ws_connect e wcfg t c r ?w = (x, w1)" by fastforce
    from ws_connect_effect [OF _ _ x] assms(1,2) have E: "reg_steps (gw_registry w) (gw_registry w1)" "booked ?w w1"
      "gw_tokens w1 = gw_tokens w" "gateway.more w1 = gateway.more ?w" "x \<noteq> Inl Panic"
      "\<And>s. x = Inr s \<Longrightarrow> se_token s = t" by auto
    have b: "booked w w1" using booked_trans [OF booked_same E(2)] by simp
    note f = ws_fields [OF E(4)]
    show ?thesis
    proof (cases x)
      case (Inl reply')
      have w': "reply = reply'" "w' = set_conns (Release ?k) w1"
        using assms(3,5) t a True x Inl by (simp_all add: ws_ServeHTTP_def Let_def)
      have "booked w1 w'" by (rule booked_same) (simp_all add: w'(2) set_conns_def)
      moreover have "conn_inv cfg w'"
        using guard.tracks_undo [OF tr, of ?k g] a True assms(4) f
        by (simp add: conn_inv_def session_keys_def w'(2) set_conns_def)
      ultimately show ?thesis using E b booked_trans w' Inl by (auto simp: set_conns_def)
    next
      case (Inr s)
      let ?n = "gw_opened w"
      have w': "reply = Hijacked" "w' = w1\<lparr>gw_sessions := (gw_sessions w1)(?n \<mapsto> s), gw_opened := Suc ?n\<rparr>"
        using assms(3,5) t a True x Inr f by (simp_all add: ws_ServeHTTP_def Let_def)
      have "booked w1 w'" by (rule booked_same) (simp_all add: w'(2))
      moreover have "conn_inv cfg w'"
      proof -
        have "session_keys w ?n = None" using assms(4) by (simp add: conn_inv_def session_keys_def)
        from guard.tracks_open [OF tr _ this, of ?k g] a True
        have "guard.tracks g ((session_keys w)(?n \<mapsto> ?k)) \<and> cg_max g = cg_max (gw_conns w)" by simp
        moreover have "(session_keys w)(?n \<mapsto> ?k) = session_keys w'"
          using f E(6) [OF Inr] by (auto simp: session_keys_def w'(2) fun_eq_iff)
        ultimately show ?thesis using assms(4) f by (auto simp: conn_inv_def w'(2))
      qed
      ultimately show ?thesis using E b booked_trans w' by auto
    qed
  qed
qed


text \<open>The stack in front of the WebSocket handler rejects or hands the request on.\<close>

lemma ws_stack_cases:
  fixes w :: "('l, 'r) ws_gateway"
  obtains (rejected) st code msg ev where "ws_stack e cfg c r w = (writeErr st code msg, with_stats (apply_event ev) w)"
      "quiet_event ev"
  | (passed) t where "ws_stack e cfg c r w =
      ws_ServeHTTP e (cf_WebSocket cfg) (r\<lparr>ht_ctx := WithChainID (WithToken (ht_ctx r) (Some t)) c\<rparr>) w"
proof -
  note defs = ws_stack_def Domain_mw_def PathAuth_mw_def Chain_mw_def Let_def
  show thesis
  proof (cases "HostAllowed (en_ulower e) (sv_Domains (cf_Server cfg)) (ht_Host r)")
    case False
    then show thesis using rejected [of 403 _ _ "Ev_DomainRejected (en_now e)"] by (simp add: defs apply_event_eta)
  next
    case host: True
    show thesis
    proof (cases "trim_space (ht_token r) = [] \<or> Lookup (gw_tokens w) (trim_space (ht_token r)) = None")
      case True
      with host have "\<exists>msg. ws_stack e cfg c r w = (writeErr 401 (-32001) msg, with_stats (apply_event (Ev_AuthFailed (en_now e))) w)"
        by (auto simp: defs apply_event_eta)
      then show thesis using rejected by fastforce
    next
      case False
      with host show thesis using passed by (auto simp: defs)
    qed
  qed
qed

lemma ws_stack_effect:
  fixes w :: "('l, 'r) ws_gateway"
  assumes "reg_inv (gw_registry w)" "rg_pools (gw_registry w) c \<noteq> None" "conn_inv cfg w"
    and "ws_stack e cfg c r w = (reply, w')"
  shows "reg_steps (gw_registry w) (gw_registry w') \<and> booked w w' \<and> gw_tokens w' = gw_tokens w \<and>
    reply \<noteq> Panic \<and> conn_inv cfg w'"
proof (cases rule: ws_stack_cases [of e cfg c r w])
  case (rejected st code msg ev)
  with assms show ?thesis using booked_quiet [OF rejected(2), of w] conn_inv_same [OF assms(3), of w'] by auto
next
  case (passed t)
  have S: "ws_ServeHTTP e (cf_WebSocket cfg) (r\<lparr>ht_ctx := WithChainID (WithToken (ht_ctx r) (Some t)) c\<rparr>) w = (reply, w')"
    using passed assms(4) by simp
  show ?thesis by (rule ws_ServeHTTP_effect [OF assms(1,2) _ assms(3) S]) simp
qed

subsection \<open>A turn of a pump\<close>

lemma pump_effects:
  assumes "pumpClientToUpstream e read ok s w = (go, s', w') \<or> pumpUpstreamToClient e read ok s w = (go, s', w')"
  shows "booked w w' \<and> only_books w w' \<and> same_session s s'"
proof (cases read)
  case None
  with assms show ?thesis by (auto simp: pumpClientToUpstream_def pumpUpstreamToClient_def)
next
  case (Some data)
  obtain fwd s1 w1 where i: "handleInbound e data s w = (fwd, s1, w1)" by (metis prod.exhaust)
  obtain s2 w2 where o: "handleOutbound e data s w = (s2, w2)" by fastforce
  from assms Some i o handleInbound_effect [OF i] handleOutbound_effect [OF o] show ?thesis
    by (auto simp: pumpClientToUpstream_def pumpUpstreamToClient_def split: if_splits bool.splits)
qed

lemma pump_turn_effect:
  fixes w :: "('l, 'r) ws_gateway"
  assumes "\<And>s w go s' w'. pump s w = (go, s', w') \<Longrightarrow> booked w w' \<and> only_books w w' \<and> same_session s s'"
    and "conn_inv cfg w"
  shows "gw_registry (pump_turn pump n w) = gw_registry w \<and> booked w (pump_turn pump n w) \<and>
    gw_tokens (pump_turn pump n w) = gw_tokens w \<and> conn_inv cfg (pump_turn pump n w)"
proof (cases "gw_sessions w n")
  case None
  with assms(2) show ?thesis by (simp add: pump_turn_def)
next
  case (Some s)
  obtain go s' w' where p: "pump s w = (go, s', w')" by (metis prod.exhaust)
  from assms(1) [OF p] have E: "booked w w'" "only_books w w'" "se_token s' = se_token s"
    by (simp_all add: same_session_def)
  note f = only_books_simps [OF E(2)] only_books_ws [OF E(2)]
  have n: "n < gw_opened w" using assms(2) Some by (metis conn_inv_def not_less option.distinct(1))
  have key: "session_keys w n = Some (tok_Key (se_token s))" using Some by (simp add: session_keys_def)
  show ?thesis
  proof (cases go)
    case True
    then have w: "pump_turn pump n w = w'\<lparr>gw_sessions := (gw_sessions w')(n \<mapsto> s')\<rparr>" by (simp add: pump_turn_def Some p)
    have "session_keys (pump_turn pump n w) = session_keys w"
      using f key E(3) by (auto simp: session_keys_def w fun_eq_iff)
    with assms(2) f n have "conn_inv cfg (pump_turn pump n w)" by (auto simp: conn_inv_def w)
    moreover have "booked w (pump_turn pump n w)"
      unfolding w by (rule booked_trans [OF E(1)], rule booked_same) simp_all
    ultimately show ?thesis using f by (simp add: w)
  next
    case False
    then have w: "pump_turn pump n w = ws_end n s' w'" by (simp add: pump_turn_def Some p)
    have keys: "session_keys (pump_turn pump n w) = (session_keys w)(n := None)"
      using f by (auto simp: session_keys_def w ws_end_def set_conns_def fun_eq_iff)
    have "guard.tracks (gw_conns w) (session_keys w)" using assms(2) by (simp add: conn_inv_def)
    from guard.tracks_close [OF this key] have "conn_inv cfg (pump_turn pump n w)"
      using assms(2) f E(3) keys by (auto simp: conn_inv_def w ws_end_def set_conns_def)
    moreover have "booked w (pump_turn pump n w)"
      unfolding w by (rule booked_trans [OF E(1)], rule booked_same) (simp_all add: ws_end_def set_conns_def)
    ultimately show ?thesis using f by (simp add: w ws_end_def set_conns_def)
  qed
qed


subsection \<open>Every step of the gateway\<close>

lemma fits_default: "fits (ch_Nodes (default_chain ch)) = fits (ch_Nodes ch)"
proof -
  have "cfg_weight (default_node n) = cfg_weight n" for n by (simp add: default_node_def cfg_weight_def)
  then show ?thesis by (simp add: fits_def default_chain_def o_def)
qed

lemma Load_fits:
  assumes "weights_fit ae" "Load ul rf (ae_yaml ae) ids path = Inr cfg" "cf_Chains cfg c = Some ch"
  shows "fits (ch_Nodes ch)"
proof -
  from assms(2) obtain data raw_cfg where "ae_yaml ae data = Inr raw_cfg" "cfg = applyDefaults ul raw_cfg"
    by (auto simp: Load_def split: sum.splits)
  with assms(1,3) show ?thesis by (auto simp: weights_fit_def fits_default)
qed

lemma reload_steps:
  assumes "weights_fit ae" "Load ul rf (ae_yaml ae) ids path = Inr cfg"
    and "ReloadNodes order (cf_Chains cfg) g = (err, g')"
  shows "reg_steps g g'"
proof -
  have "reg_step g g'" by (rule reg_step.reload [OF _ assms(3)]) (rule Load_fits [OF assms(1,2)])
  then show ?thesis by blast
qed

lemma sighup_effect:
  assumes "weights_fit ae"
  shows "reg_steps (gw_registry w) (gw_registry (sighup ae path w)) \<and> booked w (sighup ae path w) \<and>
    gateway.more (sighup ae path w) = gateway.more w"
proof (cases "Load (ae_ulower ae) (ae_read_file ae) (ae_yaml ae) (ae_file_order ae) path")
  case (Inl err)
  then show ?thesis by (simp add: sighup_def)
next
  case (Inr cfg)
  obtain err g where r: "ReloadNodes (ae_pool_order ae) (cf_Chains cfg) (gw_registry w) = (err, g)" by fastforce
  with Inr reload_steps [OF assms Inr r] booked_registry [of w g] show ?thesis by (simp add: sighup_def)
qed

lemma on_collector_effect:
  assumes "\<And>c. \<exists>ms. snd (f c) = RegisterTokens ms c"
  shows "gw_registry (snd (on_collector f w)) = gw_registry w \<and> booked w (snd (on_collector f w)) \<and>
    gateway.more (snd (on_collector f w)) = gateway.more w"
proof (cases "gw_stats w")
  case None
  then show ?thesis by (simp add: on_collector_def)
next
  case (Some c)
  obtain ms where ms: "snd (f c) = RegisterTokens ms c" using assms by blast
  have "snd (on_collector f w) = with_stats (apply_event (Ev_Register ms)) w"
    using ms Some by (simp add: on_collector_def with_stats_def apply_event_eta split: prod.split) auto
  with booked_quiet [of "Ev_Register ms" w] show ?thesis by simp
qed

lemma reports_effect:
  defines "quiet_report \<equiv> \<lambda>w w'. gw_registry w' = gw_registry w \<and> booked w w' \<and> gateway.more w' = gateway.more w"
  shows "quiet_report w (snd (overview_report ae w))" "quiet_report w (snd (listTokens ae w))"
    "quiet_report w (snd (tokenStats ae key w))" "quiet_report w (snd (upstreams w))"
proof -
  show "quiet_report w (snd (overview_report ae w))"
    unfolding quiet_report_def overview_report_def
    by (rule on_collector_effect) (auto simp: Snapshot_def Let_def)
  show "quiet_report w (snd (listTokens ae w))"
    unfolding quiet_report_def listTokens_def
    by (rule on_collector_effect) (auto simp: Snapshot_def Let_def)
  show "quiet_report w (snd (tokenStats ae key w))"
    unfolding quiet_report_def tokenStats_def
    by (rule on_collector_effect) (auto simp: Let_def split: option.split)
  show "quiet_report w (snd (upstreams w))" by (simp add: quiet_report_def upstreams_def)
qed

lemma reload_effect:
  assumes "weights_fit ae"
  shows "reg_steps (gw_registry w) (gw_registry (snd (reloadUpstreams ae path w))) \<and>
    booked w (snd (reloadUpstreams ae path w)) \<and> gateway.more (snd (reloadUpstreams ae path w)) = gateway.more w"
proof -
  have "snd (reloadUpstreams ae path w) = (if path = [] then w else sighup ae path w)"
    by (auto simp: reloadUpstreams_def sighup_def split: sum.split prod.split option.split)
  with sighup_effect [OF assms, of w path] show ?thesis by simp
qed

lemma admin_effect:
  assumes "weights_fit ae" "admin_dispatch ae h route w = (reply, w')"
  shows "reg_steps (gw_registry w) (gw_registry w') \<and> booked w w' \<and> gateway.more w' = gateway.more w"
proof -
  have w': "w' = snd (admin_dispatch ae h route w)" using assms(2) by simp
  show ?thesis
    using reload_effect [OF assms(1), where w = w and path = "ah_ConfigPath h"]
    unfolding w' by (cases route) (simp_all add: admin_dispatch_def reports_effect)
qed


subsection \<open>Reachable states\<close>

definition gw_valid :: "config \<Rightarrow> bool" where
  "gw_valid cfg \<longleftrightarrow>
     chains_ok (cf_Chains cfg) \<and> 0 < ws_MaxConnectionsPerToken (cf_WebSocket cfg) \<and>
     in64 (ws_MaxConnectionsPerToken (cf_WebSocket cfg))"

definition gw_inv :: "config \<Rightarrow> ('l, 'r) ws_gateway \<Rightarrow> bool" where
  "gw_inv cfg w \<longleftrightarrow>
     reg_reachable cfg (gw_registry w) \<and> conn_inv cfg w \<and>
     (\<exists>h ids ks rdb ts. booked (new_gateway h ids ks rdb cfg ts) w)"

lemma probe_step:
  assumes "rg_pools g c = Some p" "a < hp_next (rg_heap g)"
  shows "reg_step g (g\<lparr>rg_heap := check_node post p a (rg_heap g)\<rparr>)"
  using assms by (auto simp: check_node_def intro: reg_step.intros split: option.split)

text \<open>One lemma for all steps: the rules of the step relation one by one.\<close>

lemma gw_step_effect:
  fixes w w' :: "('l, 'r) ws_gateway"
  assumes "gw_step cfg w w'" "reg_inv (gw_registry w)" "dom (rg_pools (gw_registry w)) = dom (cf_Chains cfg)"
    and "conn_inv cfg w"
  shows "reg_steps (gw_registry w) (gw_registry w') \<and> booked w w' \<and> conn_inv cfg w'"
proof -
  have pool: "rg_pools (gw_registry w) c \<noteq> None" if "cf_Chains cfg c \<noteq> None" for c
    using assms(3) that by (auto simp: dom_def)
  note same = conn_inv_same [OF assms(4)]
  from assms(1) show ?thesis
  proof cases
    case (rpc c r e reply)
    with rpc_effect [OF assms(2) pool [OF rpc(1)] rpc(3)] same [of w'] show ?thesis by (auto simp: tame_def)
  next
    case (ws_open c r e reply)
    with ws_stack_effect [OF assms(2) pool [OF ws_open(2)] assms(4) ws_open(4)] show ?thesis by blast
  next
    case (ws_in e read ok n)
    have "pumpClientToUpstream e read ok s v = (go, s', v') \<Longrightarrow> booked v v' \<and> only_books v v' \<and> same_session s s'"
      for s s' go and v v' :: "('l, 'r) ws_gateway" using pump_effects [of e read ok s v go s' v'] by blast
    from pump_turn_effect [OF this assms(4), where n = n] ws_in show ?thesis by simp
  next
    case (ws_out e read ok n)
    have "pumpUpstreamToClient e read ok s v = (go, s', v') \<Longrightarrow> booked v v' \<and> only_books v v' \<and> same_session s s'"
      for s s' go and v v' :: "('l, 'r) ws_gateway" using pump_effects [of e read ok s v go s' v'] by blast
    from pump_turn_effect [OF this assms(4), where n = n] ws_out show ?thesis by simp
  next
    case (probe c p a post)
    with probe_step [OF probe(2,3), of post] booked_registry [of w] same [of w'] show ?thesis by auto
  next
    case (refresh jerr db)
    have "booked w w'" by (rule booked_same) (simp_all add: refresh)
    with refresh same [of w'] show ?thesis by simp
  next
    case (sighup ae path)
    with sighup_effect [OF sighup(2), of w path] same [of w'] show ?thesis by simp
  next
    case (admin ae h route reply)
    with admin_effect [OF admin(1,2)] same [of w'] show ?thesis by simp
  qed
qed

lemma new_gateway_inv:
  assumes "gw_valid cfg" "enumerates ids (cf_Chains cfg)"
  shows "gw_inv cfg (new_gateway h ids ks rdb cfg ts)"
proof -
  let ?w = "new_gateway h ids ks rdb cfg ts"
  have "conn_inv cfg ?w"
    using assms(1)
    by (auto simp: conn_inv_def new_gateway_def session_keys_def guard.tracks_def guard_ok_def NewConnGuard_def
        conns_def map_get_def occupied_def gw_valid_def fun_eq_iff)
  moreover have "reg_reachable cfg (gw_registry ?w)"
    by (simp add: new_gateway_def reg_reachable.start [OF assms(2)])
  moreover have "booked ?w ?w" by simp
  ultimately show ?thesis unfolding gw_inv_def by blast
qed

lemma gw_reachable_inv:
  assumes "gw_reachable cfg w" "gw_valid cfg"
  shows "gw_inv cfg w"
  using assms(1)
proof (induction rule: gw_reachable.induct)
  case (start ids h ks rdb tokenStore)
  with assms(2) show ?case by (rule new_gateway_inv)
next
  case (step w w')
  have r: "reg_reachable cfg (gw_registry w)" "conn_inv cfg w" using step.IH by (simp_all add: gw_inv_def)
  have "reg_inv (gw_registry w) \<and> dom (rg_pools (gw_registry w)) = dom (cf_Chains cfg)"
    using assms(2) by (intro reachable_inv [OF r(1)]) (simp add: gw_valid_def)
  with gw_step_effect [OF step.hyps(2)] r(2) have "reg_steps (gw_registry w) (gw_registry w')" "booked w w'"
    "conn_inv cfg w'" by blast+
  with step.IH r(1) reg_steps_reachable booked_trans show ?case unfolding gw_inv_def by blast
qed



subsection \<open>What holds in every reachable state\<close>

text \<open>A gateway on the sample configuration, just started.\<close>

definition sample_gw_config :: config where
  "sample_gw_config = sample_config\<lparr>cf_WebSocket := sample_ws_config\<rparr>"

definition sample_gateway :: "(int, unit) ws_gateway" where
  "sample_gateway = new_gateway empty_heap [''eth''] [] None sample_gw_config sample_store"

lemma sample_gw_config_simps [simp]:
  "cf_Chains sample_gw_config = sample_chains" "cf_WebSocket sample_gw_config = sample_ws_config"
  "cf_Server sample_gw_config = cf_Server sample_config"
  by (simp_all add: sample_gw_config_def sample_config_def)

lemma sample_gw_valid: "gw_valid sample_gw_config"
  by (simp add: gw_valid_def sample_chains_ok sample_ws_config_def in64_def)

lemma sample_gw_reachable: "gw_reachable sample_gw_config sample_gateway"
  unfolding sample_gateway_def by (rule gw_reachable.start) (simp add: sample_enumerates)


text \<open>A gateway with one session open.\<close>

definition sample_opened :: "(int, unit) ws_gateway" where
  "sample_opened = snd (ws_stack sample_env sample_gw_config ''eth'' (sample_post ''demo'' [] empty_context) sample_gateway)"

lemma sample_opened_reachable: "gw_reachable sample_gw_config sample_opened"
proof (rule gw_reachable.step [OF sample_gw_reachable])
  show "gw_step sample_gw_config sample_gateway sample_opened"
    by (rule gw_step.ws_open [where c = "''eth''" and r = "sample_post ''demo'' [] empty_context" and e = sample_env
          and reply = "fst (ws_stack sample_env sample_gw_config ''eth'' (sample_post ''demo'' [] empty_context) sample_gateway)"])
      (simp_all add: sample_ws_config_def sample_opened_def sample_chains_def)
qed

text \<open>The same gateway after the upstream has sent a notification.\<close>

definition sample_pushed :: "(int, unit) ws_gateway" where
  "sample_pushed = pump_turn (pumpUpstreamToClient sample_env (Some push_frame) True) 0 sample_opened"

lemma sample_pushed_reachable: "gw_reachable sample_gw_config sample_pushed"
  unfolding sample_pushed_def by (rule gw_reachable.step [OF sample_opened_reachable gw_step.ws_out])

lemma sample_pushed_events:
  "map (\<lambda>ev. (ev_TokenKey ev, ev_SuccessN ev)) (gw_events sample_pushed) = [(''demo'', 2)]"
  by code_simp





text \<open>What the relation \<open>booked\<close> says of a state that started with empty books.\<close>

lemma success_counters:
  "success_counter SuccessCalls (\<lambda>b. True)" "success_counter BillableCalls (\<lambda>b. b)" "success_counter FreeCalls Not"
  by (simp_all add: success_counter_def)

lemma successes_billed:
  "\<forall>ev \<in> set bs. 0 < ev_SuccessN ev \<Longrightarrow>
     successes day key (map usage_call bs) = billed_sum (\<lambda>ev. ev_TokenKey ev = key \<and> format_day (ev_At ev) = day) bs"
  by (induction bs) (auto simp: successes_def usage_call_def)

lemma booked_from_start:
  fixes w :: "('l, 'r) ws_gateway"
  assumes "booked (new_gateway h ids ks rdb cfg ts) w"
  shows "\<exists>c. gw_stats w = Some c \<and>
    token_counter SuccessCalls key c = of_int (billed_sum (\<lambda>ev. ev_TokenKey ev = key) (gw_events w)) \<and>
    token_counter BillableCalls key c = of_int (billed_sum (\<lambda>ev. ev_TokenKey ev = key \<and> ev_Billable ev) (gw_events w)) \<and>
    token_counter FreeCalls key c = of_int (billed_sum (\<lambda>ev. ev_TokenKey ev = key \<and> \<not> ev_Billable ev) (gw_events w)) \<and>
    (lm_rdb (gw_limiter w) \<noteq> None \<or>
      dailyUsed rops key (format_day now) (gw_limiter w) =
        Inr (wrap64 (billed_sum (\<lambda>ev. ev_TokenKey ev = key \<and> format_day (ev_At ev) = format_day now) (gw_events w)))) \<and>
    list_all (\<lambda>ev. 0 < ev_SuccessN ev) (gw_events w)"
proof -
  let ?w = "new_gateway h ids ks rdb cfg ts"
  let ?start = "RegisterTokens (ListMeta ks ts) NewCollector"
  obtain evs bs where b: "booked_by evs bs ?w w" using assms unfolding booked_def by blast
  let ?c = "fold apply_event evs ?start"
  have c: "gw_stats w = Some ?c" and bs: "gw_events w = bs" and ag: "agrees evs bs"
    and pos: "\<forall>ev \<in> set bs. 0 < ev_SuccessN ev"
    using b by (simp_all add: booked_by_def new_gateway_def)
  have count: "token_counter f key ?c = of_int (billed_sum (\<lambda>ev. ev_TokenKey ev = key \<and> B (ev_Billable ev)) bs)"
    if f: "success_counter f B" for f B
  proof -
    have "f zero_metrics = 0" using f by (auto simp: success_counter_def zero_metrics_def)
    then have "token_counter f key ?start = 0" by (simp add: counter_register) (simp add: token_counter_def NewCollector_def)
    with events_counter [OF f, of key evs ?start] ag show ?thesis by (simp add: agrees_def)
  qed
  have daily: "dailyUsed rops key (format_day now) (gw_limiter w) =
      Inr (wrap64 (billed_sum (\<lambda>ev. ev_TokenKey ev = key \<and> format_day (ev_At ev) = format_day now) bs))"
    if n: "lm_rdb (gw_limiter w) = None"
  proof -
    let ?l = "count_all rops (map usage_call bs) (New None True :: ('l, 'r) limiter)"
    have "lm_daily (gw_limiter w) = lm_daily ?l" using b n by (simp add: booked_by_def new_gateway_def New_def)
    moreover have "lm_rdb ?l = None" by (rule count_all_rdb) (simp add: New_def)
    ultimately have "dailyUsed rops key (format_day now) (gw_limiter w) = dailyUsed rops key (format_day now) ?l"
      using n by (simp add: dailyUsed_def)
    then show ?thesis by (simp add: daily_used_eq successes_billed [OF pos])
  qed
  show ?thesis
    using count [OF success_counters(1)] count [OF success_counters(2)] count [OF success_counters(3)] daily pos
    by (auto simp: c bs list_all_iff)
qed

text \<open>
  C3: the books balance. In every reachable state the counters of a token's successes, of the billable
  and of the free ones, equal the sums over the billing events handed to the publisher, at 64 bits;
  without Redis the daily use that the quota check reads equals the sum over the events of that day;
  and every event has a positive count.
\<close>

theorem books_balance:
  assumes "gw_reachable cfg w" "gw_valid cfg"
  shows "\<exists>c. gw_stats w = Some c \<and>
    token_counter SuccessCalls key c = of_int (billed_sum (\<lambda>ev. ev_TokenKey ev = key) (gw_events w)) \<and>
    token_counter BillableCalls key c = of_int (billed_sum (\<lambda>ev. ev_TokenKey ev = key \<and> ev_Billable ev) (gw_events w)) \<and>
    token_counter FreeCalls key c = of_int (billed_sum (\<lambda>ev. ev_TokenKey ev = key \<and> \<not> ev_Billable ev) (gw_events w)) \<and>
    (lm_rdb (gw_limiter w) \<noteq> None \<or>
      dailyUsed rops key (format_day now) (gw_limiter w) =
        Inr (wrap64 (billed_sum (\<lambda>ev. ev_TokenKey ev = key \<and> format_day (ev_At ev) = format_day now) (gw_events w)))) \<and>
    list_all (\<lambda>ev. 0 < ev_SuccessN ev) (gw_events w)"
proof -
  obtain h ids ks rdb ts where "booked (new_gateway h ids ks rdb cfg ts) w"
    using gw_reachable_inv [OF assms] unfolding gw_inv_def by blast
  then show ?thesis by (rule booked_from_start)
qed

theorem books_balance_witness:
  "\<exists>c. gw_stats sample_pushed = Some c \<and> token_counter SuccessCalls ''demo'' c = 2"
proof -
  obtain ev where ev: "gw_events sample_pushed = [ev]" "ev_TokenKey ev = ''demo''" "ev_SuccessN ev = 2"
    using sample_pushed_events by (auto simp: map_eq_Cons_conv)
  from books_balance [OF sample_pushed_reachable sample_gw_valid, of "''demo''"]
  show ?thesis by (auto simp: ev billed_sum_def)
qed

end
