(* ===== verification/Gateway_Access.thy ===== *)
theory Gateway_Access
  imports Gateway_Spec Auth_Spec Config_Spec
begin

section \<open>Start, connections and revocation\<close>

text \<open>
  What a start from a configuration file gives, the bound on the connections of a token in every
  reachable state, and how far the revocation of a token reaches: requests and handshakes are refused
  from the next refresh on, sessions that are open go on.
\<close>

subsection \<open>Start\<close>

text \<open>The integers of a configuration file are 64-bit integers; only one of them matters here.\<close>

definition limit_fits :: "admin_env \<Rightarrow> bool" where
  "limit_fits ae \<longleftrightarrow>
     (\<forall>data cfg. ae_yaml ae data = Inr cfg \<longrightarrow> in64 (ws_MaxConnectionsPerToken (cf_WebSocket cfg)))"

text \<open>
  A start leads to a state from which everything proved of reachable states holds. When the
  gateway starts at all, from a file whose networks the iteration order covers and whose weights and
  limits fit in an \<open>int\<close>, the configuration it runs with is valid, every configured network has a pool
  with at least one node, and the state is a start state of the step relation.
\<close>

lemma boot_valid:
  assumes "boot ae jerr path pg rdb h = Inr (cfg, w)"
    and "enumerates (ae_file_order ae) (cf_Chains cfg)" "weights_fit ae" "limit_fits ae"
  shows "gw_valid cfg \<and> gw_reachable cfg w \<and> dom (rg_pools (gw_registry w)) = dom (cf_Chains cfg) \<and>
    (\<forall>c p. rg_pools (gw_registry w) c = Some p \<longrightarrow> po_nodes p \<noteq> [])"
proof -
  obtain sto where L: "Load (ae_ulower ae) (ae_read_file ae) (ae_yaml ae) (ae_file_order ae) path = Inr cfg"
    and w: "w = new_gateway h (ae_file_order ae) (ae_store_order ae) rdb cfg sto"
    using assms(1) by (auto simp: boot_def split: sum.splits)
  have "dom (cf_Chains cfg) \<subseteq> set (ae_file_order ae)" using assms(2) by (simp add: enumerates_def)
  from Load_serviceable [OF L this] have nodes: "ch_Nodes ch \<noteq> []" if "cf_Chains cfg c = Some ch" for c ch
    using that by (auto simp: serviceable_def ran_def)
  have chains: "chains_ok (cf_Chains cfg)"
    using nodes Load_fits [OF assms(3) L] by (auto simp: chains_ok_def)
  obtain data raw_cfg where "ae_yaml ae data = Inr raw_cfg" "cfg = applyDefaults (ae_ulower ae) raw_cfg"
    using L by (auto simp: Load_def split: sum.splits)
  with assms(4) have "0 < ws_MaxConnectionsPerToken (cf_WebSocket cfg) \<and> in64 (ws_MaxConnectionsPerToken (cf_WebSocket cfg))"
    by (auto simp: limit_fits_def applyDefaults_def default_websocket_def in64_def)
  with chains have valid: "gw_valid cfg" by (simp add: gw_valid_def)
  have reach: "gw_reachable cfg w" unfolding w by (rule gw_reachable.start [OF assms(2)])
  have "reg_inv (gw_registry w) \<and> dom (rg_pools (gw_registry w)) = dom (cf_Chains cfg)"
    using reachable_inv [OF _ chains] gw_reachable_inv [OF reach valid] by (simp add: gw_inv_def)
  with valid reach show ?thesis by (auto simp: reg_inv_def pool_inv_def)
qed

text \<open>The sample file, read at the start.\<close>

definition sample_admin_env :: admin_env where
  "sample_admin_env =
     \<lparr>ae_now = 1000000000, ae_ulower = id, ae_read_file = (\<lambda>p. Inr ''text''), ae_yaml = (\<lambda>d. Inr sample_file),
      ae_parse = (\<lambda>key_func iss sub now tok. Inl ''malformed''), ae_store_order = [''demo''], ae_stats_order = [''demo''],
      ae_file_order = [''eth''], ae_pool_order = [''eth'']\<rparr>"

lemma sample_admin_env_fits: "weights_fit sample_admin_env" "limit_fits sample_admin_env"
  by (auto simp: weights_fit_def limit_fits_def sample_admin_env_def sample_file_def fits_def cfg_weight_def in64_def
      split: if_splits)

lemma boot_valid_example:
  "\<exists>cfg w. boot sample_admin_env id ''config.yaml'' None (None :: unit option) empty_heap = Inr (cfg, w :: (int, unit) ws_gateway) \<and>
    gw_valid cfg \<and> gw_reachable cfg w \<and> rg_pools (gw_registry w) ''eth'' \<noteq> None"
proof -
  let ?cfg = "applyDefaults id sample_file"
  obtain sto where "yaml_tokens (cf_Plans ?cfg) (cf_Tokens ?cfg) Map.empty = Inr sto"
    by (simp add: sample_file_def)
  then obtain w :: "(int, unit) ws_gateway" where
    b: "boot sample_admin_env id ''config.yaml'' None (None :: unit option) empty_heap = Inr (?cfg, w)"
    by (simp add: boot_def Load_def sample_admin_env_def sample_file_valid initTokenStore_def NewStoreFromConfig_def)
  have "cf_Chains ?cfg ''eth'' \<noteq> None" "enumerates (ae_file_order sample_admin_env) (cf_Chains ?cfg)"
    by (auto simp: sample_admin_env_def enumerates_def sample_file_def dom_def split: if_splits)
  then show ?thesis using b boot_valid [OF b _ sample_admin_env_fits] by auto
qed

subsection \<open>Connections\<close>

text \<open>
  C5: no token holds more WebSocket connections than configured. In every reachable state, whatever
  handshakes failed and however sessions ended, the count of the guard for a key is exactly the number
  of open sessions under that key, and it is at most \<open>max_connections_per_token\<close>.
\<close>

theorem connections_bounded:
  assumes "gw_reachable cfg w" "gw_valid cfg"
  shows "finite {n. gw_sessions w n \<noteq> None} \<and>
    conns (gw_conns w) key = int (card {n. \<exists>s. gw_sessions w n = Some s \<and> tok_Key (se_token s) = key}) \<and>
    conns (gw_conns w) key \<le> ws_MaxConnectionsPerToken (cf_WebSocket cfg)"
proof -
  have inv: "conn_inv cfg w" using gw_reachable_inv [OF assms] by (simp add: gw_inv_def)
  then have tr: "guard.tracks (gw_conns w) (session_keys w)"
    and limit: "cg_max (gw_conns w) = ws_MaxConnectionsPerToken (cf_WebSocket cfg)"
    by (simp_all add: conn_inv_def)
  have "dom (session_keys w) = {n. gw_sessions w n \<noteq> None}" by (auto simp: session_keys_def)
  moreover have "occupied (session_keys w) key =
      int (card {n. \<exists>s. gw_sessions w n = Some s \<and> tok_Key (se_token s) = key})"
    by (simp add: occupied_def session_keys_def)
  ultimately show ?thesis
    using tr guard.tracks_bound [OF tr, of key] limit by (auto simp: guard.tracks_def fun_eq_iff)
qed

lemma sample_opened_count: "conns (gw_conns sample_opened) ''demo'' = 1"
  by code_simp

theorem connections_bounded_witness:
  "card {n. \<exists>s. gw_sessions sample_opened n = Some s \<and> tok_Key (se_token s) = ''demo''} = 1 \<and>
   conns (gw_conns sample_opened) ''demo'' \<le> 2"
  using connections_bounded [OF sample_opened_reachable sample_gw_valid, of "''demo''"]
  by (simp add: sample_ws_config_def sample_opened_count)

subsection \<open>Revocation\<close>

lemma unknown_refused:
  fixes w :: "('l, 'r) ws_gateway"
  assumes "Lookup (gw_tokens w) (trim_space (ht_token r)) = None"
  shows "\<exists>st code msg ev. st \<in> {401, 403} \<and> quiet_event ev \<and>
    rpc_stack e cfg c r w = (writeErr st code msg, with_stats (apply_event ev) w) \<and>
    ws_stack e cfg c r w = (writeErr st code msg, with_stats (apply_event ev) w)"
proof (cases "HostAllowed (en_ulower e) (sv_Domains (cf_Server cfg)) (ht_Host r)")
  case False
  then show ?thesis
    by (intro exI [of _ 403] exI [of _ "-32010"] exI [of _ "''host not allowed''"] exI [of _ "Ev_DomainRejected (en_now e)"])
      (simp add: rpc_stack_def ws_stack_def Domain_mw_def apply_event_eta)
next
  case host: True
  show ?thesis
    by (intro exI [of _ 401] exI [of _ "-32001"]
        exI [of _ "if trim_space (ht_token r) = [] then ''missing api token in path'' else ''invalid api token''"]
        exI [of _ "Ev_AuthFailed (en_now e)"])
      (simp add: host assms rpc_stack_def ws_stack_def Domain_mw_def PathAuth_mw_def apply_event_eta)
qed

text \<open>
  C14: revocation works for new requests. After a refresh that reads the database without error, every
  JSON-RPC request and every handshake under a key for which the tables have no enabled token is
  refused with 401, or 403 when its host is not allowed either; nothing is forwarded, billed or
  limited, and no session opens: only the counters of refusals change.
\<close>

theorem revoked_refused:
  fixes w :: "('l, 'r) ws_gateway"
  assumes "distinct (map at_token_key tokens)" "distinct (map pr_code plans)"
    and "ListEnabledTokens jerr (Inr (tokens, plans)) = Inr list"
    and "\<And>t. \<not> granted jerr tokens plans (trim_space (ht_token r)) t"
    and "w1 = w\<lparr>gw_tokens := refresh_tick jerr (Inr (tokens, plans)) (gw_tokens w)\<rparr>"
  shows "\<exists>st code msg ev. st \<in> {401, 403} \<and> quiet_event ev \<and>
    rpc_stack e cfg c r w1 = (writeErr st code msg, with_stats (apply_event ev) w1) \<and>
    ws_stack e cfg c r w1 = (writeErr st code msg, with_stats (apply_event ev) w1)"
proof (rule unknown_refused)
  note m = refreshed_lookup [OF assms(1-3), of "gw_tokens w" "trim_space (ht_token r)"]
  show "Lookup (gw_tokens w1) (trim_space (ht_token r)) = None"
    using m assms(4) by (cases "Lookup (gw_tokens w1) (trim_space (ht_token r))") (auto simp: assms(5))
qed

theorem revoked_refused_witness:
  "\<exists>st code msg ev. st \<in> {401, 403} \<and> quiet_event ev \<and>
    rpc_stack sample_env sample_gw_config ''eth'' (sample_post ''demo'' sample_body empty_context)
        (sample_opened\<lparr>gw_tokens := refresh_tick id (Inr ([], [])) (gw_tokens sample_opened)\<rparr>) =
      (writeErr st code msg, with_stats (apply_event ev)
        (sample_opened\<lparr>gw_tokens := refresh_tick id (Inr ([], [])) (gw_tokens sample_opened)\<rparr>))"
  using revoked_refused [of "[]" "[]" id "[]" "sample_post ''demo'' sample_body empty_context" _ sample_opened
      sample_env sample_gw_config "''eth''"]
  by (simp add: ListEnabledTokens_def enabled_tokens_query_def granted_def) blast

text \<open>
  Revocation does not reach open sessions. A turn of either pump of a session does the same
  whatever the token cache holds: a token that the database has disabled or dropped keeps its
  sessions, with the limits and the denied methods it had when they were opened, until the client
  leaves.
\<close>

lemma sessions_survive_revocation:
  fixes w :: "('l, 'r) ws_gateway"
  shows "pump_turn (pumpClientToUpstream e read ok) n (w\<lparr>gw_tokens := ts\<rparr>) =
      (pump_turn (pumpClientToUpstream e read ok) n w)\<lparr>gw_tokens := ts\<rparr> \<and>
    pump_turn (pumpUpstreamToClient e read ok) n (w\<lparr>gw_tokens := ts\<rparr>) =
      (pump_turn (pumpUpstreamToClient e read ok) n w)\<lparr>gw_tokens := ts\<rparr>"
proof -
  have "handleInbound e data s (w\<lparr>gw_tokens := ts\<rparr>) =
      (case handleInbound e data s w of (x, s', w') \<Rightarrow> (x, s', w'\<lparr>gw_tokens := ts\<rparr>))" for data s
    by (cases "Allow (en_rops e) (en_lops e) (en_now e) (se_token s) (se_chainID s) (se_clientIP s) (gw_limiter w)")
      (simp add: handleInbound_eq with_stats_def Let_def split: sum.split option.split prod.split)
  moreover have "handleOutbound e data s (w\<lparr>gw_tokens := ts\<rparr>) =
      (case handleOutbound e data s w of (s', w') \<Rightarrow> (s', w'\<lparr>gw_tokens := ts\<rparr>))" for data s
    by (simp add: handleOutbound_def notify_def publish_def count_usage_def with_stats_def Let_def
        split: option.split prod.split)
  ultimately show ?thesis
    by (auto simp: pump_turn_def pumpClientToUpstream_def pumpUpstreamToClient_def ws_end_def set_conns_def
        split: option.split prod.split bool.split)
qed

end
