(* ===== verification/Admin_Spec.thy ===== *)
theory Admin_Spec
  imports Gateway_Access Admin_Jwt_Spec
begin

section \<open>What the admin API promises\<close>

text \<open>
  Who gets in, what the report on a token shows, and that a reload over the admin API either replaces
  the nodes of every configured network or changes nothing.
\<close>

subsection \<open>Who gets in\<close>

lemma Routes_refused_or_valid:
  assumes "Routes ae ops h route r s w = (reply, w')"
  obtains (refused) e where "reply = AdminReply 401 (AError e)" "w' = w"
  | (let_in) v c where "ah_Validator h = Some v" "extractBearer r \<noteq> []"
      "Validate (ae_parse ae) ops v (ae_now ae) (extractBearer r) s = Inr c"
      "admin_dispatch ae h route w = (reply, w')"
proof (cases "admin_auth ae ops h r s")
  case None
  then obtain v c where "ah_Validator h = Some v" "extractBearer r \<noteq> []"
    "Validate (ae_parse ae) ops v (ae_now ae) (extractBearer r) s = Inr c"
    by (auto simp: admin_auth_def Let_def split: option.splits if_splits sum.splits)
  with None assms show thesis by (intro let_in) (simp_all add: Routes_def)
next
  case (Some x)
  then obtain e where "x = AdminReply 401 (AError e)"
    by (auto simp: admin_auth_def Let_def split: option.splits if_splits sum.splits)
  with Some assms show thesis by (intro refused [of e]) (simp_all add: Routes_def)
qed

text \<open>
  C36: only the newest JWT opens the admin API. From a rotation with \<open>revoke_previous\<close> on, with the
  validator that the gateway builds from its configuration and the JWTs in PostgreSQL, every request
  on every admin route is refused with 401 and changes nothing, unless its bearer token is valid,
  carries the id of the last rotation and has not outlived the TTL; then the route's handler runs.
\<close>

theorem admin_only_newest:
  assumes "pg_inv db" "rc_RevokePrevious (admin_rotator cfg)"
    and "Rotate sign (postgres_ops no_faults) (admin_issuer cfg) (admin_rotator cfg) jti i now db = (None, db')"
    and "now \<le> ae_now ae"
    and "Routes ae (postgres_ops f) (new_admin cfg path) route r db' w = (reply, w')"
  shows "(\<exists>e. reply = AdminReply 401 (AError e)) \<and> w' = w \<or>
    (\<exists>c. Validate (ae_parse ae) (postgres_ops f) (admin_validator cfg) (ae_now ae) (extractBearer r) db' = Inr c \<and>
       cl_ID c = jti \<and> ae_now ae < now + aj_TTL (ad_JWT (cf_Admin cfg)) \<and>
       admin_dispatch ae (new_admin cfg path) route w = (reply, w'))"
  using assms(5)
proof (cases rule: Routes_refused_or_valid)
  case (refused e)
  then show ?thesis by blast
next
  case (let_in v c)
  then have v: "v = admin_validator cfg" by (simp add: new_admin_def)
  from newest_validates [OF assms(1-4) let_in(3)] let_in(3,4) show ?thesis
    by (auto simp: v admin_issuer_def Let_def)
qed

definition sample_admin_config :: config where
  "sample_admin_config = sample_config\<lparr>cf_Admin := \<lparr>ad_Enabled = True,
     ad_JWT = \<lparr>aj_Secret = ''s'', aj_Issuer = ''gw'', aj_Subject = ''admin'', aj_TTL = 3600000000000,
       aj_RotateEvery = 1, aj_RotateOnStart = True, aj_RevokePrevious = True, aj_CleanupRetention = 0,
       aj_LogToken = False\<rparr>\<rparr>\<rparr>"

lemma sample_admin_parts:
  "admin_issuer sample_admin_config = sample_issuer" "admin_rotator sample_admin_config = sample_rotation"
  "admin_validator sample_admin_config = sample_validator"
  by (simp_all add: admin_issuer_def admin_rotator_def admin_validator_def sample_admin_config_def
      sample_issuer_def sample_rotation_def sample_validator_def)

definition bearer_request :: "string \<Rightarrow> request" where
  "bearer_request tok =
     (sample_post [] [] empty_context)\<lparr>ht_Header := (\<lambda>h. if h = ''Authorization'' then ''bearer '' @ tok else [])\<rparr>"

text \<open>The old token is refused, the new one lists the upstreams.\<close>

lemma sample_bearer: "extractBearer (bearer_request ''told'') = ''told''" "extractBearer (bearer_request ''tnew'') = ''tnew''"
  by code_simp+

lemma sample_admitted:
  "admin_auth (sample_admin_env\<lparr>ae_now := 6000000000, ae_parse := sample_parse\<rparr>) (postgres_ops no_faults)
     (new_admin sample_admin_config ''config.yaml'') (bearer_request ''tnew'')
     [(sample_row ''old'' 0)\<lparr>jr_Revoked := True\<rparr>, sample_row ''new'' 5000000000] = None"
  by (simp add: admin_auth_def sample_bearer new_admin_def sample_admin_parts Validate_def sample_parse_def
      keyfunc_def sample_validator_def postgres_ops_def no_faults_def pg_IsActive_def sample_row_def)

theorem admin_only_newest_witness:
  "let ae = sample_admin_env\<lparr>ae_now := 6000000000, ae_parse := sample_parse\<rparr>;
       db = [(sample_row ''old'' 0)\<lparr>jr_Revoked := True\<rparr>, sample_row ''new'' 5000000000];
       h = new_admin sample_admin_config ''config.yaml''
   in fst (Routes ae (postgres_ops no_faults) h GetUpstreams (bearer_request ''told'') db sample_http) =
        AdminReply 401 (AError ''invalid or revoked jwt'') \<and>
      fst (Routes ae (postgres_ops no_faults) h GetUpstreams (bearer_request ''tnew'') db sample_http) =
        fst (upstreams sample_http)"
proof -
  let ?ae = "sample_admin_env\<lparr>ae_now := 6000000000, ae_parse := sample_parse\<rparr>"
  let ?db = "[(sample_row ''old'' 0)\<lparr>jr_Revoked := True\<rparr>, sample_row ''new'' 5000000000]"
  let ?h = "new_admin sample_admin_config ''config.yaml''"
  note W = admin_only_newest [where ae = ?ae and db' = ?db and db = "[sample_row ''old'' 0]" and f = no_faults
      and cfg = sample_admin_config and sign = sample_sign and jti = "''new''" and i = "''i''" and now = 5000000000
      and path = "''config.yaml''" and route = GetUpstreams and w = sample_http,
      OF sample_table_inv _ _ _ surjective_pairing]
  have rot: "rc_RevokePrevious (admin_rotator sample_admin_config)"
    "Rotate sample_sign (postgres_ops no_faults) (admin_issuer sample_admin_config) (admin_rotator sample_admin_config)
       ''new'' ''i'' 5000000000 [sample_row ''old'' 0] = (None, ?db)" "5000000000 \<le> ae_now ?ae"
    using sample_rotate by (simp_all add: sample_admin_parts sample_rotation_def)
  have old: "fst (Routes ?ae (postgres_ops no_faults) ?h GetUpstreams (bearer_request ''told'') ?db sample_http) =
      AdminReply 401 (AError ''invalid or revoked jwt'')"
    by (simp add: Routes_def admin_auth_def sample_bearer new_admin_def sample_admin_parts Validate_def sample_parse_def
        keyfunc_def sample_validator_def postgres_ops_def no_faults_def pg_IsActive_def sample_row_def)
  have ok: "admin_auth ?ae (postgres_ops no_faults) ?h (bearer_request ''tnew'') ?db = None"
    using sample_admitted by simp
  have "fst (Routes ?ae (postgres_ops no_faults) ?h GetUpstreams (bearer_request ''tnew'') ?db sample_http) = fst (upstreams sample_http)"
    using W [OF rot, of "bearer_request ''tnew''"] ok
    by (elim disjE) (simp_all add: Routes_def admin_dispatch_def upstreams_def)
  with old show ?thesis by (simp add: Let_def)
qed

subsection \<open>Reload\<close>

lemma reload_configured:
  assumes "chains_ok m" "reg_inv g" "enumerates order (rg_pools g)" "ReloadNodes order m g = (err, g')"
  shows "err = None \<and> registry_snapshot g' = reloaded_views m g"
proof -
  from reload_pools_ok [OF assms(1,2)] assms(3) obtain g2 where g2: "ReloadNodes order m g = (None, g2)"
    and v: "\<And>c. registry_snapshot g2 c = (if c \<in> set order then reloaded_views m g c else registry_snapshot g c)"
    unfolding ReloadNodes_def enumerates_def by blast
  have "registry_snapshot g2 c = reloaded_views m g c" for c
    using v [of c] assms(3) by (auto simp: enumerates_def reloaded_views_def split: option.split)
  with g2 assms(4) show ?thesis by (auto simp: fun_eq_iff)
qed

text \<open>
  A reload over the admin API is all or nothing. Either it answers 200 with the nodes now in use,
  and these are for every network of the gateway the nodes of the file just read, as new, or, where
  the file does not have the network, the old ones; or it answers 400 or 503 with a message, and nothing has changed. The
  partial reload that \<open>ReloadNodes\<close> alone allows cannot happen, because \<open>Load\<close> has refused a network
  without nodes before.
\<close>

lemma reload_all_or_nothing:
  assumes "reg_inv (gw_registry w)" "weights_fit ae" "enumerates (ae_pool_order ae) (rg_pools (gw_registry w))"
    and "\<And>cfg. Load (ae_ulower ae) (ae_read_file ae) (ae_yaml ae) (ae_file_order ae) path = Inr cfg \<Longrightarrow>
      dom (cf_Chains cfg) \<subseteq> set (ae_file_order ae)"
    and "reloadUpstreams ae path w = (reply, w')"
  shows "(\<exists>cfg. Load (ae_ulower ae) (ae_read_file ae) (ae_yaml ae) (ae_file_order ae) path = Inr cfg \<and>
      reply = AdminReply 200 (AReloaded (reloaded_views (cf_Chains cfg) (gw_registry w))) \<and>
      registry_snapshot (gw_registry w') = reloaded_views (cf_Chains cfg) (gw_registry w)) \<or>
    (\<exists>st e. reply = AdminReply st (AError e) \<and> st \<in> {400, 503} \<and> w' = w)"
proof (cases "path = []")
  case True
  with assms(5) show ?thesis by (auto simp: reloadUpstreams_def)
next
  case path: False
  show ?thesis
  proof (cases "Load (ae_ulower ae) (ae_read_file ae) (ae_yaml ae) (ae_file_order ae) path")
    case (Inl e)
    with path assms(5) show ?thesis by (auto simp: reloadUpstreams_def)
  next
    case (Inr cfg)
    have "ch_Nodes ch \<noteq> []" if "cf_Chains cfg c = Some ch" for c ch
      using Load_serviceable [OF Inr assms(4) [OF Inr]] that by (auto simp: serviceable_def ran_def)
    with Load_fits [OF assms(2) Inr] have ok: "chains_ok (cf_Chains cfg)" by (auto simp: chains_ok_def)
    obtain err g where r: "ReloadNodes (ae_pool_order ae) (cf_Chains cfg) (gw_registry w) = (err, g)" by fastforce
    from reload_configured [OF ok assms(1,3) r] Inr path assms(5) r show ?thesis
      by (auto simp: reloadUpstreams_def)
  qed
qed

lemma reload_all_or_nothing_example:
  "(\<exists>cfg. Load id (\<lambda>p. Inr ''text'') (\<lambda>d. Inr sample_file) [''eth''] ''config.yaml'' = Inr cfg \<and>
      fst (reloadUpstreams sample_admin_env ''config.yaml'' sample_http) =
        AdminReply 200 (AReloaded (reloaded_views (cf_Chains cfg) sample_registry)))"
proof -
  have load: "Load (ae_ulower sample_admin_env) (ae_read_file sample_admin_env) (ae_yaml sample_admin_env)
      (ae_file_order sample_admin_env) ''config.yaml'' = Inr (applyDefaults id sample_file)"
    by (simp add: Load_def sample_admin_env_def sample_file_valid)
  have dom: "dom (cf_Chains (applyDefaults id sample_file)) \<subseteq> set (ae_file_order sample_admin_env)"
    by (auto simp: sample_file_def dom_def sample_admin_env_def split: if_splits)
  have "enumerates (ae_pool_order sample_admin_env) (rg_pools (gw_registry sample_http))"
    by (auto simp: sample_admin_env_def enumerates_def sample_http_def sample_registry_def NewRegistry_def
        sample_config_def sample_chains_def split: if_splits prod.split)
  note W = reload_all_or_nothing [OF _ sample_admin_env_fits(1) this _ surjective_pairing, of "''config.yaml''"]
  have "fst (reloadUpstreams sample_admin_env ''config.yaml'' sample_http) \<noteq> AdminReply st (AError e)" if "st \<in> {400, 503}" for st e
  proof -
    have "fst (reloadUpstreams sample_admin_env ''config.yaml'' sample_http) \<noteq> AdminReply st (AError e)"
      if "ReloadNodes (ae_pool_order sample_admin_env) (cf_Chains (applyDefaults id sample_file)) sample_registry = (None, g)" for g
      using that by (simp add: reloadUpstreams_def load)
    moreover have "\<exists>g. ReloadNodes (ae_pool_order sample_admin_env) (cf_Chains (applyDefaults id sample_file)) sample_registry = (None, g)"
      by (simp add: ReloadNodes_def sample_admin_env_def sample_file_def ReplaceNodes_def Let_def default_chain_def
          split: option.split prod.split)
    ultimately show ?thesis by blast
  qed
  moreover have "\<forall>cfg. Load (ae_ulower sample_admin_env) (ae_read_file sample_admin_env) (ae_yaml sample_admin_env)
      (ae_file_order sample_admin_env) ''config.yaml'' = Inr cfg \<longrightarrow> dom (cf_Chains cfg) \<subseteq> set (ae_file_order sample_admin_env)"
    using load dom by simp
  ultimately show ?thesis using W load by (auto simp: sample_admin_env_def)
qed

subsection \<open>The report on a token\<close>

lemma RegisterTokens_at:
  "distinct (map tm_Key ms) \<Longrightarrow>
     co_tokens (RegisterTokens ms c) k =
       (case find (\<lambda>m. tm_Key m = k) ms of
          None \<Rightarrow> co_tokens c k
        | Some m \<Rightarrow> Some (case co_tokens c k of
            Some st \<Rightarrow> st\<lparr>ts_meta := m\<rparr>
          | None \<Rightarrow> \<lparr>ts_meta = m, ts_metrics = zero_metrics, ts_chains = Map.empty\<rparr>))"
proof (induction ms arbitrary: c)
  case Nil
  then show ?case by (simp add: RegisterTokens_def)
next
  case (Cons m ms)
  have "find (\<lambda>m. tm_Key m = k) ms = None" if "tm_Key m = k"
    using Cons.prems that unfolding find_None_iff by (metis distinct.simps(2) image_eqI list.set_map list.simps(9))
  moreover have "RegisterTokens (m # ms) c = RegisterTokens ms (ensureToken m c)" by (simp add: RegisterTokens_def)
  ultimately show ?case using Cons.IH [of "ensureToken m c"] Cons.prems
    by (auto simp: ensureToken_def split: option.split)
qed

lemma ListMeta_find:
  assumes "store_inv s" "enumerates ks (sto_tokens s)"
  shows "distinct (map tm_Key (ListMeta ks s))"
    "find (\<lambda>m. tm_Key m = k) (ListMeta ks s) = map_option meta_of (sto_tokens s k)"
proof -
  have keys: "tm_Key (meta_of t) = j" if "sto_tokens s j = Some t" for j t
    using assms(1) that by (auto simp: store_inv_def keyed_def meta_of_def)
  have "distinct js \<Longrightarrow> set js \<subseteq> dom (sto_tokens s) \<Longrightarrow> map tm_Key (ListMeta js s) = js \<and>
      find (\<lambda>m. tm_Key m = k) (ListMeta js s) = (if k \<in> set js then map_option meta_of (sto_tokens s k) else None)" for js
  proof (induction js)
    case Nil
    then show ?case by (simp add: ListMeta_def)
  next
    case (Cons j js)
    then obtain t where t: "sto_tokens s j = Some t" by auto
    then have "ListMeta (j # js) s = meta_of t # ListMeta js s" by (simp add: ListMeta_def)
    with Cons keys [OF t] t show ?case by auto
  qed
  from this [of ks] assms(2) show "distinct (map tm_Key (ListMeta ks s))"
    "find (\<lambda>m. tm_Key m = k) (ListMeta ks s) = map_option meta_of (sto_tokens s k)"
    by (auto simp: enumerates_def)
qed

text \<open>
  What the report on a token says. For a token in the cache it shows the counters kept under its
  key with the data of the cache, whether or not it has been used; a key that has left the cache
  keeps its report, with the data it had last, so that a token the database has revoked is still
  reported as enabled; and the answer is 404 exactly for a key that neither the cache nor the
  statistics know, so, as long as the cache is not refreshed while the handler runs, its own fallback for a token
  without statistics is not needed.
\<close>

lemma token_report:
  assumes "store_inv (gw_tokens w)" "enumerates (ae_store_order ae) (sto_tokens (gw_tokens w))"
    and "gw_stats w = Some c"
  shows "fst (tokenStats ae key w) =
    (case (sto_tokens (gw_tokens w) key, co_tokens c key) of
       (Some t, Some st) \<Rightarrow> AdminReply 200 (AToken (token_view (st\<lparr>ts_meta := meta_of t\<rparr>)))
     | (Some t, None) \<Rightarrow> AdminReply 200 (AToken (meta_snapshot (meta_of t)))
     | (None, Some st) \<Rightarrow> AdminReply 200 (AToken (token_view st))
     | (None, None) \<Rightarrow> AdminReply 404 (AError ''token not found''))"
  using ListMeta_find(2) [OF assms(1,2), of key] RegisterTokens_at [OF ListMeta_find(1) [OF assms(1,2)], of c key]
  by (auto simp: tokenStats_def on_collector_def assms(3) TokenSnapshot_def findMeta_def token_view_def meta_snapshot_def
      lastAt_def zero_metrics_def fun_eq_iff split: option.split)

lemma token_report_example:
  "fst (tokenStats sample_admin_env ''demo'' sample_http) =
     AdminReply 200 (AToken (meta_snapshot (meta_of sample_token)))"
proof -
  have "store_inv (gw_tokens sample_http)" "enumerates (ae_store_order sample_admin_env) (sto_tokens (gw_tokens sample_http))"
    by (simp_all add: sample_http_def sample_store_def store_inv_def keyed_def sample_token_def sample_admin_env_def enumerates_def)
  from token_report [OF this, of NewCollector "''demo''"] show ?thesis
    by (simp add: sample_http_def sample_store_def NewCollector_def)
qed

end
