(* ===== verification/Json_Roundtrip.thy ===== *)
theory Json_Roundtrip
  imports Ratelimit_Spec Http
begin

section \<open>What the gateway writes can be read back\<close>

text \<open>
  The string encoder and the parser of the theory \<open>Json\<close> are inverse to each other up to the
  replacement of invalid UTF-8, and the error replies of the gateway parse to exactly the code and the
  message that the handler passed.
\<close>

subsection \<open>UTF-8 sequences\<close>

abbreviation byte :: "char \<Rightarrow> nat" where "byte c \<equiv> of_char c"

lemma tail_ok_prefix:
  assumes "tail_ok bs s" "\<forall>(lo, hi) \<in> set bs. 128 \<le> lo"
  shows "length bs \<le> length s \<and> tail_ok bs (take (length bs) s @ t) \<and>
    (\<forall>c \<in> set (take (length bs) s). 128 \<le> byte c)"
  using assms
proof (induction bs s rule: tail_ok.induct)
  case (1 s)
  then show ?case by simp
next
  case (2 lo hi bs s)
  then show ?case by (cases s) auto
qed

text \<open>A sequence is recognised by its own bytes, and a sequence of several bytes has none below 128.\<close>

lemma utf8_size_prefix:
  assumes "utf8_size s = Suc k"
  shows "Suc k \<le> length s \<and> utf8_size (take (Suc k) s @ t) = Suc k \<and>
    (128 \<le> byte (hd s) \<longrightarrow> (\<forall>c \<in> set (take (Suc k) s). 128 \<le> byte c))"
proof (cases s)
  case Nil
  with assms show ?thesis by (simp add: utf8_size_def)
next
  case (Cons c cs)
  let ?t = "(128, 191) :: nat \<times> nat"
  let ?tails = "[[?t], [(160, 191), ?t], [(128, 159), ?t], [?t, ?t], [(144, 191), ?t, ?t], [?t, ?t, ?t], [(128, 143), ?t, ?t]]"
  have "k = 0 \<and> byte c < 128 \<or> (\<exists>bs \<in> set ?tails. length bs = k \<and> tail_ok bs cs \<and>
      (\<forall>xs. tail_ok bs xs \<longrightarrow> utf8_size (c # xs) = Suc k))"
    using assms unfolding Cons by (auto simp: utf8_size_def Let_def simp del: tail_ok.simps split: if_splits)
  then have "k = 0 \<and> byte c < 128 \<or> (\<exists>bs. length bs = k \<and> tail_ok bs cs \<and> (\<forall>(lo, hi) \<in> set bs. 128 \<le> lo) \<and>
      (\<forall>xs. tail_ok bs xs \<longrightarrow> utf8_size (c # xs) = Suc k))"
    by (fastforce simp del: tail_ok.simps)
  then show ?thesis
  proof (elim disjE exE conjE)
    assume "k = 0" "byte c < 128"
    then show ?thesis by (simp add: Cons utf8_size_def)
  next
    fix bs assume bs: "length bs = k" "tail_ok bs cs" "\<forall>(lo, hi) \<in> set bs. 128 \<le> lo"
      "\<forall>xs. tail_ok bs xs \<longrightarrow> utf8_size (c # xs) = Suc k"
    from tail_ok_prefix [OF bs(2,3), of t] bs(1,4) show ?thesis by (auto simp: Cons)
  qed
qed

subsection \<open>The contents of a string literal\<close>

text \<open>A string with each byte that starts no valid sequence replaced.\<close>

function coerce_utf8 :: "string \<Rightarrow> string" where
  "coerce_utf8 [] = []"
| "coerce_utf8 (c # cs) =
     (let k = utf8_size (c # cs)
      in if k = 0 then replacement @ coerce_utf8 cs
         else take k (c # cs) @ coerce_utf8 (drop (k - 1) cs))"
  by pat_completeness auto
termination
  by (relation "measure length") auto

lemma coerce_ascii: "list_all (\<lambda>c. byte c < 128) s \<Longrightarrow> coerce_utf8 s = s"
  by (induction s) (simp_all add: utf8_size_def)

lemma quote_byte [simp]: "byte quote = 34" "byte backslash = 92" "quote \<noteq> backslash" "backslash \<noteq> quote"
  by (simp_all add: quote_def backslash_def)

lemma byte_ne: "128 \<le> byte c \<Longrightarrow> c \<noteq> quote \<and> c \<noteq> backslash"
  by auto

lemma unquote_sequence:
  assumes "utf8_size s = Suc k" "128 \<le> byte (hd s)"
  shows "unquote (take (Suc k) s @ t) = take (Suc k) s @ unquote t"
proof (cases s)
  case Nil
  with assms show ?thesis by (simp add: utf8_size_def)
next
  case (Cons c cs)
  have "c \<noteq> backslash" using assms(2) byte_ne by (simp add: Cons)
  moreover have "utf8_size (c # take k cs @ t) = Suc k" "k \<le> length cs"
    using utf8_size_prefix [OF assms(1), of t] by (simp_all add: Cons)
  ultimately show ?thesis by (simp add: Cons Let_def)
qed

lemma scan_sequence:
  assumes "\<forall>c \<in> set p. 128 \<le> byte c"
  shows "scan_str (p @ t) = map_option (\<lambda>(u, r). (p @ u, r)) (scan_str t)"
  using assms
proof (induction p)
  case Nil
  then show ?case by (cases "scan_str t") auto
next
  case (Cons c p)
  then have "c \<noteq> quote \<and> c \<noteq> backslash \<and> \<not> byte c < 32" using byte_ne by auto
  with Cons show ?case by (cases "scan_str t") auto
qed

subsection \<open>Escapes\<close>

lemma hex_digit_byte: "n < 16 \<Longrightarrow> byte (hex_digit n) = (if n < 10 then 48 + n else 87 + n)"
  by (simp add: hex_digit_def)

lemma hex_digit: "n < 16 \<Longrightarrow> is_hex (hex_digit n) \<and> hex_val (hex_digit n) = n"
  by (simp add: is_hex_def hex_val_def Let_def hex_digit_byte)

lemma zero_hex: "is_hex (CHR ''0'')" "hex_val (CHR ''0'') = 0"
  by (simp_all add: is_hex_def hex_val_def)

lemma getu4_escape:
  "n < 128 \<Longrightarrow> getu4 (escape_u n @ t) = Some n"
  using hex_digit [of "n div 16"] hex_digit [of "n mod 16"] zero_hex
  by (simp add: getu4_def escape_u_def)

lemma escape_plain:
  assumes "byte c < 128" "c \<noteq> quote" "c \<noteq> backslash" "\<not> byte c < 32"
  shows "unquote (c # t) = c # unquote t" "scan_str (c # t) = map_option (\<lambda>(u, r). (c # u, r)) (scan_str t)"
  using assms by (simp_all add: utf8_size_def)

lemma escape_short:
  assumes "e \<in> set ''bfnrt'' \<or> e = quote \<or> e = backslash"
  shows "unquote (backslash # e # t) = escape_char e # unquote t"
    "scan_str (backslash # e # t) = map_option (\<lambda>(u, r). (backslash # e # u, r)) (scan_str t)"
proof -
  have "e \<noteq> CHR ''u''" using assms by (auto simp: quote_def backslash_def)
  then have "getu4 (backslash # e # t) = None" by (simp add: getu4_def split: list.split)
  with assms \<open>e \<noteq> CHR ''u''\<close> show "unquote (backslash # e # t) = escape_char e # unquote t"
    "scan_str (backslash # e # t) = map_option (\<lambda>(u, r). (backslash # e # u, r)) (scan_str t)"
    by auto
qed

lemma escape_hex:
  assumes "n < 128"
  shows "unquote (escape_u n @ t) = char_of n # unquote t"
    "scan_str (escape_u n @ t) = map_option (\<lambda>(u, r). (escape_u n @ u, r)) (scan_str t)"
proof -
  have u: "escape_u n @ t = backslash # ([CHR ''u'', CHR ''0'', CHR ''0'', hex_digit (n div 16), hex_digit (n mod 16)] @ t)"
    by (simp add: escape_u_def)
  show "unquote (escape_u n @ t) = char_of n # unquote t"
    using getu4_escape [OF assms, of t] assms unfolding u by (simp add: utf8_encode_def)
  show "scan_str (escape_u n @ t) = map_option (\<lambda>(u, r). (escape_u n @ u, r)) (scan_str t)"
    using hex_digit [of "n div 16"] hex_digit [of "n mod 16"] zero_hex assms
    by (cases "scan_str t") (auto simp: escape_u_def)
qed

lemma escape_byte_short:
  "escape_byte (CHR 0x08) = [backslash, CHR ''b'']" "escape_byte (CHR 0x0C) = [backslash, CHR ''f'']"
  "escape_byte (CHR 0x0A) = [backslash, CHR ''n'']" "escape_byte (CHR 0x0D) = [backslash, CHR ''r'']"
  "escape_byte (CHR 0x09) = [backslash, CHR ''t'']"
  by (simp_all add: escape_byte_def quote_def backslash_def)

lemma escape_byte_cases:
  obtains "c = quote \<or> c = backslash"
    | e where "c = escape_char e" "e \<in> set ''bfnrt''" "escape_byte c = [backslash, e]"
    | "escape_byte c = escape_u (byte c)" | "escape_byte c = [c]" "c \<noteq> quote" "c \<noteq> backslash" "\<not> byte c < 32"
proof (cases "c = quote \<or> c = backslash")
  case True
  then show thesis using that(1) by blast
next
  case other: False
  show thesis
  proof (cases "c \<in> {CHR 0x08, CHR 0x0C, CHR 0x0A, CHR 0x0D, CHR 0x09}")
    case True
    then consider "c = CHR 0x08" | "c = CHR 0x0C" | "c = CHR 0x0A" | "c = CHR 0x0D" | "c = CHR 0x09" by blast
    then show thesis
      using that(2) [of "CHR ''b''"] that(2) [of "CHR ''f''"] that(2) [of "CHR ''n''"] that(2) [of "CHR ''r''"] that(2) [of "CHR ''t''"]
      by cases (simp_all add: escape_byte_short escape_char_def)
  next
    case False
    with other have "escape_byte c = (if byte c < 32 \<or> c \<in> set ''<>&'' then escape_u (byte c) else [c])"
      by (simp only: escape_byte_def if_False simp_thms insert_iff empty_iff de_Morgan_disj)
    then have "escape_byte c = escape_u (byte c) \<or> escape_byte c = [c] \<and> \<not> byte c < 32" by argo
    then show thesis using that(3,4) other by blast
  qed
qed

text \<open>The escape of one ASCII character.\<close>

lemma escape_ascii:
  assumes "byte c < 128"
  shows "unquote (escape_byte c @ t) = c # unquote t"
    "scan_str (escape_byte c @ t) = map_option (\<lambda>(u, r). (escape_byte c @ u, r)) (scan_str t)"
proof -
  define ok where "ok p \<longleftrightarrow>
    unquote (p @ t) = c # unquote t \<and> scan_str (p @ t) = map_option (\<lambda>(u, r). (p @ u, r)) (scan_str t)" for p
  have hex: "ok (escape_u (byte c))" using escape_hex [OF assms, of t] by (simp add: ok_def)
  have short: "ok [backslash, e]" if "e \<in> set ''bfnrt'' \<or> e = quote \<or> e = backslash" "escape_char e = c" for e
    using escape_short [OF that(1), of t] that(2) by (simp add: ok_def)
  have plain: "ok [c]" if "c \<noteq> quote" "c \<noteq> backslash" "\<not> byte c < 32"
    using escape_plain [OF assms that, of t] by (simp add: ok_def)
  have same: "escape_char quote = quote" "escape_char backslash = backslash"
    by (simp_all add: escape_char_def quote_def backslash_def)
  consider "c = quote \<or> c = backslash"
    | e where "c = escape_char e" "e \<in> set ''bfnrt''" "escape_byte c = [backslash, e]"
    | "escape_byte c = escape_u (byte c)" | "escape_byte c = [c]" "c \<noteq> quote" "c \<noteq> backslash" "\<not> byte c < 32"
    by (rule escape_byte_cases)
  then have "ok (escape_byte c)"
  proof cases
    case 1
    then have "escape_byte c = [backslash, c]" by (simp add: escape_byte_def)
    then show ?thesis using short [of c] 1 same by auto
  next
    case (2 e)
    then show ?thesis using short [of e] by simp
  next
    case 3
    then show ?thesis using hex by simp
  next
    case 4
    then show ?thesis using plain by simp
  qed
  then show "unquote (escape_byte c @ t) = c # unquote t"
    "scan_str (escape_byte c @ t) = map_option (\<lambda>(u, r). (escape_byte c @ u, r)) (scan_str t)"
    by (simp_all only: ok_def)
qed

subsection \<open>Strings\<close>

lemma rune_bytes:
  "(char_of (239 :: nat) :: char) = CHR 0xEF" "(char_of (191 :: nat) :: char) = CHR 0xBF" "(char_of (189 :: nat) :: char) = CHR 0xBD"
  "(char_of (226 :: nat) :: char) = CHR 0xE2" "(char_of (128 :: nat) :: char) = CHR 0x80" "(char_of (168 :: nat) :: char) = CHR 0xA8"
  "(char_of (169 :: nat) :: char) = CHR 0xA9"
  by code_simp+

lemma escape_rune:
  "unquote (backslash # ''ufffd'' @ t) = replacement @ unquote t"
  "unquote (backslash # ''u2028'' @ t) = [CHR 0xE2, CHR 0x80, CHR 0xA8] @ unquote t"
  "unquote (backslash # ''u2029'' @ t) = [CHR 0xE2, CHR 0x80, CHR 0xA9] @ unquote t"
  by (simp_all add: getu4_def is_hex_def hex_val_def utf8_encode_def replacement_def rune_bytes)

lemma scan_rune:
  "scan_str (backslash # ''ufffd'' @ t) = map_option (\<lambda>(u, r). (backslash # ''ufffd'' @ u, r)) (scan_str t)"
  "scan_str (backslash # ''u2028'' @ t) = map_option (\<lambda>(u, r). (backslash # ''u2028'' @ u, r)) (scan_str t)"
  "scan_str (backslash # ''u2029'' @ t) = map_option (\<lambda>(u, r). (backslash # ''u2029'' @ u, r)) (scan_str t)"
  by (cases "scan_str t"; simp add: is_hex_def split: prod.split)+

lemma line_separator:
  assumes "has_prefix [CHR 0xE2, CHR 0x80, x] s" "x = CHR 0xA8 \<or> x = CHR 0xA9"
  shows "utf8_size s = 3" "take 3 s = [CHR 0xE2, CHR 0x80, x]"
proof -
  from assms(1) obtain r where "s = CHR 0xE2 # CHR 0x80 # x # r"
    by (cases s; cases "tl s"; cases "tl (tl s)") (auto simp: has_prefix_def)
  with assms(2) show "utf8_size s = 3" "take 3 s = [CHR 0xE2, CHR 0x80, x]" by (auto simp: utf8_size_def)
qed

text \<open>
  The contents of a literal: what the encoder writes for \<open>s\<close> is read as \<open>s\<close> with invalid bytes
  replaced, and the scanner goes over it to whatever follows.
\<close>

lemma escape_string_read:
  "unquote (escape_string s @ t) = coerce_utf8 s @ unquote t \<and>
   scan_str (escape_string s @ t) = map_option (\<lambda>(u, r). (escape_string s @ u, r)) (scan_str t)"
proof (induction s rule: escape_string.induct)
  case 1
  show ?case by (cases "scan_str t") auto
next
  case (2 c cs)
  let ?s = "c # cs"
  let ?k = "utf8_size ?s"
  define ok where "ok p u v \<longleftrightarrow> unquote (p @ t) = u @ unquote t \<and>
    scan_str (p @ t) = map_option (\<lambda>(u, r). (p @ u, r)) (scan_str t) \<and> v = u" for p u v :: string
  have glue: "ok (p @ escape_string x) (u @ coerce_utf8 x) v"
    if "unquote (escape_string x @ t) = coerce_utf8 x @ unquote t \<and>
        scan_str (escape_string x @ t) = map_option (\<lambda>(u, r). (escape_string x @ u, r)) (scan_str t)"
      and "\<And>y. unquote (p @ y) = u @ unquote y" "\<And>y. scan_str (p @ y) = map_option (\<lambda>(u, r). (p @ u, r)) (scan_str y)"
      and "v = u @ coerce_utf8 x" for p u v x
    using that by (cases "scan_str t") (auto simp: ok_def)
  have "ok (escape_string ?s) (coerce_utf8 ?s) (coerce_utf8 ?s)"
  proof (cases "byte c < 128")
    case True
    have "coerce_utf8 ?s = [c] @ coerce_utf8 cs" using True by (simp add: utf8_size_def)
    with glue [OF "2.IH"(1) [OF True], of "escape_byte c" "[c]"] escape_ascii [OF True] True show ?thesis by simp
  next
    case high: False
    show ?thesis
    proof (cases ?k)
      case 0
      then have "coerce_utf8 ?s = replacement @ coerce_utf8 cs" by simp
      with glue [OF "2.IH"(2) [OF high refl], of "backslash # ''ufffd''" replacement] escape_rune(1) scan_rune(1) high 0
      show ?thesis by simp
    next
      case (Suc k)
      have co: "coerce_utf8 ?s = take ?k ?s @ coerce_utf8 (drop (?k - 1) cs)" using Suc by simp
      have sep: "ok (escape_string ?s) (coerce_utf8 ?s) (coerce_utf8 ?s)"
        if "has_prefix [CHR 0xE2, CHR 0x80, x] ?s" "x = CHR 0xA8 \<or> x = CHR 0xA9"
          and "escape_string ?s = p @ escape_string (drop 2 cs)"
          and "\<And>y. unquote (p @ y) = [CHR 0xE2, CHR 0x80, x] @ unquote y"
          and "\<And>y. scan_str (p @ y) = map_option (\<lambda>(u, r). (p @ u, r)) (scan_str y)"
          and "unquote (escape_string (drop 2 cs) @ t) = coerce_utf8 (drop 2 cs) @ unquote t \<and>
            scan_str (escape_string (drop 2 cs) @ t) = map_option (\<lambda>(u, r). (escape_string (drop 2 cs) @ u, r)) (scan_str t)"
        for x p
      proof -
        have "coerce_utf8 ?s = [CHR 0xE2, CHR 0x80, x] @ coerce_utf8 (drop 2 cs)"
          unfolding co using line_separator [OF that(1,2)] by (simp add: numeral_2_eq_2 numeral_3_eq_3)
        with glue [OF that(6,4,5)] that(3) show ?thesis by simp
      qed
      show ?thesis
      proof (cases "has_prefix [CHR 0xE2, CHR 0x80, CHR 0xA8] ?s \<or> has_prefix [CHR 0xE2, CHR 0x80, CHR 0xA9] ?s")
        case True
        show ?thesis
        proof (cases "has_prefix [CHR 0xE2, CHR 0x80, CHR 0xA8] ?s")
          case p: True
          with sep [OF p, of "backslash # ''u2028''"] "2.IH"(3) [OF high refl] escape_rune(2) scan_rune(2) high Suc
          show ?thesis by simp
        next
          case p: False
          with True have q: "has_prefix [CHR 0xE2, CHR 0x80, CHR 0xA9] ?s" by simp
          with p sep [OF q, of "backslash # ''u2029''"] "2.IH"(4) [OF high refl] escape_rune(3) scan_rune(3) high Suc
          show ?thesis by simp
        qed
      next
        case False
        have e: "escape_string ?s = take ?k ?s @ escape_string (drop (?k - 1) cs)" using False high Suc by simp
        have IH: "unquote (escape_string (drop (?k - 1) cs) @ t) = coerce_utf8 (drop (?k - 1) cs) @ unquote t \<and>
            scan_str (escape_string (drop (?k - 1) cs) @ t) = map_option (\<lambda>(u, r). (escape_string (drop (?k - 1) cs) @ u, r)) (scan_str t)"
          using "2.IH"(5) [OF high refl] False Suc by simp
        have hd: "128 \<le> byte (hd ?s)" using high by simp
        have bytes: "\<forall>c \<in> set (take ?k ?s). 128 \<le> byte c" using utf8_size_prefix [OF Suc, of "[]"] hd Suc by simp
        have u: "unquote (take ?k ?s @ y) = take ?k ?s @ unquote y" for y
          using unquote_sequence [OF Suc hd, of y] unfolding Suc .
        show ?thesis unfolding e co by (rule glue [OF IH u scan_sequence [OF bytes] refl])
      qed
    qed
  qed
  then show ?case by (simp add: ok_def)
qed

subsection \<open>Values\<close>

lemma consumed_self [simp]: "consumed (p @ r) r = p"
  by (simp add: consumed_def)

lemma scan_quoted: "scan_str (escape_string s @ quote # r) = Some (escape_string s, r)"
  using escape_string_read [of s "quote # r"] by simp

lemma unquote_quoted: "unquote (escape_string s) = coerce_utf8 s"
  using escape_string_read [of s "[]"] by simp

lemma pval_quote: "pval (Suc n) d (json_quote s @ r) = Some (JStr (coerce_utf8 s) (json_quote s), r)"
proof -
  have "json_quote s @ r = quote # escape_string s @ quote # r" by (simp add: json_quote_def)
  moreover have "consumed (quote # escape_string s @ quote # r) r = json_quote s"
    using consumed_self [of "json_quote s" r] by (simp add: json_quote_def)
  ultimately show ?thesis by (simp add: scan_quoted unquote_quoted)
qed

text \<open>Numbers: \<open>r\<close> is what follows.\<close>

definition ends_number :: "string \<Rightarrow> bool" where
  "ends_number r \<longleftrightarrow> (case r of [] \<Rightarrow> True | c # cs \<Rightarrow> c \<in> set '',]}'')"

lemma digit_zero: "digit 0 = CHR ''0''"
  by code_simp

lemma digit_byte: "n < 10 \<Longrightarrow> byte (digit n) = 48 + n"
  by (simp add: digit_def)

lemma show_nat_digits: "list_all is_digit (show_nat n) \<and> show_nat n \<noteq> []"
proof (induction n rule: show_nat.induct)
  case (1 n)
  have d: "is_digit (digit m)" if "m < 10" for m using digit_byte [OF that] that by (simp add: is_digit_def Let_def)
  show ?case using 1 d [of n] d [of "n mod 10"] by (simp add: show_nat.simps [of n])
qed

lemma show_nat_head: "0 < n \<Longrightarrow> hd (show_nat n) \<noteq> CHR ''0''"
proof (induction n rule: show_nat.induct)
  case (1 n)
  have d: "digit m \<noteq> CHR ''0''" if "m < 10" "0 < m" for m
  proof
    assume "digit m = CHR ''0''"
    then have "byte (digit m) = 48" by simp
    with digit_byte [OF that(1)] that(2) show False by simp
  qed
  show ?case
  proof (cases "n < 10")
    case True
    with 1 d show ?thesis by (subst show_nat.simps) simp
  next
    case False
    with "1.IH" [OF False] show_nat_digits [of "n div 10"] show ?thesis by (subst show_nat.simps) (simp add: hd_append)
  qed
qed

lemma scan_show_nat:
  assumes "ends_number r"
  shows "scan_unsigned (show_nat n @ r) = Some (show_nat n, r)"
proof -
  have r: "takeWhile is_digit r = [] \<and> dropWhile is_digit r = r \<and> scan_frac r = Some ([], r) \<and> scan_exp r = Some ([], r)"
    using assms by (cases r) (auto simp: ends_number_def is_digit_def scan_frac_def scan_exp_def Let_def)
  have d: "\<forall>c \<in> set (show_nat n). is_digit c" "show_nat n \<noteq> []" using show_nat_digits [of n] by (simp_all add: list_all_iff)
  have "scan_int (show_nat n @ r) = Some (show_nat n, r)"
  proof (cases "n = 0")
    case True
    then show ?thesis by (simp add: show_nat.simps [of 0] digit_zero scan_int_def)
  next
    case False
    then have "hd (show_nat n) \<noteq> CHR ''0''" by (simp add: show_nat_head)
    then have "scan_int (show_nat n @ r) = scan_digits (show_nat n @ r)"
      using d(2) by (cases "show_nat n") (simp_all add: scan_int_def)
    also have "\<dots> = Some (show_nat n, r)"
    proof -
      have "takeWhile is_digit (show_nat n @ r) = show_nat n" "dropWhile is_digit (show_nat n @ r) = r"
        using d(1) r by (simp_all add: takeWhile_append dropWhile_append)
      then show ?thesis using d(2) by (simp only: scan_digits_def split: list.split) simp
    qed
    finally show ?thesis .
  qed
  then show ?thesis using r by (simp add: scan_unsigned_def)
qed

lemma scan_show_int: "ends_number r \<Longrightarrow> scan_num (show_int i @ r) = Some (show_int i, r)"
proof (cases "i < 0")
  case True
  assume "ends_number r"
  from scan_show_nat [OF this] True show ?thesis by (simp add: scan_num_def show_int_def)
next
  case False
  assume "ends_number r"
  note s = scan_show_nat [OF this, of "nat i"]
  obtain c cs where c: "show_nat (nat i) = c # cs" "is_digit c"
    using show_nat_digits [of "nat i"] by (cases "show_nat (nat i)") auto
  then have "c \<noteq> CHR ''-''" by (auto simp: is_digit_def Let_def)
  with s c(1) False show ?thesis by (simp add: scan_num_def show_int_def)
qed

lemma show_int_head: "\<exists>c cs. show_int i = c # cs \<and> (c = CHR ''-'' \<or> is_digit c)"
  using show_nat_digits [of "nat i"] by (cases "show_nat (nat i)") (auto simp: show_int_def)

lemma pval_int:
  assumes "ends_number r"
  shows "pval (Suc n) d (show_int i @ r) = Some (JNum (show_int i), r)"
proof -
  obtain c cs where c: "show_int i = c # cs" "c = CHR ''-'' \<or> is_digit c" using show_int_head by blast
  then have ne: "c \<noteq> quote" "c \<noteq> CHR ''{''" "c \<noteq> CHR ''[''" "c \<noteq> CHR ''t''" "c \<noteq> CHR ''f''" "c \<noteq> CHR ''n''"
    by (auto simp: is_digit_def quote_def Let_def)
  then show ?thesis using scan_show_int [OF assms, of i] by (simp add: c(1) has_prefix_def)
qed

lemma pval_null_text: "pval (Suc n) d (''null'' @ r) = Some (JNull, r)"
  by (simp add: quote_def has_prefix_def)

subsection \<open>Objects\<close>

lemma skip_ws_head: "c \<notin> {CHR 0x20, CHR 0x09, CHR 0x0D, CHR 0x0A} \<Longrightarrow> skip_ws (c # s) = c # s"
  by (simp add: skip_ws_def is_ws_def)

lemma skip_ws_quote: "skip_ws (json_quote k @ r) = json_quote k @ r"
  by (simp add: json_quote_def skip_ws_def is_ws_def quote_def)

text \<open>One member, and those that follow.\<close>

lemma pmems_member:
  assumes "pval n d (skip_ws (x @ c # r)) = Some (v, c # r)" "c = CHR '','' \<or> c = CHR ''}''"
  shows "pmems (Suc n) d (json_quote k @ CHR '':'' # x @ c # r) =
    (if c = CHR '','' then map_option (\<lambda>(ms, r'). ((coerce_utf8 k, v) # ms, r')) (pmems n d (skip_ws r))
     else Some ([(coerce_utf8 k, v)], r))"
proof -
  have "json_quote k @ CHR '':'' # x @ c # r = quote # escape_string k @ quote # CHR '':'' # x @ c # r"
    by (simp add: json_quote_def)
  moreover have "scan_str (escape_string k @ quote # CHR '':'' # x @ c # r) = Some (escape_string k, CHR '':'' # x @ c # r)"
    by (rule scan_quoted)
  moreover have "skip_ws (CHR '':'' # x @ c # r) = CHR '':'' # x @ c # r" "skip_ws (c # r) = c # r"
    using assms(2) by (auto simp: skip_ws_head)
  ultimately show ?thesis using assms by (auto simp: unquote_quoted)
qed

lemma pval_object:
  assumes "pmems n (Suc d) (json_quote k @ r) = Some (ms, r')" "d < max_depth"
  shows "\<exists>text. pval (Suc n) d (CHR ''{'' # json_quote k @ r) = Some (JObj ms text, r')"
proof -
  have "skip_ws (json_quote k @ r) = quote # escape_string k @ quote # r"
    using skip_ws_quote [of k r] by (simp add: json_quote_def)
  with assms show ?thesis by (simp add: json_quote_def quote_def)
qed

declare pval.simps [simp del] pelems.simps [simp del] pmems.simps [simp del] coerce_utf8.simps [simp del]

subsection \<open>Error replies\<close>

text \<open>The text of an error reply, put together from its literals.\<close>

lemma error_body_parts:
  "error_body code msg =
     (CHR ''{'' # json_quote ''error'' @ CHR '':'' #
       (CHR ''{'' # json_quote ''code'' @ CHR '':'' # show_int code @ CHR '','' #
         json_quote ''message'' @ CHR '':'' # json_quote msg @ [CHR ''}'']) @ CHR '','' #
       json_quote ''id'' @ CHR '':'' # ''null'' @ CHR '','' #
       json_quote ''jsonrpc'' @ CHR '':'' # json_quote ''2.0'' @ [CHR ''}'']) @ [CHR 0x0A]"
proof -
  have lits: "json_quote ''error'' = dq ''`error`''" "json_quote ''code'' = dq ''`code`''" "json_quote ''message'' = dq ''`message`''"
    "json_quote ''id'' = dq ''`id`''" "json_quote ''jsonrpc'' = dq ''`jsonrpc`''" "json_quote ''2.0'' = dq ''`2.0`''"
    by code_simp+
  show ?thesis unfolding lits by (simp add: error_body_def dq_def)
qed

definition error_value :: "int \<Rightarrow> string \<Rightarrow> string \<Rightarrow> string \<Rightarrow> jval" where
  "error_value code msg inner outer =
     JObj [(''error'', JObj [(''code'', JNum (show_int code)), (''message'', JStr (coerce_utf8 msg) (json_quote msg))] inner),
           (''id'', JNull), (''jsonrpc'', JStr ''2.0'' (json_quote ''2.0''))] outer"

lemma ascii_names [simp]:
  "coerce_utf8 ''error'' = ''error''" "coerce_utf8 ''code'' = ''code''" "coerce_utf8 ''message'' = ''message''"
  "coerce_utf8 ''id'' = ''id''" "coerce_utf8 ''jsonrpc'' = ''jsonrpc''" "coerce_utf8 ''2.0'' = ''2.0''"
  by (rule coerce_ascii, code_simp)+

lemma pval_error_object:
  "\<exists>inner. pval (Suc (Suc (Suc (Suc n)))) 1 (CHR ''{'' # json_quote ''code'' @ CHR '':'' # show_int code @ CHR '','' #
       json_quote ''message'' @ CHR '':'' # json_quote msg @ CHR ''}'' # r) =
     Some (JObj [(''code'', JNum (show_int code)), (''message'', JStr (coerce_utf8 msg) (json_quote msg))] inner, r)"
proof -
  let ?msg = "json_quote ''message'' @ CHR '':'' # json_quote msg @ CHR ''}'' # r"
  have m: "pmems (Suc (Suc n)) 2 ?msg = Some ([(''message'', JStr (coerce_utf8 msg) (json_quote msg))], r)"
    using pmems_member [of "Suc n" 2 "json_quote msg" "CHR ''}''" r _ "''message''"] pval_quote [of n 2 msg "CHR ''}'' # r"]
    by (simp add: skip_ws_quote)
  obtain c cs where c: "show_int code = c # cs" "c = CHR ''-'' \<or> is_digit c" using show_int_head by blast
  then have "skip_ws (show_int code @ CHR '','' # ?msg) = show_int code @ CHR '','' # ?msg"
    by (auto simp: skip_ws_def is_ws_def is_digit_def Let_def)
  moreover have "ends_number (CHR '','' # ?msg)" by (simp add: ends_number_def)
  ultimately have "pmems (Suc (Suc (Suc n))) 2 (json_quote ''code'' @ CHR '':'' # show_int code @ CHR '','' # ?msg) =
      Some ([(''code'', JNum (show_int code)), (''message'', JStr (coerce_utf8 msg) (json_quote msg))], r)"
    using pmems_member [of "Suc (Suc n)" 2 "show_int code" "CHR '',''" ?msg "JNum (show_int code)" "''code''"]
      pval_int [of "CHR '','' # ?msg" "Suc n" 2 code] m by (simp add: skip_ws_quote)
  from pval_object [of "Suc (Suc (Suc n))" 1, unfolded Suc_1 One_nat_def [symmetric], OF this]
  show ?thesis by (simp add: max_depth_def)
qed

text \<open>The reply without its newline.\<close>

definition error_text :: "int \<Rightarrow> string \<Rightarrow> string" where
  "error_text code msg = butlast (error_body code msg)"

lemma pval_error_text:
  "\<exists>inner outer. pval (Suc (Suc (Suc (Suc (Suc (Suc n)))))) 0 (error_text code msg @ r) = Some (error_value code msg inner outer, r)"
proof -
  let ?inner = "CHR ''{'' # json_quote ''code'' @ CHR '':'' # show_int code @ CHR '','' #
    json_quote ''message'' @ CHR '':'' # json_quote msg @ [CHR ''}'']"
  let ?jsonrpc = "json_quote ''jsonrpc'' @ CHR '':'' # json_quote ''2.0'' @ CHR ''}'' # r"
  let ?id = "json_quote ''id'' @ CHR '':'' # ''null'' @ CHR '','' # ?jsonrpc"
  have t: "error_text code msg @ r = CHR ''{'' # json_quote ''error'' @ CHR '':'' # ?inner @ CHR '','' # ?id"
    unfolding error_text_def error_body_parts by (simp add: butlast_append)
  obtain inner where i: "pval (Suc (Suc (Suc (Suc n)))) 1 (?inner @ CHR '','' # ?id) =
      Some (JObj [(''code'', JNum (show_int code)), (''message'', JStr (coerce_utf8 msg) (json_quote msg))] inner, CHR '','' # ?id)"
    using pval_error_object [of n code msg "CHR '','' # ?id"] by auto
  have sk: "skip_ws (''null'' @ x) = ''null'' @ x" "skip_ws (CHR ''{'' # x) = CHR ''{'' # x" for x
    by (simp_all add: skip_ws_def is_ws_def)
  have j: "pmems (Suc (Suc (Suc n))) 1 ?jsonrpc = Some ([(''jsonrpc'', JStr ''2.0'' (json_quote ''2.0''))], r)"
    using pmems_member [of "Suc (Suc n)" 1 "json_quote ''2.0''" "CHR ''}''" r _ "''jsonrpc''"]
      pval_quote [of "Suc n" 1 "''2.0''" "CHR ''}'' # r"] by (simp add: skip_ws_quote)
  have d: "pmems (Suc (Suc (Suc (Suc n)))) 1 ?id = Some ([(''id'', JNull), (''jsonrpc'', JStr ''2.0'' (json_quote ''2.0''))], r)"
    using pmems_member [of "Suc (Suc (Suc n))" 1 "''null''" "CHR '',''" ?jsonrpc JNull "''id''"]
      pval_null_text [of "Suc (Suc n)" 1 "CHR '','' # ?jsonrpc"] j
    by (simp add: sk [simplified] skip_ws_quote)
  have e: "pmems (Suc (Suc (Suc (Suc (Suc n))))) 1 (json_quote ''error'' @ CHR '':'' # ?inner @ CHR '','' # ?id) =
      Some ([(''error'', JObj [(''code'', JNum (show_int code)), (''message'', JStr (coerce_utf8 msg) (json_quote msg))] inner),
        (''id'', JNull), (''jsonrpc'', JStr ''2.0'' (json_quote ''2.0''))], r)"
    using pmems_member [of "Suc (Suc (Suc (Suc n)))" 1 ?inner "CHR '',''" ?id _ "''error''"] i d
    by (simp add: sk [simplified] skip_ws_quote)
  from pval_object [of "Suc (Suc (Suc (Suc (Suc n))))" 0, unfolded One_nat_def [symmetric], OF e]
  show ?thesis unfolding t error_value_def by (rule exI [of _ inner]) (simp add: max_depth_def)
qed

lemma error_body_text: "error_body code msg = error_text code msg @ [CHR 0x0A]"
  unfolding error_text_def error_body_parts by (simp add: butlast_append)

lemma error_text_ends: "\<exists>t. error_text code msg = CHR ''{'' # t @ [CHR ''}'']"
  unfolding error_text_def error_body_parts
  by (rule exI [of _ "json_quote ''error'' @ CHR '':'' # CHR ''{'' # json_quote ''code'' @ CHR '':'' # show_int code @ CHR '','' #
    json_quote ''message'' @ CHR '':'' # json_quote msg @ CHR ''}'' # CHR '','' # json_quote ''id'' @ CHR '':'' # ''null'' @ CHR '','' #
    json_quote ''jsonrpc'' @ CHR '':'' # json_quote ''2.0''"]) (simp add: butlast_append)

lemma parse_error_text:
  assumes "s = error_text code msg @ r" "skip_ws r = []"
  shows "\<exists>inner outer. parse_json s = Some (error_value code msg inner outer)"
proof -
  obtain t where t: "error_text code msg = CHR ''{'' # t @ [CHR ''}'']" using error_text_ends by blast
  then have sk: "skip_ws s = s" by (simp add: assms(1) skip_ws_def is_ws_def)
  let ?n = "2 * length s"
  obtain inner outer where "pval (Suc (Suc (Suc (Suc (Suc (Suc ?n)))))) 0 s = Some (error_value code msg inner outer, r)"
    unfolding assms(1) using pval_error_text by blast
  then have "parse_json s = Some (error_value code msg inner outer)"
    by (subst parse_json_fuel [of _ "Suc (Suc (Suc (Suc (Suc (Suc ?n)))))"]) (simp_all add: sk assms(2))
  then show ?thesis by blast
qed

lemma strip_braces [simp]:
  "strip space_runes (CHR ''{'' # x) = CHR ''{'' # x" "strip (map rev space_runes) (CHR ''}'' # x) = CHR ''}'' # x"
  by (subst strip.simps, simp add: space_runes_def has_prefix_def)+

lemma trim_error_body: "trim_space (error_body code msg) = error_text code msg"
proof -
  obtain t where t: "error_text code msg = CHR ''{'' # t @ [CHR ''}'']" using error_text_ends by blast
  have nl: "strip (map rev space_runes) (CHR 0x0A # CHR ''}'' # x) = strip (map rev space_runes) (CHR ''}'' # x)" for x
    by (subst strip.simps) (simp add: space_runes_def has_prefix_def)
  show ?thesis by (simp add: trim_space_def error_body_text t nl)
qed

text \<open>
  C26: error replies round trip. The body that \<open>writeErr\<close> and \<open>writeJSONError\<close> send is, for every code and
  every message, whatever bytes the message contains, one JSON text; a client that parses it
  gets back exactly that code and that message (with invalid UTF-8 replaced by U+FFFD), the id
  \<open>null\<close> and the version; and \<open>CountResults\<close> counts it as one error and no success, so that no error of
  a gateway is ever billed by another one in front of it.
\<close>

theorem error_reply_roundtrip:
  "(\<exists>inner outer. parse_json (error_body code msg) = Some (error_value code msg inner outer)) \<and>
   CountResults (error_body code msg) = (0, 1)"
proof -
  have nl: "skip_ws [CHR 0x0A] = []" "skip_ws [] = []" by (simp_all add: skip_ws_def is_ws_def)
  obtain inner outer where v: "parse_json (error_text code msg) = Some (error_value code msg inner outer)"
    using parse_error_text [of _ code msg "[]"] nl by auto
  have names: "is_field ''error'' ''error''" "\<not> is_field ''error'' ''id''" "is_field ''id'' ''id''"
    "\<not> is_field ''error'' ''jsonrpc''" "\<not> is_field ''id'' ''jsonrpc''"
    by code_simp+
  obtain t where t: "error_text code msg = CHR ''{'' # t @ [CHR ''}'']" using error_text_ends by blast
  have "unmarshal dec_response (error_text code msg) \<noteq> None \<and>
      (\<forall>x. unmarshal dec_response (error_text code msg) = Some x \<longrightarrow> rs_Error x \<noteq> None)"
    by (simp add: unmarshal_def v dec_response_def error_value_def assign_response_def names)
  then have "CountResults (error_body code msg) = (0, 1)"
    by (auto simp: CountResults_def trim_error_body t split: option.split)
  with parse_error_text [OF error_body_text nl(1)] show ?thesis by blast
qed

subsection \<open>Two spellings of one key\<close>

text \<open>A request with a member \<open>method\<close> and a member \<open>METHOD\<close>.\<close>

definition two_faced :: "string \<Rightarrow> string \<Rightarrow> string" where
  "two_faced m m' =
     CHR ''{'' # json_quote ''method'' @ CHR '':'' # json_quote m @ CHR '','' #
       json_quote ''METHOD'' @ CHR '':'' # json_quote m' @ [CHR ''}'']"

lemma coerce_Nil_iff: "coerce_utf8 s = [] \<longleftrightarrow> s = []"
  by (cases s) (simp_all add: coerce_utf8.simps replacement_def Let_def)

lemma parse_two_faced:
  "\<exists>text. parse_json (two_faced m m') =
     Some (JObj [(''method'', JStr (coerce_utf8 m) (json_quote m)), (''METHOD'', JStr (coerce_utf8 m') (json_quote m'))] text)"
proof -
  let ?s = "two_faced m m'"
  let ?n = "2 * length ?s"
  have names: "coerce_utf8 ''method'' = ''method''" "coerce_utf8 ''METHOD'' = ''METHOD''"
    by (rule coerce_ascii, code_simp)+
  let ?second = "json_quote ''METHOD'' @ CHR '':'' # json_quote m' @ [CHR ''}'']"
  have 2: "pmems (Suc (Suc ?n)) 1 ?second = Some ([(''METHOD'', JStr (coerce_utf8 m') (json_quote m'))], [])"
    using pmems_member [of "Suc ?n" 1 "json_quote m'" "CHR ''}''" "[]" _ "''METHOD''"] pval_quote [of ?n 1 m' "[CHR ''}'']"]
    by (simp add: skip_ws_quote names)
  have 1: "pmems (Suc (Suc (Suc ?n))) 1 (json_quote ''method'' @ CHR '':'' # json_quote m @ CHR '','' # ?second) =
      Some ([(''method'', JStr (coerce_utf8 m) (json_quote m)), (''METHOD'', JStr (coerce_utf8 m') (json_quote m'))], [])"
    using pmems_member [of "Suc (Suc ?n)" 1 "json_quote m" "CHR '',''" ?second _ "''method''"]
      pval_quote [of "Suc ?n" 1 m "CHR '','' # ?second"] 2 by (simp add: skip_ws_quote names)
  obtain src where v: "pval (Suc (Suc (Suc (Suc ?n)))) 0 ?s =
      Some (JObj [(''method'', JStr (coerce_utf8 m) (json_quote m)), (''METHOD'', JStr (coerce_utf8 m') (json_quote m'))] src, [])"
    using pval_object [of "Suc (Suc (Suc ?n))" 0, unfolded One_nat_def [symmetric], OF 1]
    by (auto simp: two_faced_def max_depth_def)
  have sk: "skip_ws ?s = ?s" "skip_ws [] = []" by (simp_all add: two_faced_def skip_ws_def is_ws_def)
  have "parse_json ?s = Some (JObj [(''method'', JStr (coerce_utf8 m) (json_quote m)), (''METHOD'', JStr (coerce_utf8 m') (json_quote m'))] src)"
    by (subst parse_json_fuel [of _ "Suc (Suc (Suc (Suc ?n)))"]) (simp_all add: sk v)
  then show ?thesis by blast
qed

lemma trim_braces: "trim_space (CHR ''{'' # x @ [CHR ''}'']) = CHR ''{'' # x @ [CHR ''}'']"
  by (simp add: trim_space_def)

text \<open>
  C29: the method filter reads keys more loosely than JSON-RPC does. Go matches struct fields without
  regard to case and lets the last match win: in a request with both a member \<open>method\<close> and a later
  member \<open>METHOD\<close>, the filter sees only the second. For any denied method and any allowed one there
  is thus a body that passes the filter, and is forwarded as it is, although its only member named
  exactly \<open>method\<close>, the one a case-sensitive upstream obeys, names the denied method.
\<close>

theorem filter_reads_last_variant:
  assumes "m' \<noteq> []" "coerce_utf8 m \<in> tok_DeniedMethods t" "coerce_utf8 m' \<notin> tok_DeniedMethods t"
  shows "ParseMethods jerr (two_faced m m') = Inr [coerce_utf8 m'] \<and> CheckMethods (Some t) [coerce_utf8 m'] = None \<and>
    (\<exists>ms text. parse_json (two_faced m m') = Some (JObj ms text) \<and>
       filter (\<lambda>(k, v). k = ''method'') ms = [(''method'', JStr (coerce_utf8 m) (json_quote m))])"
proof -
  obtain src where v: "parse_json (two_faced m m') =
     Some (JObj [(''method'', JStr (coerce_utf8 m) (json_quote m)), (''METHOD'', JStr (coerce_utf8 m') (json_quote m'))] src)"
    using parse_two_faced by blast
  have names: "is_field ''method'' ''method''" "is_field ''method'' ''METHOD''" by code_simp+
  obtain x where x: "two_faced m m' = CHR ''{'' # x @ [CHR ''}'']" unfolding two_faced_def by fastforce
  then have tr: "trim_space (two_faced m m') = two_faced m m'" by (simp add: trim_braces)
  have start: "two_faced m m' \<noteq> []" "hd (two_faced m m') = CHR ''{''" by (simp_all add: x)
  have "unmarshal dec_request (two_faced m m') = Some \<lparr>rq_Method = coerce_utf8 m', rq_ID = []\<rparr>"
    by (simp add: unmarshal_def v dec_request_def assign_request_def names)
  then have "ParseMethods jerr (two_faced m m') = Inr [coerce_utf8 m']"
    using assms(1) by (simp add: ParseMethods_def tr start Let_def coerce_Nil_iff)
  then show ?thesis using v assms(3) by (simp add: CheckMethods_def)
qed

theorem filter_reads_last_variant_witness:
  "ParseMethods id (two_faced ''debug_traceCall'' ''eth_chainId'') = Inr [''eth_chainId''] \<and>
   CheckMethods (Some (sample_token\<lparr>tok_DeniedMethods := {''debug_traceCall''}\<rparr>)) [''eth_chainId''] = None"
proof -
  have c: "coerce_utf8 ''debug_traceCall'' = ''debug_traceCall''" "coerce_utf8 ''eth_chainId'' = ''eth_chainId''"
    by (rule coerce_ascii, code_simp)+
  show ?thesis
    using filter_reads_last_variant [of "''eth_chainId''" "''debug_traceCall''" "sample_token\<lparr>tok_DeniedMethods := {''debug_traceCall''}\<rparr>" id]
    by (simp add: c)
qed

end
