(* ===== verification/Connections.thy ===== *)
theory Connections
  imports Config
begin

section \<open>Connections to Redis and PostgreSQL: \<open>internal/store\<close> and \<open>internal/db\<close>\<close>

text \<open>
  Opening and closing the two connections. The client libraries are records of the calls the code
  makes; a client is a value of a type parameter, the Redis client together with the service behind
  it. Each function also returns the connections it opened and closed, in order, so that leaks can be
  stated. A context's deadline is one of the errors that a call may give.
\<close>

datatype 'c conn_call = Opened 'c | Closed 'c

text \<open>The connections that a sequence of calls leaves open.\<close>

fun still_open :: "'c conn_call list \<Rightarrow> 'c list \<Rightarrow> 'c list" where
  "still_open [] cs = cs"
| "still_open (Opened c # xs) cs = still_open xs (c # cs)"
| "still_open (Closed c # xs) cs = still_open xs (remove1 c cs)"

lemma still_open_append [simp]: "still_open (xs @ ys) cs = still_open ys (still_open xs cs)"
  by (induction xs cs rule: still_open.induct) simp_all

subsection \<open>Redis\<close>

record redis_options =
  ro_Addr :: string
  ro_Password :: string
  ro_DB :: int

record 'r redis_lib =
  rlib_NewClient :: "redis_options \<Rightarrow> 'r"
  rlib_Ping :: "'r \<Rightarrow> string option"

record 'r redis =
  rs_Client :: "'r option"

definition NewRedis :: "'r redis_lib \<Rightarrow> redis_config \<Rightarrow> (string + 'r redis) \<times> 'r conn_call list" where
  "NewRedis lib cfg =
     (if \<not> rd_Enabled cfg then (Inr \<lparr>rs_Client = None\<rparr>, [])
      else
        let client = rlib_NewClient lib
              \<lparr>ro_Addr = rd_Addr cfg, ro_Password = rd_Password cfg, ro_DB = rd_DB cfg\<rparr>
        in case rlib_Ping lib client of
             Some err \<Rightarrow> (Inr \<lparr>rs_Client = None\<rparr>, [Opened client, Closed client])
           | None \<Rightarrow> (Inr \<lparr>rs_Client = Some client\<rparr>, [Opened client]))"

text \<open>The receiver may be a nil pointer.\<close>

definition Available :: "'r redis option \<Rightarrow> bool" where
  "Available r = (case r of None \<Rightarrow> False | Some r \<Rightarrow> rs_Client r \<noteq> None)"

definition redis_Close :: "'r redis option \<Rightarrow> 'r conn_call list" where
  "redis_Close r =
     (case r of
        None \<Rightarrow> []
      | Some r \<Rightarrow> (case rs_Client r of None \<Rightarrow> [] | Some client \<Rightarrow> [Closed client]))"

subsection \<open>PostgreSQL\<close>

text \<open>\<open>pc_other\<close> is what else the library's parser finds in the DSN.\<close>

record 'x pool_config =
  pc_MaxConns :: int
  pc_MinConns :: int
  pc_other :: 'x

record ('x, 'p) pgx_lib =
  pgx_ParseConfig :: "string \<Rightarrow> string + 'x pool_config"
  pgx_NewWithConfig :: "'x pool_config \<Rightarrow> string + 'p"
  pgx_Ping :: "'p \<Rightarrow> string option"

record 'p postgres =
  pgs_Pool :: "'p option"

definition pool_settings :: "database_config \<Rightarrow> 'x pool_config \<Rightarrow> 'x pool_config" where
  "pool_settings cfg poolCfg =
     (let poolCfg = (if db_MaxConns cfg > 0 then poolCfg\<lparr>pc_MaxConns := wrap32 (db_MaxConns cfg)\<rparr> else poolCfg)
      in if db_MinConns cfg > 0 then poolCfg\<lparr>pc_MinConns := wrap32 (db_MinConns cfg)\<rparr> else poolCfg)"

definition Connect ::
  "('x, 'p) pgx_lib \<Rightarrow> database_config \<Rightarrow> (string + 'p postgres option) \<times> 'p conn_call list" where
  "Connect lib cfg =
     (if \<not> db_Enabled cfg then (Inr None, [])
      else if db_DSN cfg = [] then (Inl ''database.dsn is required when database.enabled=true'', [])
      else
        (case pgx_ParseConfig lib (db_DSN cfg) of
           Inl err \<Rightarrow> (Inl (''parse database dsn: '' @ err), [])
         | Inr poolCfg \<Rightarrow>
             (case pgx_NewWithConfig lib (pool_settings cfg poolCfg) of
                Inl err \<Rightarrow> (Inl (''connect database: '' @ err), [])
              | Inr pool \<Rightarrow>
                  (case pgx_Ping lib pool of
                     Some err \<Rightarrow> (Inl (''ping database: '' @ err), [Opened pool, Closed pool])
                   | None \<Rightarrow> (Inr (Some \<lparr>pgs_Pool = Some pool\<rparr>), [Opened pool])))))"

definition postgres_Close :: "'p postgres option \<Rightarrow> 'p conn_call list" where
  "postgres_Close p =
     (case p of
        None \<Rightarrow> []
      | Some p \<Rightarrow> (case pgs_Pool p of None \<Rightarrow> [] | Some pool \<Rightarrow> [Closed pool]))"

subsection \<open>What they leave open\<close>

text \<open>Redis is optional: an unreachable server is no error, and the client is closed again.\<close>

lemma NewRedis_cases:
  obtains (none) calls where "NewRedis lib cfg = (Inr \<lparr>rs_Client = None\<rparr>, calls)" "\<And>cs. still_open calls cs = cs"
      "rd_Enabled cfg \<Longrightarrow> rlib_Ping lib (rlib_NewClient lib
         \<lparr>ro_Addr = rd_Addr cfg, ro_Password = rd_Password cfg, ro_DB = rd_DB cfg\<rparr>) \<noteq> None"
  | (client) c where "NewRedis lib cfg = (Inr \<lparr>rs_Client = Some c\<rparr>, [Opened c])" "rd_Enabled cfg" "rlib_Ping lib c = None"
  by (cases "rd_Enabled cfg"; cases "rlib_Ping lib (rlib_NewClient lib
      \<lparr>ro_Addr = rd_Addr cfg, ro_Password = rd_Password cfg, ro_DB = rd_DB cfg\<rparr>)")
    (auto simp: NewRedis_def Let_def)

lemma Connect_cases:
  obtains (disabled) "\<not> db_Enabled cfg" "Connect lib cfg = (Inr None, [])"
  | (failed) e calls where "db_Enabled cfg" "Connect lib cfg = (Inl e, calls)" "\<And>cs. still_open calls cs = cs"
  | (pool) pc p where "db_Enabled cfg" "db_DSN cfg \<noteq> []" "pgx_ParseConfig lib (db_DSN cfg) = Inr pc"
      "pgx_NewWithConfig lib (pool_settings cfg pc) = Inr p" "pgx_Ping lib p = None"
      "Connect lib cfg = (Inr (Some \<lparr>pgs_Pool = Some p\<rparr>), [Opened p])"
proof (cases "db_Enabled cfg \<and> db_DSN cfg \<noteq> []")
  case True
  then show thesis
  proof (cases "pgx_ParseConfig lib (db_DSN cfg)")
    case (Inl e)
    with True show thesis by (intro failed) (auto simp: Connect_def)
  next
    case pc: (Inr pc)
    show thesis
    proof (cases "pgx_NewWithConfig lib (pool_settings cfg pc)")
      case (Inl e)
      with True pc show thesis by (intro failed) (auto simp: Connect_def)
    next
      case p: (Inr p)
      with True pc failed pool show thesis
        by (cases "pgx_Ping lib p") (auto simp: Connect_def)
    qed
  qed
next
  case False
  with disabled failed show thesis by (cases "db_Enabled cfg") (auto simp: Connect_def)
qed

end
