(* ===== verification/Loop.thy ===== *)
theory Loop
  imports Prelude
begin

section \<open>Loops that end by \<open>return\<close>\<close>

text \<open>
  The gateway's background loops have no bound of their own: \<open>for { ... }\<close> around a read or a
  \<open>select\<close>, left by \<open>return\<close>. \<open>run_loop\<close> is such a loop, its turns numbered; its value is
  \<open>None\<close> when it never returns. The loops of the program are instances of it, with
  everything that their goroutine waits for as a function of the number of the turn.
\<close>

subsection \<open>The loop\<close>

partial_function (option) run_loop :: "(nat \<Rightarrow> 's \<Rightarrow> bool \<times> 's) \<Rightarrow> nat \<Rightarrow> 's \<Rightarrow> 's option" where
  "run_loop turn i s =
     (if fst (turn i s) then run_loop turn (Suc i) (snd (turn i s)) else Some (snd (turn i s)))"

text \<open>The state after \<open>n\<close> turns, whether or not they go on.\<close>

fun turns :: "(nat \<Rightarrow> 's \<Rightarrow> bool \<times> 's) \<Rightarrow> nat \<Rightarrow> nat \<Rightarrow> 's \<Rightarrow> 's" where
  "turns turn i 0 s = s"
| "turns turn i (Suc n) s = turns turn (Suc i) n (snd (turn i s))"

text \<open>The loop goes on after each of its first \<open>n\<close> turns.\<close>

definition goes_on :: "(nat \<Rightarrow> 's \<Rightarrow> bool \<times> 's) \<Rightarrow> nat \<Rightarrow> nat \<Rightarrow> 's \<Rightarrow> bool" where
  "goes_on turn i n s \<longleftrightarrow> (\<forall>j < n. fst (turn (i + j) (turns turn i j s)))"

lemma goes_on_0 [simp]: "goes_on turn i 0 s"
  by (simp add: goes_on_def)

lemma goes_on_Suc: "goes_on turn i (Suc n) s \<longleftrightarrow> fst (turn i s) \<and> goes_on turn (Suc i) n (snd (turn i s))"
  by (auto simp: goes_on_def less_Suc_eq_0_disj)

lemma run_loop_ends:
  "goes_on turn i n s \<Longrightarrow> \<not> fst (turn (i + n) (turns turn i n s)) \<Longrightarrow> run_loop turn i s = Some (turns turn i (Suc n) s)"
proof (induction n arbitrary: i s)
  case 0
  then show ?case by (subst run_loop.simps) simp
next
  case (Suc n)
  then show ?case by (subst run_loop.simps) (simp add: goes_on_Suc)
qed

text \<open>What a loop returns, it returns after finitely many turns.\<close>

lemma run_loop_Some:
  assumes "run_loop turn i s = Some s'"
  shows "\<exists>n. goes_on turn i n s \<and> \<not> fst (turn (i + n) (turns turn i n s)) \<and> s' = turns turn i (Suc n) s"
proof (rule run_loop.raw_induct [OF _ assms, where P = "\<lambda>turn i s s'. \<exists>n. goes_on turn i n s \<and>
    \<not> fst (turn (i + n) (turns turn i n s)) \<and> s' = turns turn i (Suc n) s"])
  fix rl :: "(nat \<Rightarrow> 'a \<Rightarrow> bool \<times> 'a) \<Rightarrow> nat \<Rightarrow> 'a \<Rightarrow> 'a option" and turn i and s s' :: 'a
  assume IH: "\<And>turn i s s'. rl turn i s = Some s' \<Longrightarrow> \<exists>n. goes_on turn i n s \<and>
      \<not> fst (turn (i + n) (turns turn i n s)) \<and> s' = turns turn i (Suc n) s"
    and r: "(if fst (turn i s) then rl turn (Suc i) (snd (turn i s)) else Some (snd (turn i s))) = Some s'"
  show "\<exists>n. goes_on turn i n s \<and> \<not> fst (turn (i + n) (turns turn i n s)) \<and> s' = turns turn i (Suc n) s"
  proof (cases "fst (turn i s)")
    case True
    with r have "rl turn (Suc i) (snd (turn i s)) = Some s'" by simp
    from IH [OF this] obtain n where "goes_on turn (Suc i) n (snd (turn i s))"
      "\<not> fst (turn (Suc i + n) (turns turn (Suc i) n (snd (turn i s))))"
      "s' = turns turn (Suc i) (Suc n) (snd (turn i s))" by blast
    with True show ?thesis by (intro exI [of _ "Suc n"]) (simp add: goes_on_Suc)
  next
    case False
    with r show ?thesis by (intro exI [of _ 0]) simp
  qed
qed

lemma run_loop_forever: "(\<And>n. goes_on turn i n s) \<Longrightarrow> run_loop turn i s = None"
  using run_loop_Some [of turn i s] by (cases "run_loop turn i s") (auto simp: goes_on_def)

lemma turns_invariant: "(\<And>j s. P s \<Longrightarrow> P (snd (turn j s))) \<Longrightarrow> P s \<Longrightarrow> P (turns turn i n s)"
  by (induction n arbitrary: i s) simp_all

lemma run_loop_invariant:
  "(\<And>j s. P s \<Longrightarrow> P (snd (turn j s))) \<Longrightarrow> P s \<Longrightarrow> run_loop turn i s = Some s' \<Longrightarrow> P s'"
  using turns_invariant [of P turn s] by (metis run_loop_Some)

text \<open>The turn at which a condition is met for the first time ends a loop that stops on it.\<close>

lemma run_loop_by:
  assumes "\<not> fst (turn (i + k) (turns turn i k s))"
  shows "\<exists>n \<le> k. goes_on turn i n s \<and> run_loop turn i s = Some (turns turn i (Suc n) s)"
proof -
  define n where "n = (LEAST n. \<not> fst (turn (i + n) (turns turn i n s)))"
  have "\<not> fst (turn (i + n) (turns turn i n s))" unfolding n_def using assms by (rule LeastI)
  moreover have "goes_on turn i n s" unfolding goes_on_def n_def using not_less_Least by blast
  moreover have "n \<le> k" unfolding n_def using assms by (rule Least_le)
  ultimately show ?thesis using run_loop_ends [of turn i n s] by (intro exI [of _ n]) simp
qed

subsection \<open>Tickers\<close>

text \<open>
  A turn of \<open>select\<close> between the context and a ticker: the context is done, or a tick runs the body.
  \<open>others i\<close> is what the rest of the program does to the shared state while the loop waits; when both
  channels are ready the choice is the scheduler's, so any function is a possible \<open>wakes\<close>.
\<close>

datatype wake = Done | Tick

definition select_turn ::
  "(nat \<Rightarrow> wake) \<Rightarrow> (nat \<Rightarrow> 'w \<Rightarrow> 'w) \<Rightarrow> (nat \<Rightarrow> 'w \<Rightarrow> 'w) \<Rightarrow> nat \<Rightarrow> 'w \<Rightarrow> bool \<times> 'w" where
  "select_turn wakes others body i w =
     (case wakes i of Done \<Rightarrow> (False, others i w) | Tick \<Rightarrow> (True, body i (others i w)))"

text \<open>The end of a goroutine: \<open>time.NewTicker\<close> panics unless the interval is positive, and no goroutine recovers.\<close>

datatype 'w ending = Crashed | Forever | Returned 'w

definition ending_of :: "'w option \<Rightarrow> 'w ending" where
  "ending_of r = (case r of None \<Rightarrow> Forever | Some w \<Rightarrow> Returned w)"

definition new_ticker :: "duration \<Rightarrow> 'w option \<Rightarrow> 'w ending" where
  "new_ticker d r = (if d \<le> 0 then Crashed else ending_of r)"

text \<open>The state after \<open>n\<close> ticks.\<close>

fun ticked :: "(nat \<Rightarrow> 'w \<Rightarrow> 'w) \<Rightarrow> (nat \<Rightarrow> 'w \<Rightarrow> 'w) \<Rightarrow> nat \<Rightarrow> 'w \<Rightarrow> 'w" where
  "ticked others body 0 w = w"
| "ticked others body (Suc n) w = body n (others n (ticked others body n w))"

lemma turns_Suc: "turns turn i (Suc n) s = snd (turn (i + n) (turns turn i n s))"
  by (induction n arbitrary: i s) simp_all

lemma turns_select:
  "\<forall>i < n. wakes i = Tick \<Longrightarrow> turns (select_turn wakes others body) 0 n w = ticked others body n w"
proof (induction n)
  case 0
  then show ?case by simp
next
  case (Suc n)
  then show ?case by (simp add: turns_Suc select_turn_def del: turns.simps(2))
qed

lemma select_goes_on:
  "goes_on (select_turn wakes others body) 0 n w \<longleftrightarrow> (\<forall>i < n. wakes i = Tick)"
  by (auto simp: goes_on_def select_turn_def split: wake.splits) (metis wake.exhaust)

lemma ticker_stops:
  assumes "wakes n = Done" "\<forall>i < n. wakes i = Tick"
  shows "run_loop (select_turn wakes others body) 0 w = Some (others n (ticked others body n w))"
proof -
  have "run_loop (select_turn wakes others body) 0 w = Some (turns (select_turn wakes others body) 0 (Suc n) w)"
    using assms by (intro run_loop_ends) (auto simp: select_goes_on select_turn_def)
  with assms show ?thesis by (simp add: turns_Suc turns_select select_turn_def del: turns.simps(2))
qed

lemma first_done:
  fixes wakes :: "nat \<Rightarrow> wake"
  assumes "wakes k = Done"
  shows "\<exists>n \<le> k. wakes n = Done \<and> (\<forall>i < n. wakes i = Tick)"
proof -
  define n where "n = (LEAST n. wakes n = Done)"
  have "wakes n = Done" unfolding n_def by (rule LeastI [of "\<lambda>n. wakes n = Done" k, OF assms])
  moreover have "\<forall>i < n. wakes i = Tick"
  proof (intro allI impI)
    fix i assume "i < n"
    then show "wakes i = Tick" using not_less_Least [of i "\<lambda>n. wakes n = Done"] by (cases "wakes i") (simp_all add: n_def)
  qed
  moreover have "n \<le> k" unfolding n_def by (rule Least_le [of "\<lambda>n. wakes n = Done" k, OF assms])
  ultimately show ?thesis by blast
qed

lemma ticker_forever: "\<forall>i. wakes i = Tick \<Longrightarrow> run_loop (select_turn wakes others body) 0 w = None"
  by (rule run_loop_forever) (simp add: select_goes_on)

lemma ticked_invariant:
  "(\<And>j w. P w \<Longrightarrow> P (others j w)) \<Longrightarrow> (\<And>j w. P w \<Longrightarrow> P (body j w)) \<Longrightarrow> P w \<Longrightarrow> P (ticked others body n w)"
  by (induction n) simp_all


lemma select_invariant:
  assumes "\<And>j w. P w \<Longrightarrow> P (others j w)" "\<And>j w. P w \<Longrightarrow> P (body j w)" "P w"
    and "run_loop (select_turn wakes others body) i w = Some w'"
  shows "P w'"
proof (rule run_loop_invariant [where P = P, OF _ assms(3,4)])
  fix j w assume "P w"
  then have "P (others j w)" by (rule assms(1))
  then show "P (snd (select_turn wakes others body j w))"
    using assms(2) [of "others j w" j] by (cases "wakes j") (simp_all add: select_turn_def)
qed

lemma ticker_ending:
  assumes "\<And>j w. P w \<Longrightarrow> P (others j w)" "\<And>j w. P w \<Longrightarrow> P (body j w)" "P w"
  shows "new_ticker d (run_loop (select_turn wakes others body) 0 w) \<in> insert Crashed (insert Forever (Returned ` Collect P))"
proof (cases "run_loop (select_turn wakes others body) 0 w")
  case None
  then show ?thesis by (simp add: new_ticker_def ending_of_def)
next
  case (Some w')
  have "P w'" by (rule select_invariant [OF assms Some])
  with Some show ?thesis by (simp add: new_ticker_def ending_of_def)
qed

end
