(* ===== verification/Startup.thy ===== *)
theory Startup
  imports Gateway_Access Connections Billing Loop
begin

section \<open>The program from start to shutdown: \<open>main\<close>\<close>

text \<open>
  The sequence of \<open>main\<close>: the configuration, Redis, PostgreSQL, the token store, the publisher, the
  routes; then the loop over signals, which reloads the nodes on SIGHUP and ends the program on any
  other signal; then the deferred closes. An error in the sequence ends the program by \<open>os.Exit(1)\<close>,
  which runs no deferred call. The libraries of Theory Connections are arguments, and \<open>rows\<close> is
  what a connected database holds for the token query.
\<close>

subsection \<open>Start\<close>

datatype jwt_store_kind = JwtPostgres | JwtMemory

definition initAdminJWTStore :: "'p postgres option \<Rightarrow> jwt_store_kind" where
  "initAdminJWTStore pg = (case pg of Some _ \<Rightarrow> JwtPostgres | None \<Rightarrow> JwtMemory)"

text \<open>The parts of the admin API: its handler, the rotation, and the store of its tokens.\<close>

record admin_parts =
  ap_handler :: admin_handler
  ap_issuer :: issuer
  ap_rotator :: rotator_config
  ap_store :: jwt_store_kind

record ('l, 'r, 'p) program =
  pm_config :: config
  pm_redis :: "'r redis"
  pm_postgres :: "'p postgres option"
  pm_gateway :: "('l, 'r) ws_gateway"
  pm_billing :: publisher
  pm_wsHandler :: "websocket_config option"
  pm_admin :: "admin_parts option"

definition startup ::
  "admin_env \<Rightarrow> (string \<Rightarrow> string) \<Rightarrow> 'r redis_lib \<Rightarrow> ('x, 'p) pgx_lib \<Rightarrow> ('p postgres \<Rightarrow> token_db) \<Rightarrow> string \<Rightarrow> heap
    \<Rightarrow> (string \<times> string + ('l, 'r, 'p) program) \<times> 'r conn_call list \<times> 'p conn_call list" where
  "startup ae jerr rlib plib rows cfgPath h =
     (case Load (ae_ulower ae) (ae_read_file ae) (ae_yaml ae) (ae_file_order ae) cfgPath of
        Inl err \<Rightarrow> (Inl (''load config failed'', err), [], [])
      | Inr cfg \<Rightarrow>
          (case NewRedis rlib (cf_Redis cfg) of
             (Inl err, rcalls) \<Rightarrow> (Inl (''init redis failed'', err), rcalls, [])
           | (Inr rdb, rcalls) \<Rightarrow>
               (case (if db_Enabled (cf_Database cfg) then Connect plib (cf_Database cfg) else (Inr None, [])) of
                  (Inl err, pcalls) \<Rightarrow> (Inl (''init database failed'', err), rcalls, pcalls)
                | (Inr pg, pcalls) \<Rightarrow>
                    (case initTokenStore jerr cfg (map_option rows pg) of
                       Inl err \<Rightarrow> (Inl (''init token store failed'', err), rcalls, pcalls)
                     | Inr tokenStore \<Rightarrow>
                         (Inr \<lparr>pm_config = cfg, pm_redis = rdb, pm_postgres = pg,
                            pm_gateway = new_gateway h (ae_file_order ae) (ae_store_order ae) (rs_Client rdb) cfg tokenStore,
                            pm_billing = NewPublisher (bl_Publisher (cf_Billing cfg)) (bl_StreamKey (cf_Billing cfg))
                              (Available (Some rdb)) (pg \<noteq> None),
                            pm_wsHandler = (if ws_Enabled (cf_WebSocket cfg) then Some (cf_WebSocket cfg) else None),
                            pm_admin =
                              (if ad_Enabled (cf_Admin cfg) then
                                 Some \<lparr>ap_handler = new_admin cfg cfgPath, ap_issuer = admin_issuer cfg,
                                   ap_rotator = admin_rotator cfg, ap_store = initAdminJWTStore pg\<rparr>
                               else None)\<rparr>,
                          rcalls, pcalls)))))"

subsection \<open>Routes\<close>

text \<open>
  The routes in the order of their registration, with the patterns of the router; \<open>ids\<close> is the order
  in which the networks are visited. The router, a library, chooses among them.
\<close>

datatype endpoint = Healthz | AdminApi admin_route | AdminTokenStats | RpcProxy string | WsProxy string

definition admin_routes :: "(string \<times> string \<times> endpoint) list" where
  "admin_routes =
     [(''GET'', ''/admin/stats'', AdminApi GetStats),
      (''GET'', ''/admin/stats/tokens'', AdminApi GetStatsTokens),
      (''GET'', ''/admin/stats/tokens/{token}'', AdminTokenStats),
      (''GET'', ''/admin/tokens'', AdminApi GetTokens),
      (''GET'', ''/admin/upstreams'', AdminApi GetUpstreams),
      (''POST'', ''/admin/upstreams/reload'', AdminApi PostReload)]"

definition chain_routes :: "bool \<Rightarrow> string \<Rightarrow> (string \<times> string \<times> endpoint) list" where
  "chain_routes ws c =
     (''POST'', ''/{token}/'' @ c, RpcProxy c) # (if ws then [(''GET'', ''/{token}/'' @ c, WsProxy c)] else [])"

definition routes :: "string list \<Rightarrow> ('l, 'r, 'p) program \<Rightarrow> (string \<times> string \<times> endpoint) list" where
  "routes ids pm =
     (''GET'', ''/healthz'', Healthz) # (if pm_admin pm \<noteq> None then admin_routes else []) @
     concat (map (chain_routes (pm_wsHandler pm \<noteq> None)) ids)"

definition healthz :: reply where
  "healthz = Reply 200 ''text/plain; charset=utf-8'' ''ok''"

record http_server =
  hs_Addr :: string
  hs_ReadTimeout :: duration
  hs_WriteTimeout :: duration

definition server_settings :: "config \<Rightarrow> http_server" where
  "server_settings cfg =
     \<lparr>hs_Addr = sv_Addr (cf_Server cfg), hs_ReadTimeout = sv_ReadTimeout (cf_Server cfg),
      hs_WriteTimeout = wrap64 (sv_WriteTimeout (cf_Server cfg) + 5 * second)\<rparr>"

subsection \<open>Signals and shutdown\<close>

datatype signal = SIGHUP | SIGINT | SIGTERM

text \<open>
  One turn of the loop over signals. While it waits for the \<open>i\<close>-th signal the rest of the program
  does \<open>others i\<close>.
\<close>

definition signal_turn ::
  "(nat \<Rightarrow> signal) \<Rightarrow> (nat \<Rightarrow> ('l, 'r) ws_gateway \<Rightarrow> ('l, 'r) ws_gateway) \<Rightarrow> (nat \<Rightarrow> admin_env) \<Rightarrow> string
    \<Rightarrow> nat \<Rightarrow> ('l, 'r) ws_gateway \<Rightarrow> bool \<times> ('l, 'r) ws_gateway" where
  "signal_turn sigs others ae cfgPath i w =
     (case sigs i of
        SIGHUP \<Rightarrow> (True, sighup (ae i) cfgPath (others i w))
      | _ \<Rightarrow> (False, others i w))"

fun publisher_Close :: "publisher \<Rightarrow> string option" where
  "publisher_Close LogPublisher = None"
| "publisher_Close (RedisStreamPublisher key) = None"
| "publisher_Close PostgresPublisher = None"
| "publisher_Close (MultiPublisher ps) = None"

text \<open>
  The whole program: an exit with a message and the error, or the state at the end of the loop, with
  all connections opened and closed. \<open>None\<close> is a program that runs forever. The listener's own failure,
  which exits too, is not modelled.
\<close>

definition main_run ::
  "admin_env \<Rightarrow> (string \<Rightarrow> string) \<Rightarrow> 'r redis_lib \<Rightarrow> ('x, 'p) pgx_lib \<Rightarrow> ('p postgres \<Rightarrow> token_db) \<Rightarrow> string \<Rightarrow> heap
    \<Rightarrow> (nat \<Rightarrow> signal) \<Rightarrow> (nat \<Rightarrow> ('l, 'r) ws_gateway \<Rightarrow> ('l, 'r) ws_gateway) \<Rightarrow> (nat \<Rightarrow> admin_env)
    \<Rightarrow> ((string \<times> string + ('l, 'r) ws_gateway) \<times> 'r conn_call list \<times> 'p conn_call list) option" where
  "main_run ae jerr rlib plib rows cfgPath h sigs others reloads =
     (case startup ae jerr rlib plib rows cfgPath h of
        (Inl err, rcalls, pcalls) \<Rightarrow> Some (Inl err, rcalls, pcalls)
      | (Inr pm, rcalls, pcalls) \<Rightarrow>
          (case run_loop (signal_turn sigs others reloads cfgPath) 0 (pm_gateway pm) of
             None \<Rightarrow> None
           | Some w \<Rightarrow>
               Some (Inr w, rcalls @ redis_Close (Some (pm_redis pm)),
                 pcalls @ (if db_Enabled (cf_Database (pm_config pm)) then postgres_Close (pm_postgres pm) else []))))"

subsection \<open>What a start gives\<close>

text \<open>The gateway that a successful start runs is one that \<open>boot\<close> gives, with exactly its connections open.\<close>

lemma startup_boot:
  assumes "startup ae jerr rlib plib rows path h = (Inr pm, rcalls, pcalls)"
  shows "boot ae jerr path (map_option rows (pm_postgres pm)) (rs_Client (pm_redis pm)) h =
      Inr (pm_config pm, pm_gateway pm)"
    and "still_open rcalls [] = (case rs_Client (pm_redis pm) of None \<Rightarrow> [] | Some c \<Rightarrow> [c])"
    and "if db_Enabled (cf_Database (pm_config pm))
         then \<exists>p. pm_postgres pm = Some \<lparr>pgs_Pool = Some p\<rparr> \<and> pcalls = [Opened p]
         else pm_postgres pm = None \<and> pcalls = []"
proof -
  obtain cfg where L: "Load (ae_ulower ae) (ae_read_file ae) (ae_yaml ae) (ae_file_order ae) path = Inr cfg"
    using assms by (auto simp: startup_def split: sum.splits)
  obtain r where r: "NewRedis rlib (cf_Redis cfg) = (Inr r, rcalls)"
    and r_open: "still_open rcalls [] = (case rs_Client r of None \<Rightarrow> [] | Some c \<Rightarrow> [c])"
    using assms L by (cases rule: NewRedis_cases [of rlib "cf_Redis cfg"])
      (auto simp: startup_def split: sum.splits prod.splits if_splits)
  obtain pg where pg: "(if db_Enabled (cf_Database cfg) then Connect plib (cf_Database cfg) else (Inr None, [])) = (Inr pg, pcalls)"
    using assms L r by (auto simp: startup_def split: sum.splits prod.splits if_splits)
  obtain sto where sto: "initTokenStore jerr cfg (map_option rows pg) = Inr sto"
    using assms L r pg by (auto simp: startup_def split: sum.splits prod.splits if_splits)
  have pm: "pm_config pm = cfg" "pm_redis pm = r" "pm_postgres pm = pg"
    "pm_gateway pm = new_gateway h (ae_file_order ae) (ae_store_order ae) (rs_Client r) cfg sto"
    using assms L r pg sto by (auto simp: startup_def split: if_splits)
  have none: "\<not> db_Enabled (cf_Database cfg) \<Longrightarrow> pg = None" using pg by simp
  show "boot ae jerr path (map_option rows (pm_postgres pm)) (rs_Client (pm_redis pm)) h =
      Inr (pm_config pm, pm_gateway pm)"
    using L sto none by (auto simp: boot_def pm)
  show "still_open rcalls [] = (case rs_Client (pm_redis pm) of None \<Rightarrow> [] | Some c \<Rightarrow> [c])"
    by (simp add: pm r_open)
  show "if db_Enabled (cf_Database (pm_config pm))
         then \<exists>p. pm_postgres pm = Some \<lparr>pgs_Pool = Some p\<rparr> \<and> pcalls = [Opened p]
         else pm_postgres pm = None \<and> pcalls = []"
    using pg by (cases rule: Connect_cases [of "cf_Database cfg" plib]) (auto simp: pm)
qed

text \<open>Redis never stops a start.\<close>

lemma startup_error:
  "startup ae jerr rlib plib rows path h = (Inl (msg, err), rcalls, pcalls) \<Longrightarrow>
     msg \<in> {''load config failed'', ''init database failed'', ''init token store failed''}"
  by (cases "Load (ae_ulower ae) (ae_read_file ae) (ae_yaml ae) (ae_file_order ae) path")
    (auto simp: startup_def NewRedis_def Let_def split: sum.splits prod.splits if_splits option.splits)

subsection \<open>Properties\<close>

text \<open>
  C12: a start either exits or leads to a state from which everything proved of reachable states holds.
  When it succeeds, from a file whose networks the iteration order covers and whose weights and limits
  fit in an \<open>int\<close>, the configuration is valid, the state is a start state of the step relation, every
  configured network has a pool with at least one node, and the connections that are open are exactly
  the Redis client if the server answered and one database pool if the database is enabled. No start
  fails because of Redis.
\<close>

theorem startup_valid:
  assumes "startup ae jerr rlib plib rows path h = (res, rcalls, pcalls)"
    and "\<And>pm. res = Inr pm \<Longrightarrow> enumerates (ae_file_order ae) (cf_Chains (pm_config pm))" "weights_fit ae" "limit_fits ae"
  shows "case res of
      Inl (msg, err) \<Rightarrow> msg \<in> {''load config failed'', ''init database failed'', ''init token store failed''}
    | Inr pm \<Rightarrow>
        gw_valid (pm_config pm) \<and> gw_reachable (pm_config pm) (pm_gateway pm) \<and>
        dom (rg_pools (gw_registry (pm_gateway pm))) = dom (cf_Chains (pm_config pm)) \<and>
        (\<forall>p \<in> ran (rg_pools (gw_registry (pm_gateway pm))). po_nodes p \<noteq> []) \<and>
        still_open rcalls [] = (case rs_Client (pm_redis pm) of None \<Rightarrow> [] | Some c \<Rightarrow> [c]) \<and>
        (length (still_open pcalls []) = (if db_Enabled (cf_Database (pm_config pm)) then 1 else 0))"
proof (cases res)
  case (Inl e)
  obtain msg err where e: "e = (msg, err)" by (cases e)
  from startup_error [OF assms(1) [unfolded Inl e]] show ?thesis by (simp add: Inl e)
next
  case (Inr pm)
  note s = startup_boot [OF assms(1) [unfolded Inr]]
  from boot_valid [OF s(1) assms(2) [OF Inr] assms(3,4)] s(2,3) show ?thesis
    by (auto simp: Inr ran_def split: if_splits)
qed

text \<open>Libraries for the examples: Redis refuses the connection, PostgreSQL accepts it.\<close>

definition sample_rlib :: "unit redis_lib" where
  "sample_rlib = \<lparr>rlib_NewClient = (\<lambda>opts. ()), rlib_Ping = (\<lambda>c. Some ''refused'')\<rparr>"

definition sample_plib :: "(unit, unit) pgx_lib" where
  "sample_plib = \<lparr>pgx_ParseConfig = (\<lambda>dsn. Inr \<lparr>pc_MaxConns = 4, pc_MinConns = 0, pc_other = ()\<rparr>),
     pgx_NewWithConfig = (\<lambda>cfg. Inr ()), pgx_Ping = (\<lambda>p. None)\<rparr>"

definition sample_rows :: "unit postgres \<Rightarrow> token_db" where
  "sample_rows p = Inr ([], [])"

lemma sample_startup:
  "\<exists>(pm :: (int, unit, unit) program) rcalls pcalls.
     startup sample_admin_env id sample_rlib sample_plib sample_rows ''config.yaml'' empty_heap = (Inr pm, rcalls, pcalls) \<and>
     pm_config pm = applyDefaults id sample_file"
proof -
  let ?cfg = "applyDefaults id sample_file"
  obtain sto where "yaml_tokens (cf_Plans ?cfg) (cf_Tokens ?cfg) Map.empty = Inr sto"
    by (simp add: sample_file_def)
  moreover have "\<not> db_Enabled (cf_Database ?cfg)" by (simp add: sample_file_def)
  moreover obtain r calls where "NewRedis sample_rlib (cf_Redis ?cfg) = (Inr r, calls)"
    by (cases rule: NewRedis_cases [of sample_rlib "cf_Redis ?cfg"]) auto
  ultimately show ?thesis
    by (simp add: startup_def Load_def sample_admin_env_def sample_file_valid initTokenStore_def NewStoreFromConfig_def)
qed

lemma sample_file_enumerates:
  "enumerates (ae_file_order sample_admin_env) (cf_Chains (applyDefaults id sample_file))"
  by (auto simp: sample_admin_env_def enumerates_def sample_file_def dom_def split: if_splits)

theorem startup_valid_witness:
  "\<exists>(pm :: (int, unit, unit) program) rcalls pcalls.
     startup sample_admin_env id sample_rlib sample_plib sample_rows ''config.yaml'' empty_heap = (Inr pm, rcalls, pcalls) \<and>
     gw_valid (pm_config pm) \<and> gw_reachable (pm_config pm) (pm_gateway pm)"
proof -
  obtain pm :: "(int, unit, unit) program" and rcalls pcalls where
    s: "startup sample_admin_env id sample_rlib sample_plib sample_rows ''config.yaml'' empty_heap = (Inr pm, rcalls, pcalls)"
    and cfg: "pm_config pm = applyDefaults id sample_file" using sample_startup by blast
  have "enumerates (ae_file_order sample_admin_env) (cf_Chains (pm_config x))" if "Inr pm = Inr x"
    for x :: "(int, unit, unit) program"
    using that cfg sample_file_enumerates by simp
  from startup_valid [OF s this sample_admin_env_fits] s show ?thesis by auto
qed

text \<open>The loop over signals is a ticker whose ticks are SIGHUPs.\<close>

definition hups :: "(nat \<Rightarrow> signal) \<Rightarrow> nat \<Rightarrow> wake" where
  "hups sigs i = (if sigs i = SIGHUP then Tick else Done)"

lemma signal_turn_eq:
  "signal_turn sigs others ae path = select_turn (hups sigs) others (\<lambda>i. sighup (ae i) path)"
  by (auto simp: fun_eq_iff signal_turn_def select_turn_def hups_def split: signal.split)

text \<open>
  C11: the program ends. Once started, the first signal other than SIGHUP ends the loop, after exactly
  the reloads for the SIGHUPs before it, and the deferred calls close every connection that was opened,
  the ones of the start included.
\<close>

theorem shutdown_clean:
  assumes "startup ae jerr rlib plib rows path h = (Inr pm, rcalls, pcalls)" "sigs k \<noteq> SIGHUP"
  shows "\<exists>n \<le> k. \<exists>rcalls pcalls. (\<forall>i < n. sigs i = SIGHUP) \<and> sigs n \<noteq> SIGHUP \<and>
    main_run ae jerr rlib plib rows path h sigs others reloads =
      Some (Inr (others n (ticked others (\<lambda>i. sighup (reloads i) path) n (pm_gateway pm))), rcalls, pcalls) \<and>
    still_open rcalls [] = [] \<and> still_open pcalls [] = []"
proof -
  have "hups sigs k = Done" using assms(2) by (simp add: hups_def)
  from first_done [of "hups sigs" k, OF this] obtain n where n: "n \<le> k" "hups sigs n = Done" "\<forall>i < n. hups sigs i = Tick" by blast
  have r: "run_loop (signal_turn sigs others reloads path) 0 (pm_gateway pm) =
      Some (others n (ticked others (\<lambda>i. sighup (reloads i) path) n (pm_gateway pm)))"
    unfolding signal_turn_eq by (rule ticker_stops [OF n(2,3)])
  note s = startup_boot(2,3) [OF assms(1)]
  have "still_open (rcalls @ redis_Close (Some (pm_redis pm))) [] = []"
    using s(1) by (simp add: redis_Close_def split: option.split)
  moreover have "still_open (pcalls @ (if db_Enabled (cf_Database (pm_config pm)) then postgres_Close (pm_postgres pm) else [])) [] = []"
    using s(2) by (auto simp: postgres_Close_def)
  ultimately show ?thesis
    using n by (intro exI [of _ n]) (auto simp: main_run_def assms(1) r hups_def split: if_splits)
qed

theorem shutdown_clean_witness:
  "\<exists>(w :: (int, unit) ws_gateway) rcalls pcalls.
    main_run sample_admin_env id sample_rlib sample_plib sample_rows ''config.yaml'' empty_heap
      (\<lambda>i. if i = 0 then SIGHUP else SIGTERM) (\<lambda>i w. w) (\<lambda>i. sample_admin_env) = Some (Inr w, rcalls, pcalls) \<and>
    still_open rcalls [] = [] \<and> still_open pcalls [] = []"
proof -
  obtain pm :: "(int, unit, unit) program" and rcalls pcalls where
    s: "startup sample_admin_env id sample_rlib sample_plib sample_rows ''config.yaml'' empty_heap = (Inr pm, rcalls, pcalls)"
    using sample_startup by blast
  from shutdown_clean [OF s, of "\<lambda>i. if i = 0 then SIGHUP else SIGTERM" 1 "\<lambda>i w. w" "\<lambda>i. sample_admin_env"]
  show ?thesis by auto
qed

end
