(* ===== verification/Background.thy ===== *)
theory Background
  imports Startup Admin_Jwt_Spec
begin

section \<open>Goroutines: health checks, refresh, rotation, sessions\<close>

text \<open>
  The loops that run beside the handlers, as instances of \<open>run_loop\<close>: \<open>loop\<close> of \<open>internal/balancer\<close>,
  \<open>loopRefresh\<close> of \<open>internal/auth\<close>, the goroutine of \<open>Rotator.Start\<close>, and the wait for the pumps of a
  WebSocket session. Everything the rest of the program does between two turns is the argument
  \<open>others\<close>. The loops end when the context is done, and what they do in between are steps
  of the gateway.
\<close>

subsection \<open>Health checks\<close>

text \<open>\<open>checkAll\<close> on the pool of a network; the registry never drops a pool.\<close>

definition check_pool ::
  "(string \<Rightarrow> string + int \<times> string) \<Rightarrow> string \<Rightarrow> ('l, 'r, 'z) gateway_scheme \<Rightarrow> ('l, 'r, 'z) gateway_scheme" where
  "check_pool post c w =
     (case rg_pools (gw_registry w) c of
        None \<Rightarrow> w
      | Some p \<Rightarrow> set_registry ((gw_registry w)\<lparr>rg_heap := checkAll post p (rg_heap (gw_registry w))\<rparr>) w)"

text \<open>\<open>post i\<close> is how the upstreams answer the \<open>i\<close>-th check.\<close>

definition pool_loop ::
  "(nat \<Rightarrow> wake) \<Rightarrow> (nat \<Rightarrow> ('l, 'r, 'z) gateway_scheme \<Rightarrow> ('l, 'r, 'z) gateway_scheme)
    \<Rightarrow> (nat \<Rightarrow> string \<Rightarrow> string + int \<times> string) \<Rightarrow> string \<Rightarrow> duration
    \<Rightarrow> ('l, 'r, 'z) gateway_scheme \<Rightarrow> ('l, 'r, 'z) gateway_scheme ending" where
  "pool_loop wakes others post c interval w =
     new_ticker interval
       (run_loop (select_turn wakes others (\<lambda>i. check_pool (post (Suc i)) c)) 0 (check_pool (post 0) c w))"

text \<open>\<open>ids\<close> is the order in which the pools are visited.\<close>

definition ChainIDs :: "string list \<Rightarrow> registry \<Rightarrow> string list" where
  "ChainIDs ids r = filter (\<lambda>c. rg_pools r c \<noteq> None) ids"

text \<open>One goroutine for each pool; each has its own ticker.\<close>

definition StartHealthChecks ::
  "(string \<Rightarrow> nat \<Rightarrow> wake) \<Rightarrow> (string \<Rightarrow> nat \<Rightarrow> ('l, 'r, 'z) gateway_scheme \<Rightarrow> ('l, 'r, 'z) gateway_scheme)
    \<Rightarrow> (string \<Rightarrow> nat \<Rightarrow> string \<Rightarrow> string + int \<times> string) \<Rightarrow> string list \<Rightarrow> registry \<Rightarrow> duration
    \<Rightarrow> (('l, 'r, 'z) gateway_scheme \<Rightarrow> ('l, 'r, 'z) gateway_scheme ending) list" where
  "StartHealthChecks wakes others post ids r interval =
     map (\<lambda>c. pool_loop (wakes c) (others c) (post c) c interval) (ChainIDs ids r)"

subsection \<open>Refresh of the token store\<close>

definition loopRefresh ::
  "(nat \<Rightarrow> wake) \<Rightarrow> (nat \<Rightarrow> ('l, 'r, 'z) gateway_scheme \<Rightarrow> ('l, 'r, 'z) gateway_scheme)
    \<Rightarrow> (string \<Rightarrow> string) \<Rightarrow> (nat \<Rightarrow> token_db) \<Rightarrow> duration
    \<Rightarrow> ('l, 'r, 'z) gateway_scheme \<Rightarrow> ('l, 'r, 'z) gateway_scheme ending" where
  "loopRefresh wakes others jerr db every w =
     new_ticker every
       (run_loop (select_turn wakes others (\<lambda>i w. w\<lparr>gw_tokens := refresh_tick jerr (db i) (gw_tokens w)\<rparr>)) 0 w)"

text \<open>The goroutine that \<open>NewStoreFromDB\<close> starts, if it starts one.\<close>

definition refresher ::
  "(nat \<Rightarrow> wake) \<Rightarrow> (nat \<Rightarrow> ('l, 'r, 'z) gateway_scheme \<Rightarrow> ('l, 'r, 'z) gateway_scheme)
    \<Rightarrow> (string \<Rightarrow> string) \<Rightarrow> (nat \<Rightarrow> token_db) \<Rightarrow> duration
    \<Rightarrow> (('l, 'r, 'z) gateway_scheme \<Rightarrow> ('l, 'r, 'z) gateway_scheme ending) option" where
  "refresher wakes others jerr db refreshEvery =
     (if refreshEvery > 0 then Some (loopRefresh wakes others jerr db refreshEvery) else None)"

subsection \<open>Rotation of the admin tokens\<close>

text \<open>
  \<open>Start\<close> with its goroutine. \<open>jti i\<close>, \<open>row i\<close> and \<open>clock i\<close> are the random identifiers and the
  clock of the \<open>i\<close>-th rotation.
\<close>

definition StartRotator ::
  "(nat \<Rightarrow> wake) \<Rightarrow> (nat \<Rightarrow> 's \<Rightarrow> 's) \<Rightarrow> jwt_sign \<Rightarrow> (nat \<Rightarrow> 's jwt_store_ops) \<Rightarrow> issuer \<Rightarrow> rotator_config
    \<Rightarrow> (nat \<Rightarrow> string) \<Rightarrow> (nat \<Rightarrow> string) \<Rightarrow> (nat \<Rightarrow> time) \<Rightarrow> 's \<Rightarrow> 's ending" where
  "StartRotator wakes others sign ops iss cfg jti row clock s =
     (case Start sign (ops 0) iss cfg (jti 0) (row 0) (clock 0) s of
        (False, s) \<Rightarrow> Returned s
      | (True, s) \<Rightarrow>
          new_ticker (rc_Every cfg)
            (run_loop (select_turn wakes others (\<lambda>i s. snd (Rotate sign (ops (Suc i)) iss cfg (jti (Suc i)) (row (Suc i))
               (clock (Suc i)) s))) 0 s))"

subsection \<open>WebSocket sessions\<close>

text \<open>
  A session from its start to the return of the handler, which waits for the first pump that ends.
  \<open>side i\<close> is the pump whose turn is the \<open>i\<close>-th; \<open>read i\<close> and \<open>ok i\<close> are the outcomes of its read and its write.
\<close>

datatype side = FromClient | FromUpstream

definition pump_of ::
  "side \<Rightarrow> ('l, 'r) env \<Rightarrow> string option \<Rightarrow> bool \<Rightarrow> session \<Rightarrow> ('l, 'r, 'z) gateway_scheme
    \<Rightarrow> bool \<times> session \<times> ('l, 'r, 'z) gateway_scheme" where
  "pump_of d = (case d of FromClient \<Rightarrow> pumpClientToUpstream | FromUpstream \<Rightarrow> pumpUpstreamToClient)"

definition session_turn ::
  "(nat \<Rightarrow> ('l, 'r) ws_gateway \<Rightarrow> ('l, 'r) ws_gateway) \<Rightarrow> (nat \<Rightarrow> side) \<Rightarrow> (nat \<Rightarrow> ('l, 'r) env) \<Rightarrow> (nat \<Rightarrow> string option)
    \<Rightarrow> (nat \<Rightarrow> bool) \<Rightarrow> nat \<Rightarrow> nat \<Rightarrow> ('l, 'r) ws_gateway \<Rightarrow> bool \<times> ('l, 'r) ws_gateway" where
  "session_turn others side e read ok n i w =
     (let w = pump_turn (pump_of (side i) (e i) (read i) (ok i)) n (others i w)
      in (gw_sessions w n \<noteq> None, w))"

definition serve_session ::
  "(nat \<Rightarrow> ('l, 'r) ws_gateway \<Rightarrow> ('l, 'r) ws_gateway) \<Rightarrow> (nat \<Rightarrow> side) \<Rightarrow> (nat \<Rightarrow> ('l, 'r) env) \<Rightarrow> (nat \<Rightarrow> string option)
    \<Rightarrow> (nat \<Rightarrow> bool) \<Rightarrow> nat \<Rightarrow> ('l, 'r) ws_gateway \<Rightarrow> ('l, 'r) ws_gateway option" where
  "serve_session others side e read ok n w = run_loop (session_turn others side e read ok n) 0 w"

subsection \<open>The loops are steps of the gateway\<close>



lemma check_node_next [simp]: "hp_next (check_node post p a h) = hp_next h"
  by (simp add: check_node_def ReportFailure_def ReportSuccess_def set_node_def split: option.split)




lemma pump_reachable: "gw_reachable cfg w \<Longrightarrow> gw_reachable cfg (pump_turn (pump_of d e read ok) n w)"
  by (cases d) (auto simp: pump_of_def intro: gw_reachable.step gw_step.ws_in gw_step.ws_out)



subsection \<open>The loops end\<close>

text \<open>
  C32: the background loops end with the program. When the context is done, at whatever turn the scheduler
  picks that case of the \<open>select\<close>, the loop returns, and until then it has run once for every
  tick before: the health checks of a network (and once at the start), the refresh of the token store, and the
  rotation of the admin tokens.
\<close>

theorem background_loops_end:
  fixes w :: "('l, 'r, 'z) gateway_scheme"
  assumes "wakes k = Done" "0 < d" "rc_Every cfg = d"
  shows "\<exists>n \<le> k. wakes n = Done \<and> (\<forall>i < n. wakes i = Tick) \<and>
    pool_loop wakes others post c d w =
      Returned (others n (ticked others (\<lambda>i. check_pool (post (Suc i)) c) n (check_pool (post 0) c w))) \<and>
    refresher wakes others jerr db d \<noteq> None \<and>
    loopRefresh wakes others jerr db d w =
      Returned (others n (ticked others (\<lambda>i w. w\<lparr>gw_tokens := refresh_tick jerr (db i) (gw_tokens w)\<rparr>) n w)) \<and>
    StartRotator wakes others' sign ops iss cfg jti row clock s =
      Returned (others' n (ticked others' (\<lambda>i s. snd (Rotate sign (ops (Suc i)) iss cfg (jti (Suc i)) (row (Suc i)) (clock (Suc i)) s)) n
        (if rc_OnStart cfg then snd (Rotate sign (ops 0) iss cfg (jti 0) (row 0) (clock 0) s) else s)))"
proof -
  from first_done [of wakes k] assms(1) obtain n where n: "n \<le> k" "wakes n = Done" "\<forall>i < n. wakes i = Tick"
    by blast
  note stops = ticker_stops [OF n(2,3)]
  show ?thesis
    using assms(2,3) n
    by (intro exI [of _ n])
      (simp add: pool_loop_def loopRefresh_def refresher_def StartRotator_def Start_def new_ticker_def ending_of_def stops)
qed

definition sample_schedule :: rotator_config where
  "sample_schedule = \<lparr>rc_Every = 1, rc_OnStart = False, rc_RevokePrevious = False, rc_CleanupRetention = 0, rc_LogToken = False\<rparr>"

theorem background_loops_end_witness:
  "\<exists>n \<le> 2. pool_loop (\<lambda>i. if i < 2 then Tick else Done) (\<lambda>i w. w) (\<lambda>i url. Inl ''down'') ''eth'' 1 sample_gateway =
    Returned (ticked (\<lambda>i w. w) (\<lambda>i. check_pool (\<lambda>url. Inl ''down'') ''eth'') n
      (check_pool (\<lambda>url. Inl ''down'') ''eth'' sample_gateway))"
  using background_loops_end [of "\<lambda>i. if i < 2 then Tick else Done" 2 1 sample_schedule "\<lambda>i w. w" "\<lambda>i url. Inl ''down''"
      "''eth''" sample_gateway id "\<lambda>i. Inl ''down''" "\<lambda>i s. s" sample_sign "\<lambda>i. memory_ops []"
      "admin_issuer sample_gw_config" "\<lambda>i. ''jti''" "\<lambda>i. ''row''" "\<lambda>i. 0" NewMemoryStore]
  by (auto simp: sample_schedule_def)

lemma ending_of_not [simp]: "ending_of x \<noteq> Crashed"
  by (simp add: ending_of_def split: option.split)

lemma rotator_not_crashed [simp]: "StartRotator wakes others sign ops iss cfg jti row clock s \<noteq> Crashed"
  by (auto simp: StartRotator_def Start_def new_ticker_def split: prod.split bool.split)

text \<open>
  C34: a negative health check interval brings the gateway down. \<open>Load\<close> replaces only the interval 0 by the
  default, \<open>time.NewTicker\<close> panics on the negative one, and a panic in a goroutine that does not recover
  ends the process: the loop of every network crashes exactly when the interval in the file is negative.
  The refresh and the rotation, which test their intervals, never crash.
\<close>

theorem health_interval_crash:
  fixes w :: "('l, 'r, 'z) gateway_scheme"
  assumes "read_file path = Inr data" "yaml data = Inr raw_cfg" "Load ulower read_file yaml ids path = Inr cfg"
  shows "(pool_loop wakes others post c (hc_Interval (cf_HealthCheck cfg)) w = Crashed \<longleftrightarrow>
      hc_Interval (cf_HealthCheck raw_cfg) < 0) \<and>
    (case refresher wakes others jerr db (db_TokenRefresh (cf_Database cfg)) of
       None \<Rightarrow> True | Some loop \<Rightarrow> loop w \<noteq> Crashed) \<and>
    StartRotator wakes others' sign ops iss (admin_rotator cfg) jti row clock s \<noteq> Crashed"
proof -
  have cfg: "cfg = applyDefaults ulower raw_cfg"
    using assms by (auto simp: Load_def split: sum.splits)
  have "hc_Interval (cf_HealthCheck cfg) \<le> 0 \<longleftrightarrow> hc_Interval (cf_HealthCheck raw_cfg) < 0"
    by (auto simp: cfg applyDefaults_def default_health_check_def second_def)
  then show ?thesis
    by (simp add: pool_loop_def new_ticker_def refresher_def loopRefresh_def)
qed

text \<open>The sample file with a health check interval of minus one second.\<close>

definition backwards_file :: config where
  "backwards_file = sample_file\<lparr>cf_HealthCheck := (cf_HealthCheck sample_file)\<lparr>hc_Interval := - second\<rparr>\<rparr>"

theorem health_interval_crash_witness:
  "\<exists>cfg. Load id (\<lambda>p. Inr ''text'') (\<lambda>d. Inr backwards_file) [''eth''] ''config.yaml'' = Inr cfg \<and>
     pool_loop (\<lambda>i. Tick) (\<lambda>i w. w) (\<lambda>i url. Inl ''down'') ''eth'' (hc_Interval (cf_HealthCheck cfg)) sample_gateway = Crashed"
proof -
  have same: "cf_Chains backwards_file = cf_Chains sample_file" "cf_Plans backwards_file = cf_Plans sample_file"
    "cf_Tokens backwards_file = cf_Tokens sample_file" "cf_Database backwards_file = cf_Database sample_file"
    "cf_Admin backwards_file = cf_Admin sample_file" by (simp_all add: backwards_file_def)
  have "validate [''eth''] backwards_file = validate [''eth''] sample_file"
    unfolding validate_def same by (rule refl)
  then have L: "Load id (\<lambda>p. Inr ''text'') (\<lambda>d. Inr backwards_file) [''eth''] ''config.yaml'' =
      Inr (applyDefaults id backwards_file)"
    by (simp add: Load_def sample_file_valid)
  have "hc_Interval (cf_HealthCheck backwards_file) < 0" by (simp add: backwards_file_def second_def)
  with health_interval_crash [OF _ _ L, of "''text''" backwards_file "\<lambda>i. Tick" "\<lambda>i w. w" "\<lambda>i url. Inl ''down''" "''eth''" sample_gateway
      id "\<lambda>i. Inl ''down''" "\<lambda>i s. s" sample_sign "\<lambda>i. memory_ops []" "admin_issuer sample_gw_config" "\<lambda>i. ''jti''"
      "\<lambda>i. ''row''" "\<lambda>i. 0" NewMemoryStore] L
  show ?thesis by auto
qed

text \<open>
  C33: sessions end. When one of the peers has gone, that is when the \<open>k\<close>-th turn of the pumps fails to read, the
  handler returns after at most \<open>k + 1\<close> turns, whatever was sent before and whatever the rest of
  the gateway does in between; the session is off the table, and the state is reachable, so
  that the connection guard counts exactly the sessions that remain.
\<close>

theorem session_ends:
  assumes "read k = None" "gw_reachable cfg w" "\<And>i w. gw_reachable cfg w \<Longrightarrow> gw_reachable cfg (others i w)"
  shows "\<exists>n \<le> k. \<exists>w'. serve_session others side e read ok m w = Some w' \<and>
    w' = turns (session_turn others side e read ok m) 0 (Suc n) w \<and>
    gw_sessions w' m = None \<and> gw_reachable cfg w'"
proof -
  let ?turn = "session_turn others side e read ok m"
  have turn: "gw_reachable cfg (snd (?turn j w))" if "gw_reachable cfg w" for j w
    using pump_reachable [OF assms(3) [OF that]] by (simp add: session_turn_def Let_def)
  have gone: "fst (?turn j w) \<longleftrightarrow> gw_sessions (snd (?turn j w)) m \<noteq> None" for j w
    by (simp add: session_turn_def Let_def)
  have "\<not> fst (?turn (0 + k) (turns ?turn 0 k w))"
    using assms(1) by (cases "side k")
      (auto simp: session_turn_def pump_turn_def pump_of_def pumpClientToUpstream_def pumpUpstreamToClient_def
        ws_end_def set_conns_def Let_def split: option.splits)
  then have "\<exists>n \<le> k. goes_on ?turn 0 n w \<and> run_loop ?turn 0 w = Some (turns ?turn 0 (Suc n) w)" by (rule run_loop_by)
  then obtain n where n: "n \<le> k" "run_loop ?turn 0 w = Some (turns ?turn 0 (Suc n) w)" by blast
  have "gw_sessions (turns ?turn 0 (Suc n) w) m = None"
    using run_loop_Some [OF n(2)] gone by (auto simp: turns_Suc simp del: turns.simps(2))
  moreover have "gw_reachable cfg (turns ?turn 0 (Suc n) w)"
    using turn assms(2) by (rule turns_invariant)
  ultimately show ?thesis using n by (intro exI [of _ n]) (simp add: serve_session_def)
qed

theorem session_ends_witness:
  "\<exists>w'. serve_session (\<lambda>i w. w) (\<lambda>i. if i = 0 then FromUpstream else FromClient) (\<lambda>i. sample_env)
      (\<lambda>i. if i = 0 then Some push_frame else None) (\<lambda>i. True) 0 sample_opened = Some w' \<and> gw_sessions w' 0 = None"
  using session_ends [of "\<lambda>i. if i = 0 then Some push_frame else None" 1 sample_gw_config sample_opened "\<lambda>i w. w"
      "\<lambda>i. if i = 0 then FromUpstream else FromClient" "\<lambda>i. sample_env" "\<lambda>i. True" 0] sample_opened_reachable
  by auto

end
