(* ===== verification/Flight.thy ===== *)
theory Flight
  imports Gateway "HOL-Library.Multiset"
begin

section \<open>Requests in flight\<close>

text \<open>
  JSON-RPC requests as goroutines: the stages of \<open>rpc_stack\<close>, each with at most one operation on the
  shared state, so that other requests and everything else can run between any two of them.
  A stage is a value of \<open>flight\<close> with what the goroutine holds at that point, and \<open>advance\<close> does what comes
  next: it ends with a reply or goes on to another stage. The limiter's check is one stage, the counting of usage
  another. The clock, Redis and the upstreams may differ from stage to stage.
\<close>

record call =
  ca_token :: token
  ca_chainID :: string
  ca_methods :: "string list"
  ca_clientIP :: string
  ca_body :: string
  ca_ua :: string
  ca_node :: nat
  ca_start :: time

datatype flight =
    F_Host string request
  | F_Auth string request
  | F_Filter request
  | F_Limit request
  | F_Serve request
  | F_Call call
  | F_Report call
  | F_Again call
  | F_Retry call nat
  | F_Down call
  | F_Health call string int
  | F_Stats call string int
  | F_Count call string int int
  | F_Publish call string int int

definition call_reply :: "string \<Rightarrow> int \<Rightarrow> reply" where
  "call_reply resp st = Reply st ''application/json'' resp"

text \<open>
  The event carries the clock of the moment it is built and the latency since the first call; the model
  takes the clock of the stage for both.
\<close>

definition call_event :: "('l, 'r) env \<Rightarrow> call \<Rightarrow> int \<Rightarrow> ('l, 'r, 'z) gateway_scheme \<Rightarrow> billing_event" where
  "call_event e q n w =
     http_event (e\<lparr>en_now := ca_start q\<rparr>) (ca_token q) (ca_chainID q) (ca_methods q) n
       (node_url w (ca_node q)) (ca_clientIP q) (length (gw_events w))"

text \<open>The start of the proxy's handler, up to the choice of the node.\<close>

definition serve_begin ::
  "('l, 'r) env \<Rightarrow> request \<Rightarrow> ('l, 'r, 'z) gateway_scheme \<Rightarrow> (reply + flight) \<times> ('l, 'r, 'z) gateway_scheme" where
  "serve_begin e r w =
     (if ht_Method r \<noteq> ''POST'' then (Inl (writeJSONError 405 (-32600) ''only POST is allowed''), w)
      else
        let chainID = ctx_ChainID (ht_ctx r)
        in case ctx_Token (ht_ctx r) of
             None \<Rightarrow> (Inl (writeJSONError 401 (-32001) ''unauthorized''), w)
           | Some t \<Rightarrow>
               if chainID = [] then (Inl (writeJSONError 401 (-32001) ''unauthorized''), w)
               else if lookup_pool (gw_registry w) chainID = None then
                 (Inl (writeJSONError 404 (-32002) ''unknown chain''), w)
               else
                 (case read_limited two_mb (ht_Body r) of
                    Inl err \<Rightarrow> (Inl (writeJSONError 400 (-32700) ''failed to read body''), w)
                  | Inr body \<Rightarrow>
                      (case pool_next chainID (gw_registry w) of
                         (Panicked, g) \<Rightarrow> (Inl Panic, set_registry g w)
                       | (NoNode, g) \<Rightarrow>
                           (Inl (writeJSONError 502 (-32003) ''no upstream available''),
                            with_stats (RecordProxy (en_now e) (meta_of t) chainID 0 0 True False) (set_registry g w))
                       | (Pick node, g) \<Rightarrow>
                           (Inr (F_Call \<lparr>ca_token = t, ca_chainID = chainID, ca_methods = ctx_Methods (ht_ctx r),
                              ca_clientIP = ClientIP r, ca_body = body, ca_ua = ht_Header r ''User-Agent'',
                              ca_node = node, ca_start = en_now e\<rparr>), set_registry g w))))"

fun advance ::
  "('l, 'r) env \<Rightarrow> config \<Rightarrow> flight \<Rightarrow> ('l, 'r, 'z) gateway_scheme \<Rightarrow> (reply + flight) \<times> ('l, 'r, 'z) gateway_scheme" where
  "advance e cfg (F_Host c r) w =
     (if \<not> HostAllowed (en_ulower e) (sv_Domains (cf_Server cfg)) (ht_Host r) then
        (Inl (writeErr 403 (-32010) ''host not allowed''), with_stats (IncDomainRejected (en_now e)) w)
      else (Inr (F_Auth c r), w))"
| "advance e cfg (F_Auth c r) w =
     (let key = trim_space (ht_token r)
      in if key = [] then
           (Inl (writeErr 401 (-32001) ''missing api token in path''), with_stats (IncAuthFailed (en_now e)) w)
         else
           (case Lookup (gw_tokens w) key of
              None \<Rightarrow> (Inl (writeErr 401 (-32001) ''invalid api token''), with_stats (IncAuthFailed (en_now e)) w)
            | Some token \<Rightarrow>
                (Inr (F_Filter (r\<lparr>ht_ctx := WithChainID (WithToken (ht_ctx r) (Some token)) c\<rparr>)), w)))"
| "advance e cfg (F_Filter r) w =
     (case read_limited two_mb (ht_Body r) of
        Inl err \<Rightarrow> (Inl (writeErr 400 (-32700) ''parse error''), w)
      | Inr body \<Rightarrow>
          (case ParseMethods (en_jerr e) body of
             Inl err \<Rightarrow> (Inl (writeErr 400 (-32600) err), w)
           | Inr methods \<Rightarrow>
               (case CheckMethods (ctx_Token (ht_ctx r)) methods of
                  Some err \<Rightarrow>
                    (case ctx_Token (ht_ctx r) of
                       None \<Rightarrow> (Inl Panic, w)
                     | Some t \<Rightarrow>
                         (Inl (writeErr 403 (-32601) err), with_stats (IncMethodDenied (en_now e) (meta_of t)) w))
                | None \<Rightarrow> (Inr (F_Limit (r\<lparr>ht_Body := Inr body, ht_ctx := WithMethods (ht_ctx r) methods\<rparr>)), w))))"
| "advance e cfg (F_Limit r) w =
     (case ctx_Token (ht_ctx r) of
        None \<Rightarrow> (Inl Panic, w)
      | Some token \<Rightarrow>
          let (res, l) = Allow (en_rops e) (en_lops e) (en_now e) token (ctx_ChainID (ht_ctx r)) (ClientIP r) (gw_limiter w);
              w = w\<lparr>gw_limiter := l\<rparr>
          in if \<not> res_Allowed res then
               (Inl (writeErr 429 (-32005) (''rate limited: '' @ res_Reason res)),
                with_stats (IncRateLimited (en_now e) (meta_of token)) w)
             else (Inr (F_Serve r), w))"
| "advance e cfg (F_Serve r) w = serve_begin e r w"
| "advance e cfg (F_Call q) w =
     (case forward e (node_url w (ca_node q)) (ca_body q) (ca_ua q) w of
        (Inr (resp, st), w) \<Rightarrow> (Inr (F_Health q resp st), w)
      | (Inl err, w) \<Rightarrow> (Inr (F_Report q), w))"
| "advance e cfg (F_Report q) w =
     (Inr (F_Again q), set_registry (pool_failure (ca_chainID q) (ca_node q) (gw_registry w)) w)"
| "advance e cfg (F_Again q) w =
     (case pool_next (ca_chainID q) (gw_registry w) of
        (Pick alt, g) \<Rightarrow>
          (Inr (if node_url (set_registry g w) alt \<noteq> node_url (set_registry g w) (ca_node q) then F_Retry q alt else F_Down q),
           set_registry g w)
      | (NoNode, g) \<Rightarrow> (Inr (F_Down q), set_registry g w)
      | (Panicked, g) \<Rightarrow> (Inl Panic, set_registry g w))"
| "advance e cfg (F_Retry q alt) w =
     (case forward e (node_url w alt) (ca_body q) (ca_ua q) w of
        (Inr (resp, st), w) \<Rightarrow> (Inr (F_Health (q\<lparr>ca_node := alt\<rparr>) resp st), w)
      | (Inl err, w) \<Rightarrow> (Inr (F_Down q), w))"
| "advance e cfg (F_Down q) w =
     (Inl (writeJSONError 502 (-32004) ''upstream unavailable''),
      with_stats (RecordProxy (en_done e) (meta_of (ca_token q)) (ca_chainID q) 0 0 True False) w)"
| "advance e cfg (F_Health q resp st) w =
     (Inr (F_Stats q resp st),
      set_registry ((if st \<ge> 500 then pool_failure else pool_success) (ca_chainID q) (ca_node q) (gw_registry w)) w)"
| "advance e cfg (F_Stats q resp st) w =
     (let billable = \<not> tok_BillingFree (ca_token q); meta = meta_of (ca_token q)
      in if \<not> (st \<ge> 200 \<and> st < 300) \<and> st \<ge> 500 then
           (Inl (call_reply resp st), with_stats (RecordProxy (en_done e) meta (ca_chainID q) 0 0 True billable) w)
         else
           let (successN, rpcErrN) = (if st \<ge> 200 \<and> st < 300 then CountResults resp else (0, 0))
           in (if successN > 0 then Inr (F_Count q resp st successN) else Inl (call_reply resp st),
               with_stats (RecordProxy (en_done e) meta (ca_chainID q) successN rpcErrN False billable) w))"
| "advance e cfg (F_Count q resp st n) w =
     (Inr (F_Publish q resp st n),
      w\<lparr>gw_limiter := IncrSuccess (en_rops e) (en_done e) (tok_Key (ca_token q)) n (gw_limiter w)\<rparr>)"
| "advance e cfg (F_Publish q resp st n) w =
     (Inl (call_reply resp st), w\<lparr>gw_events := gw_events w @ [call_event e q n w]\<rparr>)"

subsection \<open>A request by itself\<close>

text \<open>How many stages may follow.\<close>

fun rank :: "flight \<Rightarrow> nat" where
  "rank (F_Host c r) = 13"
| "rank (F_Auth c r) = 12"
| "rank (F_Filter r) = 11"
| "rank (F_Limit r) = 10"
| "rank (F_Serve r) = 9"
| "rank (F_Call q) = 8"
| "rank (F_Report q) = 7"
| "rank (F_Again q) = 6"
| "rank (F_Retry q a) = 5"
| "rank (F_Health q resp st) = 4"
| "rank (F_Stats q resp st) = 3"
| "rank (F_Count q resp st n) = 2"
| "rank (F_Publish q resp st n) = 1"
| "rank (F_Down q) = 1"

lemma advance_rank: "advance e cfg f w = (Inr f', w') \<Longrightarrow> rank f' < rank f"
  by (cases f)
    (auto simp: serve_begin_def Let_def split: if_splits option.splits sum.splits prod.splits pick.splits)

text \<open>The stages one after the other in one environment, with nothing in between.\<close>

function run_flight ::
  "('l, 'r) env \<Rightarrow> config \<Rightarrow> flight \<Rightarrow> ('l, 'r, 'z) gateway_scheme \<Rightarrow> reply \<times> ('l, 'r, 'z) gateway_scheme" where
  "run_flight e cfg f w =
     (case advance e cfg f w of
        (Inl reply, w) \<Rightarrow> (reply, w)
      | (Inr f, w) \<Rightarrow> run_flight e cfg f w)"
  by pat_completeness auto
termination
  by (relation "measure (\<lambda>(e, cfg, f, w). rank f)") (auto dest: advance_rank [OF sym])

declare run_flight.simps [simp del]

subsection \<open>Many requests at once\<close>

text \<open>
  The gateway with the requests in flight. A request arrives at the route of a configured network, goes
  on by one stage, or replies and is gone; everything else the gateway does is a step of \<open>gw_step\<close>.
\<close>

type_synonym ('l, 'r) live_gateway = "('l, 'r) ws_gateway \<times> flight multiset"

inductive flight_step :: "('l, 'r) env \<Rightarrow> config \<Rightarrow> ('l, 'r) live_gateway \<Rightarrow> ('l, 'r) live_gateway \<Rightarrow> bool" for e cfg where
  arrives: "cf_Chains cfg c \<noteq> None \<Longrightarrow> ht_ctx r = empty_context \<Longrightarrow>
     flight_step e cfg (w, M) (w, add_mset (F_Host c r) M)"
| goes_on: "advance e cfg f w = (Inr f', w') \<Longrightarrow> flight_step e cfg (w, add_mset f M) (w', add_mset f' M)"
| replies: "advance e cfg f w = (Inl reply, w') \<Longrightarrow> flight_step e cfg (w, add_mset f M) (w', M)"

inductive live_step :: "config \<Rightarrow> ('l, 'r) live_gateway \<Rightarrow> ('l, 'r) live_gateway \<Rightarrow> bool" for cfg where
  request: "flight_step e cfg s s' \<Longrightarrow> live_step cfg s s'"
| other: "gw_step cfg w w' \<Longrightarrow> live_step cfg (w, M) (w', M)"

inductive live_reachable :: "config \<Rightarrow> ('l, 'r) live_gateway \<Rightarrow> bool" for cfg where
  start: "enumerates ids (cf_Chains cfg) \<Longrightarrow> live_reachable cfg (new_gateway h ids ks rdb cfg tokenStore, {#})"
| step: "live_reachable cfg s \<Longrightarrow> live_step cfg s s' \<Longrightarrow> live_reachable cfg s'"

inductive_cases flight_stepE: "flight_step e cfg s s'"
inductive_cases live_stepE: "live_step cfg s s'"

end
