(* ===== verification/Flight_Inv.thy ===== *)
theory Flight_Inv
  imports Flight_Spec
begin

section \<open>Invariants of requests that interleave\<close>

text \<open>
  What a request in flight has been through by the time it reaches a stage, kept by every step of every
  other request and of the rest of the gateway; and the books, which balance once the successes that
  a request has entered in the statistics but not yet in a billing event are added.
\<close>

subsection \<open>What a request has been through\<close>

text \<open>The filter has read these methods in the body and the token may call them all.\<close>

definition checked :: "token \<Rightarrow> string \<Rightarrow> string list \<Rightarrow> bool" where
  "checked t body ms \<longleftrightarrow>
     tok_Enabled t \<and> length body \<le> two_mb \<and> (\<exists>jerr. ParseMethods jerr body = Inr ms) \<and> set ms \<inter> tok_DeniedMethods t = {}"

definition identified :: "config \<Rightarrow> request \<Rightarrow> bool" where
  "identified cfg r \<longleftrightarrow>
     (\<exists>t. ctx_Token (ht_ctx r) = Some t \<and> tok_Enabled t) \<and> cf_Chains cfg (ctx_ChainID (ht_ctx r)) \<noteq> None"

definition filtered :: "request \<Rightarrow> bool" where
  "filtered r \<longleftrightarrow>
     (\<exists>t body. ctx_Token (ht_ctx r) = Some t \<and> ht_Body r = Inr body \<and> checked t body (ctx_Methods (ht_ctx r)))"

definition call_ok :: "config \<Rightarrow> registry \<Rightarrow> call \<Rightarrow> bool" where
  "call_ok cfg g q \<longleftrightarrow>
     cf_Chains cfg (ca_chainID q) \<noteq> None \<and> ca_node q < hp_next (rg_heap g) \<and>
     checked (ca_token q) (ca_body q) (ca_methods q)"

fun flight_ok :: "config \<Rightarrow> registry \<Rightarrow> flight \<Rightarrow> bool" where
  "flight_ok cfg g (F_Host c r) = (cf_Chains cfg c \<noteq> None)"
| "flight_ok cfg g (F_Auth c r) = (cf_Chains cfg c \<noteq> None)"
| "flight_ok cfg g (F_Filter r) = identified cfg r"
| "flight_ok cfg g (F_Limit r) = (identified cfg r \<and> filtered r)"
| "flight_ok cfg g (F_Serve r) = (identified cfg r \<and> filtered r)"
| "flight_ok cfg g (F_Call q) = call_ok cfg g q"
| "flight_ok cfg g (F_Report q) = call_ok cfg g q"
| "flight_ok cfg g (F_Again q) = call_ok cfg g q"
| "flight_ok cfg g (F_Retry q a) = (call_ok cfg g q \<and> a < hp_next (rg_heap g))"
| "flight_ok cfg g (F_Down q) = call_ok cfg g q"
| "flight_ok cfg g (F_Health q resp st) = call_ok cfg g q"
| "flight_ok cfg g (F_Stats q resp st) = call_ok cfg g q"
| "flight_ok cfg g (F_Count q resp st n) = (call_ok cfg g q \<and> 0 < n)"
| "flight_ok cfg g (F_Publish q resp st n) = (call_ok cfg g q \<and> 0 < n)"

lemma flight_ok_grows: "flight_ok cfg g f \<Longrightarrow> hp_next (rg_heap g) \<le> hp_next (rg_heap g') \<Longrightarrow> flight_ok cfg g' f"
  by (cases f) (auto simp: call_ok_def)

lemma reg_step_grows: "reg_step g g' \<Longrightarrow> hp_next (rg_heap g) \<le> hp_next (rg_heap g')"
proof (induction rule: reg_step.induct)
  case (reload m ids r e r')
  then show ?case using reload_pools_frame unfolding ReloadNodes_def by blast
qed (simp_all add: ReportSuccess_def ReportFailure_def set_node_def)

lemma reg_steps_grow: "reg_steps g g' \<Longrightarrow> hp_next (rg_heap g) \<le> hp_next (rg_heap g')"
  by (induction rule: rtranclp_induct) (auto dest: reg_step_grows)

subsection \<open>One stage\<close>

lemma call_report_steps:
  assumes "rg_pools g c \<noteq> None" "a < hp_next (rg_heap g)"
  shows "reg_steps g ((if b then pool_failure else pool_success) c a g)"
  using assms reg_step.success [of g c _ a] reg_step.failure [of g c _ a]
  by (auto simp: pool_failure_def pool_success_def split: option.split intro!: r_into_rtranclp)

text \<open>What a stage may do: steps of the registry, at most one call with a checked body, no panic.\<close>

definition forwards_checked :: "('l, 'r, 'z) gateway_scheme \<Rightarrow> ('l, 'r, 'z) gateway_scheme \<Rightarrow> bool" where
  "forwards_checked w w' \<longleftrightarrow>
     gw_forwards w' = gw_forwards w \<or>
     (\<exists>t body ms a. checked t body ms \<and> a < hp_next (rg_heap (gw_registry w)) \<and>
        gw_forwards w' = gw_forwards w @ [(node_url w a, body)])"

fun next_ok :: "config \<Rightarrow> registry \<Rightarrow> reply + flight \<Rightarrow> bool" where
  "next_ok cfg g (Inl reply) = (reply \<noteq> Panic)"
| "next_ok cfg g (Inr f) = flight_ok cfg g f"

definition stage_ok :: "config \<Rightarrow> reply + flight \<Rightarrow> ('l, 'r, 'z) gateway_scheme \<Rightarrow> ('l, 'r, 'z) gateway_scheme \<Rightarrow> bool" where
  "stage_ok cfg x w w' \<longleftrightarrow>
     reg_steps (gw_registry w) (gw_registry w') \<and> gateway.more w' = gateway.more w \<and> forwards_checked w w' \<and>
     next_ok cfg (gw_registry w') x"

lemma stage_quiet:
  assumes "gw_registry w' = gw_registry w" "gateway.more w' = gateway.more w" "gw_forwards w' = gw_forwards w"
    and "next_ok cfg (gw_registry w) x"
  shows "stage_ok cfg x w w'"
  using assms by (simp add: stage_ok_def forwards_checked_def)

lemma stage_registry:
  assumes "reg_steps (gw_registry w) g" "next_ok cfg g x"
  shows "stage_ok cfg x w (set_registry g w)"
  using assms by (simp add: stage_ok_def forwards_checked_def)

lemma serve_stage:
  assumes "reg_inv (gw_registry w)" "dom (rg_pools (gw_registry w)) = dom (cf_Chains cfg)"
    and "identified cfg r" "filtered r" "serve_begin e r w = (x, w')"
  shows "stage_ok cfg x w w'"
proof -
  let ?c = "ctx_ChainID (ht_ctx r)"
  obtain t body where t: "ctx_Token (ht_ctx r) = Some t" and body: "ht_Body r = Inr body"
    and ok: "checked t body (ctx_Methods (ht_ctx r))"
    using assms(4) by (auto simp: filtered_def)
  have rd: "read_limited two_mb (ht_Body r) = Inr body" using ok by (simp add: body checked_def read_limited_def)
  have there: "rg_pools (gw_registry w) ?c \<noteq> None" and chain: "cf_Chains cfg ?c \<noteq> None"
    using assms(2,3) by (auto simp: identified_def)
  show ?thesis
  proof (cases "ht_Method r \<noteq> ''POST'' \<or> ?c = []")
    case True
    then have "\<exists>reply. (x, w') = (Inl reply, w) \<and> reply \<noteq> Panic" unfolding assms(5) [symmetric] using t
      by (auto simp: serve_begin_def Let_def)
    then show ?thesis by (auto simp: stage_ok_def forwards_checked_def)
  next
    case False
    from assms(1) there obtain a g where n: "pool_next ?c (gw_registry w) = (Pick a, g)"
      and sv: "serves (gw_registry w) ?c a" and s: "reg_steps (gw_registry w) g" by (rule pool_next_picks)
    have "a < hp_next (rg_heap g)" using sv reg_steps_grow [OF s] by (auto simp: serves_def)
    with False there assms(5) t rd n chain ok have "w' = set_registry g w"
      "next_ok cfg g x"
      by (auto simp: serve_begin_def Let_def lookup_pool_def call_ok_def)
    with s show ?thesis by (simp add: stage_registry)
  qed
qed

lemma forward_checked:
  assumes "forward e (node_url w a) body ua w = (y, w')" "checked t body ms" "a < hp_next (rg_heap (gw_registry w))"
  shows "gw_registry w' = gw_registry w \<and> gateway.more w' = gateway.more w \<and> forwards_checked w w'"
  using forward_frame [OF assms(1)] assms(2,3) by (auto simp: forwards_checked_def)

lemma call_stage:
  assumes "call_ok cfg (gw_registry w) q" "a < hp_next (rg_heap (gw_registry w))"
    and "forward e (node_url w a) (ca_body q) (ca_ua q) w = (y, w')"
    and "\<And>err. y = Inl err \<Longrightarrow> x = Inr f1" "\<And>resp st. y = Inr (resp, st) \<Longrightarrow> x = Inr (f2 resp st)"
    and "flight_ok cfg (gw_registry w) f1" "\<And>resp st. flight_ok cfg (gw_registry w) (f2 resp st)"
  shows "stage_ok cfg x w w'"
proof -
  have "checked (ca_token q) (ca_body q) (ca_methods q)" using assms(1) by (simp add: call_ok_def)
  from forward_checked [OF assms(3) this assms(2)] have w': "gw_registry w' = gw_registry w"
    "gateway.more w' = gateway.more w" "forwards_checked w w'" by simp_all
  have "next_ok cfg (gw_registry w) x"
  proof (cases y)
    case (Inl err)
    with assms(4,6) show ?thesis by simp
  next
    case (Inr res)
    obtain resp st where "res = (resp, st)" by (cases res)
    with Inr assms(5,7) show ?thesis by simp
  qed
  with w' show ?thesis by (simp add: stage_ok_def)
qed

lemma filter_stage:
  assumes "identified cfg r" "advance e cfg (F_Filter r) w = (x, w')"
  shows "stage_ok cfg x w w'"
proof -
  obtain t where t: "ctx_Token (ht_ctx r) = Some t" "tok_Enabled t" using assms(1) by (auto simp: identified_def)
  show ?thesis
  proof (cases "read_limited two_mb (ht_Body r)")
    case (Inl err)
    with assms(2) show ?thesis by (auto simp: stage_ok_def forwards_checked_def)
  next
    case body: (Inr body)
    show ?thesis
    proof (cases "ParseMethods (en_jerr e) body")
      case (Inl err)
      with assms(2) body show ?thesis by (auto simp: stage_ok_def forwards_checked_def)
    next
      case ms: (Inr ms)
      show ?thesis
      proof (cases "CheckMethods (Some t) ms")
        case (Some err)
        with assms(2) body ms t show ?thesis by (auto simp: stage_ok_def forwards_checked_def)
      next
        case None
        have "length body \<le> two_mb" using body by (cases "ht_Body r") (auto simp: read_limited_def)
        moreover have "set ms \<inter> tok_DeniedMethods t = {}" using None by (auto simp: CheckMethods_None)
        ultimately have "checked t body ms" using ms t by (auto simp: checked_def)
        with None assms body ms t show ?thesis
          by (auto simp: stage_ok_def forwards_checked_def identified_def filtered_def)
      qed
    qed
  qed
qed

text \<open>All the stages.\<close>

lemma advance_stage:
  assumes "reg_inv (gw_registry w)" "dom (rg_pools (gw_registry w)) = dom (cf_Chains cfg)"
    and "flight_ok cfg (gw_registry w) f" "advance e cfg f w = (x, w')"
  shows "stage_ok cfg x w w'"
proof -
  note same = stage_ok_def forwards_checked_def
  show ?thesis
  proof (cases f)
    case (F_Host c r)
    with assms(3,4) show ?thesis by (auto simp: same split: if_splits)
  next
    case (F_Auth c r)
    with assms(3,4) show ?thesis
      by (auto simp: same Let_def identified_def Lookup_def split: if_splits option.splits)
  next
    case (F_Filter r)
    with assms(3,4) show ?thesis by (intro filter_stage) simp_all
  next
    case (F_Limit r)
    then obtain t where "ctx_Token (ht_ctx r) = Some t" using assms(3) by (auto simp: identified_def)
    with F_Limit assms(3,4) show ?thesis by (auto simp: same Let_def split: prod.splits if_splits)
  next
    case (F_Serve r)
    with assms show ?thesis by (intro serve_stage) simp_all
  next
    case (F_Call q)
    obtain y v where "forward e (node_url w (ca_node q)) (ca_body q) (ca_ua q) w = (y, v)" by fastforce
    with F_Call assms(3,4) show ?thesis
      by (intro call_stage [where a = "ca_node q" and q = q and y = y and e = e and ?f1.0 = "F_Report q"
            and ?f2.0 = "F_Health q"])
        (auto simp: call_ok_def split: sum.splits)
  next
    case (F_Report q)
    have "rg_pools (gw_registry w) (ca_chainID q) \<noteq> None" using assms(2,3) F_Report by (auto simp: call_ok_def)
    with call_report_steps [of "gw_registry w" "ca_chainID q" "ca_node q" True] F_Report assms(3)
    have s: "reg_steps (gw_registry w) (pool_failure (ca_chainID q) (ca_node q) (gw_registry w))" by (simp add: call_ok_def)
    with stage_registry [OF s, of cfg "Inr (F_Again q)"] F_Report assms(3,4) reg_steps_grow [OF s] show ?thesis
      by (auto simp: call_ok_def)
  next
    case (F_Again q)
    have "rg_pools (gw_registry w) (ca_chainID q) \<noteq> None" using assms(2,3) F_Again by (auto simp: call_ok_def)
    with assms(1) obtain a g where n: "pool_next (ca_chainID q) (gw_registry w) = (Pick a, g)"
      and sv: "serves (gw_registry w) (ca_chainID q) a" and s: "reg_steps (gw_registry w) g" by (rule pool_next_picks)
    have "a < hp_next (rg_heap g)" using sv reg_steps_grow [OF s] by (auto simp: serves_def)
    moreover have "call_ok cfg g q" using F_Again assms(3) reg_steps_grow [OF s] by (auto simp: call_ok_def)
    ultimately have "next_ok cfg g x" "w' = set_registry g w" using F_Again assms(4) n by auto
    with s show ?thesis by (simp add: stage_registry)
  next
    case (F_Retry q a)
    obtain y v where "forward e (node_url w a) (ca_body q) (ca_ua q) w = (y, v)" by fastforce
    with F_Retry assms(3,4) show ?thesis
      by (intro call_stage [where a = a and q = q and y = y and e = e and ?f1.0 = "F_Down q"
            and ?f2.0 = "F_Health (q\<lparr>ca_node := a\<rparr>)"])
        (auto simp: call_ok_def split: sum.splits)
  next
    case (F_Down q)
    with assms(3,4) show ?thesis by (auto simp: same)
  next
    case (F_Health q resp st)
    let ?g = "(if st \<ge> 500 then pool_failure else pool_success) (ca_chainID q) (ca_node q) (gw_registry w)"
    have "rg_pools (gw_registry w) (ca_chainID q) \<noteq> None" using assms(2,3) F_Health by (auto simp: call_ok_def)
    with F_Health assms(3) have s: "reg_steps (gw_registry w) ?g" by (intro call_report_steps) (simp_all add: call_ok_def)
    with stage_registry [OF s, of cfg "Inr (F_Stats q resp st)"] F_Health assms(3,4) reg_steps_grow [OF s] show ?thesis
      by (auto simp: call_ok_def)
  next
    case (F_Stats q resp st)
    with assms(3,4) show ?thesis
      by (auto simp: same Let_def call_reply_def split: prod.splits if_splits)
  next
    case (F_Count q resp st n)
    with assms(3,4) show ?thesis by (auto simp: same)
  next
    case (F_Publish q resp st n)
    with assms(3,4) show ?thesis by (auto simp: same call_reply_def)
  qed
qed

subsection \<open>All requests\<close>

definition live_inv :: "config \<Rightarrow> ('l, 'r) live_gateway \<Rightarrow> bool" where
  "live_inv cfg s \<longleftrightarrow>
     reg_reachable cfg (gw_registry (fst s)) \<and> conn_inv cfg (fst s) \<and>
     (\<forall>f \<in># snd s. flight_ok cfg (gw_registry (fst s)) f)"

lemma live_inv_registry:
  assumes "live_inv cfg s" "gw_valid cfg"
  shows "reg_inv (gw_registry (fst s))" "dom (rg_pools (gw_registry (fst s))) = dom (cf_Chains cfg)"
  using assms reachable_inv [of cfg "gw_registry (fst s)"] by (auto simp: live_inv_def gw_valid_def)

lemma flight_step_inv:
  assumes "flight_step e cfg s s'" "live_inv cfg s" "gw_valid cfg"
  shows "live_inv cfg s'"
  using assms(1)
proof cases
  case (arrives c r w M)
  with assms(2) show ?thesis by (simp add: live_inv_def)
next
  case (goes_on f w f' w' M)
  then have ok: "flight_ok cfg (gw_registry w) f" using assms(2) by (simp add: live_inv_def)
  have "stage_ok cfg (Inr f') w w'"
    using goes_on live_inv_registry [OF assms(2,3)] ok by (intro advance_stage [OF _ _ ok]) simp_all
  then have s: "reg_steps (gw_registry w) (gw_registry w')" "gateway.more w' = gateway.more w"
    "flight_ok cfg (gw_registry w') f'" by (simp_all add: stage_ok_def)
  with goes_on assms(2) conn_inv_same [OF _ s(2), of cfg] flight_ok_grows [OF _ reg_steps_grow [OF s(1)]] show ?thesis
    by (auto simp: live_inv_def reg_steps_reachable)
next
  case (replies f w reply w' M)
  then have ok: "flight_ok cfg (gw_registry w) f" using assms(2) by (simp add: live_inv_def)
  have "stage_ok cfg (Inl reply) w w'"
    using replies live_inv_registry [OF assms(2,3)] ok by (intro advance_stage [OF _ _ ok]) simp_all
  then have s: "reg_steps (gw_registry w) (gw_registry w')" "gateway.more w' = gateway.more w" by (simp_all add: stage_ok_def)
  with replies assms(2) conn_inv_same [OF _ s(2), of cfg] flight_ok_grows [OF _ reg_steps_grow [OF s(1)]] show ?thesis
    by (auto simp: live_inv_def reg_steps_reachable)
qed

lemma live_reachable_inv:
  fixes s :: "('l, 'r) live_gateway"
  assumes "live_reachable cfg s" "gw_valid cfg"
  shows "live_inv cfg s"
  using assms(1)
proof (induction rule: live_reachable.induct)
  case (start ids h ks rdb tokenStore)
  have "gw_inv cfg (new_gateway h ids ks rdb cfg tokenStore :: ('l, 'r) ws_gateway)" by (rule new_gateway_inv [OF assms(2) start])
  then show ?case by (simp add: live_inv_def gw_inv_def)
next
  case (step s s')
  from step.hyps(2) show ?case
  proof cases
    case (request e)
    then show ?thesis using step.IH assms(2) by (rule flight_step_inv)
  next
    case (other w w' M)
    have inv: "conn_inv cfg w" "reg_reachable cfg (gw_registry w)" "\<forall>f \<in># M. flight_ok cfg (gw_registry w) f"
      using step.IH other by (simp_all add: live_inv_def)
    have "reg_steps (gw_registry w) (gw_registry w') \<and> booked w w' \<and> conn_inv cfg w'"
      using gw_step_effect [OF other(3) _ _ inv(1)] live_inv_registry [OF step.IH assms(2)] other by simp
    with inv other flight_ok_grows reg_steps_grow show ?thesis
      by (auto simp: live_inv_def reg_steps_reachable)
  qed
qed


subsection \<open>The books with requests in flight\<close>

text \<open>What a request has entered in the statistics and not yet in an event.\<close>

fun owed :: "(bool \<Rightarrow> bool) \<Rightarrow> string \<Rightarrow> flight \<Rightarrow> int" where
  "owed B key (F_Count q resp st n) =
     (if tok_Key (ca_token q) = key \<and> B (\<not> tok_BillingFree (ca_token q)) then n else 0)"
| "owed B key (F_Publish q resp st n) =
     (if tok_Key (ca_token q) = key \<and> B (\<not> tok_BillingFree (ca_token q)) then n else 0)"
| "owed B key f = 0"

definition all_owed :: "(bool \<Rightarrow> bool) \<Rightarrow> string \<Rightarrow> flight multiset \<Rightarrow> int" where
  "all_owed B key M = sum_mset (image_mset (owed B key) M)"

lemma all_owed_simps [simp]:
  "all_owed B key {#} = 0" "all_owed B key (add_mset f M) = owed B key f + all_owed B key M"
  by (simp_all add: all_owed_def)

definition billed :: "(bool \<Rightarrow> bool) \<Rightarrow> string \<Rightarrow> ('l, 'r, 'z) gateway_scheme \<Rightarrow> int" where
  "billed B key w = billed_sum (\<lambda>ev. ev_TokenKey ev = key \<and> B (ev_Billable ev)) (gw_events w)"

text \<open>From \<open>w\<close> to \<open>w'\<close>, with \<open>m\<close> and \<open>m'\<close> owed, the statistics record what the events and the debts gain.\<close>

definition entered ::
  "('l, 'r, 'z) gateway_scheme \<Rightarrow> ((bool \<Rightarrow> bool) \<Rightarrow> string \<Rightarrow> int) \<Rightarrow> ('l, 'r, 'z) gateway_scheme
    \<Rightarrow> ((bool \<Rightarrow> bool) \<Rightarrow> string \<Rightarrow> int) \<Rightarrow> bool" where
  "entered w m w' m' \<longleftrightarrow>
     (\<exists>evs. gw_stats w' = map_option (fold apply_event evs) (gw_stats w) \<and>
        (\<forall>B key. sum_list (map (recorded B key) evs) + of_int (billed B key w + m B key) =
           of_int (billed B key w' + m' B key)))"

definition live_books :: "('l, 'r) live_gateway \<Rightarrow> bool" where
  "live_books s \<longleftrightarrow>
     (\<exists>c. gw_stats (fst s) = Some c \<and>
        (\<forall>f B key. success_counter f B \<longrightarrow>
           token_counter f key c = of_int (billed B key (fst s) + all_owed B key (snd s))))"

lemma live_books_step:
  assumes "live_books (w, M)" "entered w m w' m'"
    and "\<And>B key. all_owed B key M' - m' B key = all_owed B key M - m B key"
  shows "live_books (w', M')"
proof -
  obtain c where c: "gw_stats w = Some c"
    and bal: "\<And>f B key. success_counter f B \<Longrightarrow> token_counter f key c = of_int (billed B key w + all_owed B key M)"
    using assms(1) by (auto simp: live_books_def)
  obtain evs where evs: "gw_stats w' = map_option (fold apply_event evs) (gw_stats w)"
    and sum: "\<And>B key. sum_list (map (recorded B key) evs) + of_int (billed B key w + m B key) =
      of_int (billed B key w' + m' B key)"
    using assms(2) by (auto simp: entered_def)
  have "token_counter f key (fold apply_event evs c) = of_int (billed B key w' + all_owed B key M')"
    if f: "success_counter f B" for f B key
  proof -
    have "all_owed B key M = all_owed B key M' - m' B key + m B key" using assms(3) [of B key] by simp
    then have "token_counter f key (fold apply_event evs c) =
        sum_list (map (recorded B key) evs) + of_int (billed B key w + m B key) + of_int (all_owed B key M' - m' B key)"
      by (simp add: events_counter [OF f] bal [OF f])
    then show ?thesis by (simp only: sum) simp
  qed
  then show ?thesis using c evs by (auto simp: live_books_def)
qed

lemma entered_booked: "booked w w' \<Longrightarrow> entered w m w' m"
  unfolding booked_def booked_by_def entered_def agrees_def billed_def by (auto simp: add.assoc)

lemma entered_quiet: "quiet_event ev \<Longrightarrow> gw_stats w' = map_option (apply_event ev) (gw_stats w) \<Longrightarrow>
    gw_events w' = gw_events w \<Longrightarrow> entered w m w' m"
  unfolding entered_def by (intro exI [of _ "[ev]"]) (simp add: quiet_event_def billed_def cong: option.map_cong)

lemma entered_same: "gw_stats w' = gw_stats w \<Longrightarrow> gw_events w' = gw_events w \<Longrightarrow> entered w m w' m"
  unfolding entered_def by (intro exI [of _ "[]"]) (simp add: billed_def option.map_id0)

text \<open>What is owed after a stage.\<close>

definition next_owed :: "reply + flight \<Rightarrow> (bool \<Rightarrow> bool) \<Rightarrow> string \<Rightarrow> int" where
  "next_owed x B key = (case x of Inl reply \<Rightarrow> 0 | Inr f \<Rightarrow> owed B key f)"

lemma stage_entered:
  fixes w :: "('l, 'r, 'z) gateway_scheme"
  assumes "advance e cfg f w = (x, w')"
  shows "entered w (\<lambda>B key. owed B key f) w' (next_owed x)"
proof -
  have quiet: "entered w (\<lambda>B key. owed B key f) w' (next_owed x)"
    if "\<And>B key. owed B key f = 0" "\<And>B key. next_owed x B key = 0" "gw_events w' = gw_events w"
      "gw_stats w' = gw_stats w \<or> (\<exists>ev. quiet_event ev \<and> gw_stats w' = map_option (apply_event ev) (gw_stats w))"
  proof -
    have "(\<lambda>B key. owed B key f) = next_owed x" using that(1,2) by (simp add: fun_eq_iff)
    with that(3,4) show ?thesis using entered_quiet entered_same by metis
  qed
  have eta: "\<exists>ev. quiet_event ev \<and> map_option (apply_event ev') s = map_option (apply_event ev) s" if "quiet_event ev'"
    for ev' s using that by blast
  note etas = eta [OF quiet_events(1)] eta [OF quiet_events(2)] eta [OF quiet_events(3)] eta [OF quiet_events(4)]
    eta [OF quiet_events(5)]
  show ?thesis
  proof (cases f)
    case (F_Host c r)
    with assms show ?thesis using etas(1) [of "en_now e" "gw_stats w"]
      by (intro quiet) (auto simp: next_owed_def apply_event_eta split: if_splits)
  next
    case (F_Auth c r)
    with assms show ?thesis using etas(2) [of "en_now e" "gw_stats w"]
      by (intro quiet) (auto simp: next_owed_def apply_event_eta Let_def split: if_splits option.splits)
  next
    case (F_Filter r)
    with assms show ?thesis using etas(3) [of "en_now e" _ "gw_stats w"]
      by (intro quiet) (auto simp: next_owed_def apply_event_eta split: option.splits sum.splits)
  next
    case (F_Limit r)
    with assms show ?thesis using etas(4) [of "en_now e" _ "gw_stats w"]
      by (intro quiet) (auto simp: next_owed_def apply_event_eta Let_def split: option.splits prod.splits if_splits)
  next
    case (F_Serve r)
    with assms show ?thesis using etas(5) [of "en_now e" _ _ 0 0 False "gw_stats w"]
      by (intro quiet) (auto simp: serve_begin_def next_owed_def apply_event_eta Let_def
          split: option.splits prod.splits if_splits sum.splits pick.splits)
  next
    case (F_Call q)
    with assms show ?thesis
      by (intro quiet) (auto simp: next_owed_def split: prod.splits sum.splits dest!: forward_frame)
  next
    case (F_Report q)
    with assms show ?thesis by (intro quiet) (auto simp: next_owed_def)
  next
    case (F_Again q)
    with assms show ?thesis by (intro quiet) (auto simp: next_owed_def split: prod.splits pick.splits)
  next
    case (F_Retry q a)
    with assms show ?thesis
      by (intro quiet) (auto simp: next_owed_def split: prod.splits sum.splits dest!: forward_frame)
  next
    case (F_Down q)
    with assms show ?thesis using etas(5) [of "en_done e" _ _ 0 0 False "gw_stats w"]
      by (intro quiet) (auto simp: next_owed_def apply_event_eta)
  next
    case (F_Health q resp st)
    with assms show ?thesis by (intro quiet) (auto simp: next_owed_def)
  next
    case (F_Stats q resp st)
    show ?thesis
    proof (cases "st \<ge> 500")
      case True
      with F_Stats assms show ?thesis using etas(5) [of "en_done e" _ _ 0 0 _ "gw_stats w"]
        by (intro quiet) (auto simp: next_owed_def apply_event_eta)
    next
      case False
      obtain n k where nk: "(if st \<ge> 200 \<and> st < 300 then CountResults resp else (0, 0)) = (n, k)" by fastforce
      let ?ev = "Ev_Proxy (en_done e) (meta_of (ca_token q)) (ca_chainID q) n k False (\<not> tok_BillingFree (ca_token q))"
      have x: "x = (if n > 0 then Inr (F_Count q resp st n) else Inl (call_reply resp st))"
        and w': "w' = with_stats (apply_event ?ev) w"
        using F_Stats assms False nk by (auto simp: Let_def apply_event_eta)
      have "gw_stats w' = map_option (fold apply_event [?ev]) (gw_stats w)" by (simp add: w')
      moreover have "recorded B key ?ev = of_int (next_owed x B key)" for B key
        by (simp add: x next_owed_def meta_of_def)
      ultimately show ?thesis
        unfolding entered_def by (intro exI [of _ "[?ev]"]) (simp add: F_Stats billed_def w')
    qed
  next
    case (F_Count q resp st n)
    have "(\<lambda>B key. owed B key f) = next_owed x" using F_Count assms by (auto simp: fun_eq_iff next_owed_def)
    then show ?thesis using F_Count assms by (auto intro: entered_same)
  next
    case (F_Publish q resp st n)
    then have "x = Inl (call_reply resp st)" "gw_stats w' = gw_stats w" "gw_events w' = gw_events w @ [call_event e q n w]"
      using assms by auto
    then show ?thesis unfolding entered_def
      by (intro exI [of _ "[]"])
        (simp add: F_Publish billed_def next_owed_def call_event_def http_event_def option.map_id0)
  qed
qed

lemma live_reachable_books:
  assumes "live_reachable cfg s" "gw_valid cfg"
  shows "live_books s"
  using assms(1)
proof (induction rule: live_reachable.induct)
  case (start ids h ks rdb tokenStore)
  let ?w = "new_gateway h ids ks rdb cfg tokenStore"
  let ?start = "RegisterTokens (ListMeta ks tokenStore) NewCollector"
  have "token_counter f key ?start = 0" if "success_counter f B" for f B key
  proof -
    have "f zero_metrics = 0" using that by (auto simp: success_counter_def zero_metrics_def)
    then show ?thesis by (simp add: counter_register) (simp add: token_counter_def NewCollector_def)
  qed
  then show ?case by (auto simp: live_books_def new_gateway_def billed_def)
next
  case (step s s')
  have inv: "live_inv cfg s" using step.hyps(1) assms(2) by (rule live_reachable_inv)
  from step.hyps(2) show ?case
  proof cases
    case (request e)
    from request show ?thesis
    proof cases
      case (arrives c r w M)
      with step.IH show ?thesis by (simp add: live_books_def)
    next
      case (goes_on f w f' w' M)
      from stage_entered [OF goes_on(3)] step.IH goes_on(1,2) show ?thesis
        by (auto intro: live_books_step simp: next_owed_def)
    next
      case (replies f w reply w' M)
      from stage_entered [OF replies(3)] step.IH replies(1,2) show ?thesis
        by (auto intro: live_books_step simp: next_owed_def)
    qed
  next
    case (other w w' M)
    have "booked w w'"
      using gw_step_effect [OF other(3)] live_inv_registry [OF inv assms(2)] inv other by (simp add: live_inv_def)
    then have "entered w (\<lambda>B key. 0) w' (\<lambda>B key. 0)" by (rule entered_booked)
    with step.IH other show ?thesis by (auto intro: live_books_step)
  qed
qed

text \<open>
  C4: the books balance while requests run. In every state with requests in flight, the statistics of a token,
  its billable and its free successes, equal the sums over the billing events plus what the
  requests between these two entries hold; so when none is between them the books are equal, at 64 bits.
\<close>

theorem live_books_balance:
  assumes "live_reachable cfg (w, M)" "gw_valid cfg"
  shows "\<exists>c. gw_stats w = Some c \<and>
    token_counter SuccessCalls key c = of_int (billed (\<lambda>b. True) key w + all_owed (\<lambda>b. True) key M) \<and>
    token_counter BillableCalls key c = of_int (billed (\<lambda>b. b) key w + all_owed (\<lambda>b. b) key M) \<and>
    token_counter FreeCalls key c = of_int (billed Not key w + all_owed Not key M)"
  using live_reachable_books [OF assms] success_counters unfolding live_books_def by fastforce

end
