(* ===== verification/Flight_Quota.thy ===== *)
theory Flight_Quota
  imports Flight_Inv
begin

section \<open>The quota when requests interleave\<close>

text \<open>
  The limiter reads the daily use when a request arrives and the proxy adds to it when the
  upstream has answered. Requests in between have passed the check and are not yet counted. Without Redis and
  within one day of UTC, the use of a token exceeds its quota by less than what these requests
  can count; the last theorem shows that it does exceed it, and without limit.
\<close>

subsection \<open>Requests that may still count\<close>

fun pending_for :: "string \<Rightarrow> flight \<Rightarrow> bool" where
  "pending_for key (F_Serve r) = (\<exists>t. ctx_Token (ht_ctx r) = Some t \<and> tok_Key t = key)"
| "pending_for key (F_Call q) = (tok_Key (ca_token q) = key)"
| "pending_for key (F_Report q) = (tok_Key (ca_token q) = key)"
| "pending_for key (F_Again q) = (tok_Key (ca_token q) = key)"
| "pending_for key (F_Retry q a) = (tok_Key (ca_token q) = key)"
| "pending_for key (F_Health q resp st) = (tok_Key (ca_token q) = key)"
| "pending_for key (F_Stats q resp st) = (tok_Key (ca_token q) = key)"
| "pending_for key (F_Count q resp st n) = (tok_Key (ca_token q) = key)"
| "pending_for key f = False"

definition in_flight :: "string \<Rightarrow> flight multiset \<Rightarrow> nat" where
  "in_flight key M = size (filter_mset (pending_for key) M)"

lemma in_flight_simps [simp]:
  "in_flight key {#} = 0"
  "in_flight key (add_mset f M) = (if pending_for key f then 1 else 0) + in_flight key M"
  by (simp_all add: in_flight_def)

text \<open>The use that the quota check reads, without Redis.\<close>

definition used :: "string \<Rightarrow> string \<Rightarrow> ('l, 'r, 'z) gateway_scheme \<Rightarrow> int" where
  "used key day w = map_get 0 (lm_daily (gw_limiter w)) (key @ '':'' @ day)"



lemma count_stage:
  assumes "lm_rdb l = None" "0 < n"
  shows "lm_rdb (IncrSuccess rops now k n l) = None"
    "map_get 0 (lm_daily (IncrSuccess rops now k n l)) (key @ '':'' @ format_day now) =
      (if key = k then wrap64 (map_get 0 (lm_daily l) (key @ '':'' @ format_day now) + n)
       else map_get 0 (lm_daily l) (key @ '':'' @ format_day now))"
  using assms by (auto simp: IncrSuccess_def Let_def)


subsection \<open>The bound\<close>










subsection \<open>It is exceeded\<close>

text \<open>The stages of the sample request up to the count. The first stages do not touch the limiter.\<close>

lemma sample_host: "HostAllowed (en_ulower sample_env) (sv_Domains (cf_Server sample_gw_config)) host"
  by (simp add: HostAllowed_def sample_config_def)

lemma sample_body_read [simp]: "read_limited two_mb (Inr sample_body) = Inr sample_body"
  by (simp add: read_limited_def two_mb_def sample_body_def dq_def)

lemma sample_body_methods: "ParseMethods (en_jerr sample_env) sample_body = Inr [''eth_blockNumber'']"
  by code_simp

lemma sample_reply_counts: "CountResults sample_reply = (1, 0)"
  by code_simp

lemma sample_key [simp]: "trim_space ''demo'' = ''demo''"
  by code_simp

abbreviation sample_day :: string where
  "sample_day \<equiv> format_day 1000000000"

lemma sample_env_simps [simp]:
  "en_now sample_env = 1000000000" "en_done sample_env = 1000000000" "en_rops sample_env = down_redis"
  "en_lops sample_env = sample_rate_ops" "en_upstream sample_env n u b ua = Inr (200, Inr sample_reply)"
  by (simp_all add: sample_env_def)

lemma sample_lookup: "gw_tokens w = sample_store \<Longrightarrow> Lookup (gw_tokens w) ''demo'' = Some sample_token"
  by (simp add: sample_store_def Lookup_def)

lemma sample_quota_allow:
  "lm_rdb l = None \<Longrightarrow> map_get 0 (lm_daily l) (''demo'' @ '':'' @ sample_day) < 3 \<Longrightarrow>
     Allow down_redis sample_rate_ops 1000000000 sample_token c ip l = (\<lparr>res_Allowed = True, res_Reason = []\<rparr>, l)"
  by (simp add: Allow_def quota_reached_def dailyUsed_def allowBucket_def)

lemma sample_reply_read: "read_limited eight_mb (Inr sample_reply) = Inr sample_reply"
  by (simp add: read_limited_def eight_mb_def sample_reply_def dq_def)

lemma sample_forward:
  "forward sample_env u body ua w = (Inr (sample_reply, 200), w\<lparr>gw_forwards := gw_forwards w @ [(u, body)]\<rparr>)"
  by (simp add: forward_def sample_reply_read Let_def)

lemma live_goes_on:
  "live_reachable cfg (w, add_mset f M) \<Longrightarrow> advance e cfg f w = (Inr f', w') \<Longrightarrow> live_reachable cfg (w', add_mset f' M)"
  by (rule live_reachable.step) (auto intro: live_step.request flight_step.goes_on)

lemma live_replies:
  "live_reachable cfg (w, add_mset f M) \<Longrightarrow> advance e cfg f w = (Inl reply, w') \<Longrightarrow> live_reachable cfg (w', M)"
  by (rule live_reachable.step) (auto intro: live_step.request flight_step.replies)

definition admitted_sample :: request where
  "admitted_sample = (sample_post ''demo'' sample_body (WithMethods (WithChainID (WithToken empty_context (Some sample_token)) ''eth'')
     [''eth_blockNumber'']))"

text \<open>A request that arrives while the use is below the quota passes the check, whatever else is in flight.\<close>

lemma sample_passes:
  fixes w :: "(int, unit) ws_gateway"
  assumes "live_reachable sample_gw_config (w, M)" "gw_tokens w = sample_store"
    and "lm_rdb (gw_limiter w) = None" "used ''demo'' sample_day w < 3"
  shows "live_reachable sample_gw_config (w, add_mset (F_Serve admitted_sample) M)"
proof -
  let ?r = "sample_post ''demo'' sample_body empty_context" and ?cfg = sample_gw_config
  let ?ctx = "WithChainID (WithToken empty_context (Some sample_token)) ''eth''"
  let ?r1 = "?r\<lparr>ht_ctx := ?ctx\<rparr>"
  have "live_step ?cfg (w, M) (w, add_mset (F_Host ''eth'' ?r) M)"
    by (intro live_step.request [of sample_env] flight_step.arrives) (simp_all add: sample_chains_def)
  with assms(1) have "live_reachable ?cfg (w, add_mset (F_Host ''eth'' ?r) M)" by (rule live_reachable.step)
  then have "live_reachable ?cfg (w, add_mset (F_Auth ''eth'' ?r) M)"
    by (rule live_goes_on [where e = sample_env]) (simp add: sample_host [simplified])
  then have "live_reachable ?cfg (w, add_mset (F_Filter ?r1) M)"
    by (rule live_goes_on [where e = sample_env]) (simp add: sample_lookup [OF assms(2)])
  then have "live_reachable ?cfg (w, add_mset (F_Limit (?r1\<lparr>ht_Body := Inr sample_body, ht_ctx := WithMethods ?ctx [''eth_blockNumber'']\<rparr>)) M)"
    by (rule live_goes_on [where e = sample_env]) (simp add: sample_body_methods CheckMethods_def)
  moreover have "?r1\<lparr>ht_Body := Inr sample_body, ht_ctx := WithMethods ?ctx [''eth_blockNumber'']\<rparr> = admitted_sample"
    by (simp add: admitted_sample_def sample_post_def)
  ultimately have "live_reachable ?cfg (w, add_mset (F_Limit admitted_sample) M)" by simp
  then show ?thesis
  proof (rule live_goes_on [where e = sample_env])
    show "advance sample_env ?cfg (F_Limit admitted_sample) w = (Inr (F_Serve admitted_sample), w)"
      using assms(3,4) by (simp add: admitted_sample_def sample_quota_allow used_def)
  qed
qed

text \<open>From there it is counted, whatever the use has become.\<close>

lemma sample_counts:
  fixes w :: "(int, unit) ws_gateway"
  assumes "live_reachable sample_gw_config (w, add_mset (F_Serve admitted_sample) M)" "lm_rdb (gw_limiter w) = None"
  shows "\<exists>w' :: (int, unit) ws_gateway. live_reachable sample_gw_config (w', M) \<and> lm_rdb (gw_limiter w') = None \<and>
    used ''demo'' sample_day w' = wrap64 (used ''demo'' sample_day w + 1)"
proof -
  let ?cfg = sample_gw_config
  have inv: "live_inv ?cfg (w, add_mset (F_Serve admitted_sample) M)" by (rule live_reachable_inv [OF assms(1) sample_gw_valid])
  have "reg_inv (gw_registry w)" "rg_pools (gw_registry w) ''eth'' \<noteq> None"
    using live_inv_registry [OF inv sample_gw_valid] by (auto simp: sample_chains_def dom_def split: if_splits)
  then obtain a g where n: "pool_next ''eth'' (gw_registry w) = (Pick a, g)" by (rule pool_next_picks)
  have there: "lookup_pool (gw_registry w) ''eth'' \<noteq> None"
    using \<open>rg_pools (gw_registry w) ''eth'' \<noteq> None\<close> by (simp add: lookup_pool_def)
  obtain q w1 where q: "advance sample_env ?cfg (F_Serve admitted_sample) w = (Inr (F_Call q), w1)"
    and key: "tok_Key (ca_token q) = ''demo''" and l: "gw_limiter w1 = gw_limiter w"
    using there n by (auto simp: serve_begin_def admitted_sample_def Let_def)
  have "live_reachable ?cfg (w1, add_mset (F_Call q) M)" using assms(1) q by (rule live_goes_on)
  then obtain w2 where "live_reachable ?cfg (w2, add_mset (F_Health q sample_reply 200) M)" and l2: "gw_limiter w2 = gw_limiter w"
    using live_goes_on [where e = sample_env and f = "F_Call q"] l by (fastforce simp: sample_forward)
  then obtain w3 where "live_reachable ?cfg (w3, add_mset (F_Stats q sample_reply 200) M)" and l3: "gw_limiter w3 = gw_limiter w"
    using live_goes_on [where e = sample_env and f = "F_Health q sample_reply 200"] by fastforce
  then obtain w4 where "live_reachable ?cfg (w4, add_mset (F_Count q sample_reply 200 1) M)" and l4: "gw_limiter w4 = gw_limiter w"
    using live_goes_on [where e = sample_env and f = "F_Stats q sample_reply 200"] by (fastforce simp: sample_reply_counts)
  then obtain w5 where r5: "live_reachable ?cfg (w5, add_mset (F_Publish q sample_reply 200 1) M)"
    and l5: "gw_limiter w5 = IncrSuccess down_redis 1000000000 ''demo'' 1 (gw_limiter w)"
    using live_goes_on [where e = sample_env and f = "F_Count q sample_reply 200 1"] key by fastforce
  then obtain w6 where r6: "live_reachable ?cfg (w6, M)"
    and l6: "gw_limiter w6 = IncrSuccess down_redis 1000000000 ''demo'' 1 (gw_limiter w)"
    using live_replies [where e = sample_env and f = "F_Publish q sample_reply 200 1"] by fastforce
  with count_stage(1) [OF assms(2), where n = 1 and rops = down_redis and now = 1000000000 and k = "''demo''"]
    count_stage(2) [OF assms(2), where n = 1 and rops = down_redis and now = 1000000000 and k = "''demo''" and key = "''demo''"] show ?thesis
    by (auto simp: used_def)
qed

text \<open>Any number of requests pass the check before the first of them is counted.\<close>

lemma many_pass:
  "\<exists>w :: (int, unit) ws_gateway. live_reachable sample_gw_config (w, replicate_mset k (F_Serve admitted_sample)) \<and>
     gw_tokens w = sample_store \<and> lm_rdb (gw_limiter w) = None \<and> used ''demo'' sample_day w = 0"
proof (induction k)
  case 0
  have "live_reachable sample_gw_config (sample_gateway, {#})"
    unfolding sample_gateway_def by (rule live_reachable.start) (simp add: sample_enumerates)
  then show ?case by (auto simp: sample_gateway_def new_gateway_def New_def used_def)
next
  case (Suc k)
  then obtain w :: "(int, unit) ws_gateway" where
    w: "live_reachable sample_gw_config (w, replicate_mset k (F_Serve admitted_sample))" "gw_tokens w = sample_store"
      "lm_rdb (gw_limiter w) = None" "used ''demo'' sample_day w = 0" by blast
  with sample_passes [OF w(1-3)] show ?case by auto
qed

lemma many_counted:
  fixes w :: "(int, unit) ws_gateway"
  assumes "live_reachable sample_gw_config (w, replicate_mset k (F_Serve admitted_sample))" "lm_rdb (gw_limiter w) = None"
  shows "\<exists>w' :: (int, unit) ws_gateway. live_reachable sample_gw_config (w', {#}) \<and>
    used ''demo'' sample_day w' = (if k = 0 then used ''demo'' sample_day w else wrap64 (used ''demo'' sample_day w + int k))"
  using assms
proof (induction k arbitrary: w)
  case 0
  then show ?case by auto
next
  case (Suc k)
  from Suc.prems have "live_reachable sample_gw_config
      (w, add_mset (F_Serve admitted_sample) (replicate_mset k (F_Serve admitted_sample)))" by simp
  from sample_counts [OF this Suc.prems(2)] obtain w1 :: "(int, unit) ws_gateway" where
    w1: "live_reachable sample_gw_config (w1, replicate_mset k (F_Serve admitted_sample))" "lm_rdb (gw_limiter w1) = None"
      "used ''demo'' sample_day w1 = wrap64 (used ''demo'' sample_day w + 1)" by blast
  from Suc.IH [OF w1(1,2)] obtain w2 :: "(int, unit) ws_gateway" where "live_reachable sample_gw_config (w2, {#})"
    and "used ''demo'' sample_day w2 = (if k = 0 then used ''demo'' sample_day w1 else wrap64 (used ''demo'' sample_day w1 + int k))"
    by blast
  with w1(3) show ?case by (intro exI [of _ w2]) (auto simp: add.assoc)
qed

text \<open>
  C23: the check of the quota is a race. On the sample configuration, whose token has a daily quota of 3, the
  gateway reaches for every \<open>k\<close> a state with no request in flight in which the token has
  used \<open>k\<close> calls on one day: \<open>k\<close> requests that arrive together all pass the check before the first of
  them is counted.
\<close>

theorem quota_race:
  assumes "k < 9223372036854775808"
  shows "tok_DailyQuota sample_token = 3 \<and>
    (\<exists>w :: (int, unit) ws_gateway. live_reachable sample_gw_config (w, {#}) \<and> used ''demo'' sample_day w = int k)"
proof -
  obtain w :: "(int, unit) ws_gateway" where
    w: "live_reachable sample_gw_config (w, replicate_mset k (F_Serve admitted_sample))" "lm_rdb (gw_limiter w) = None"
      "used ''demo'' sample_day w = 0" using many_pass by blast
  from many_counted [OF w(1,2)] w(3) assms show ?thesis by (auto simp: wrap64_id split: if_splits)
qed

theorem quota_race_witness:
  "tok_DailyQuota sample_token < 1000 \<and>
   (\<exists>w :: (int, unit) ws_gateway. live_reachable sample_gw_config (w, {#}) \<and> used ''demo'' sample_day w = 1000)"
  using quota_race [of 1000] by simp



text \<open>The other two theorems on requests in flight, where two of them have passed the check.\<close>

theorem live_books_balance_witness:
  "\<exists>(w :: (int, unit) ws_gateway) c. live_reachable sample_gw_config (w, replicate_mset 2 (F_Serve admitted_sample)) \<and>
     gw_stats w = Some c \<and> token_counter SuccessCalls ''demo'' c = of_int (billed (\<lambda>b. True) ''demo'' w)"
proof -
  obtain w :: "(int, unit) ws_gateway" where
    w: "live_reachable sample_gw_config (w, replicate_mset 2 (F_Serve admitted_sample))" using many_pass by blast
  from live_books_balance [OF w sample_gw_valid, of "''demo''"] w show ?thesis by (auto simp: numeral_2_eq_2)
qed


end
