(* ===== verification/Settlement.thy ===== *)
theory Settlement
  imports Gateway_Access Billing_Spec
begin

section \<open>From requests to the ledger\<close>

text \<open>
  The goroutines that publish billing events run concurrently with everything else: each publishes its event
  once, at some time, and may fail. What ends up in the ledger is compared with the events that
  the gateway handed over, and so with the statistics and with the daily use that the quota reads.
\<close>

subsection \<open>Publishing with a database\<close>

text \<open>The ledger after some publications, and which of them it recorded.\<close>

fun ledger_run :: "(services \<times> billing_event) list \<Rightarrow> ledger \<Rightarrow> ledger" where
  "ledger_run [] db = db"
| "ledger_run ((sv, ev) # es) db = ledger_run es (snd (postgres_publish sv ev db))"

fun delivered :: "(services \<times> billing_event) list \<Rightarrow> ledger \<Rightarrow> billing_event list" where
  "delivered [] db = []"
| "delivered ((sv, ev) # es) db =
     (if fst (postgres_publish sv ev db) = None then [ev] else []) @ delivered es (snd (postgres_publish sv ev db))"

fun lost :: "(services \<times> billing_event) list \<Rightarrow> ledger \<Rightarrow> billing_event list" where
  "lost [] db = []"
| "lost ((sv, ev) # es) db =
     (if fst (postgres_publish sv ev db) = None then [] else [ev]) @ lost es (snd (postgres_publish sv ev db))"

lemma publish_run_ledger:
  "sk_db (fold (\<lambda>(sv, ev) w. snd (Publish sv (NewPublisher kind streamKey redis True) ev w)) es w) = ledger_run es (sk_db w)"
  by (induction es arbitrary: w) (auto simp: publish_reaches_sinks)

lemma delivered_lost:
  "billed_sum P (map snd es) = billed_sum P (delivered es db) + billed_sum P (lost es db)"
  by (induction es db rule: delivered.induct) auto

lemma billed_sum_perm: "mset es = mset es' \<Longrightarrow> billed_sum P es = billed_sum P es'"
proof -
  assume "mset es = mset es'"
  then have "mset (map ev_SuccessN (filter P es)) = mset (map ev_SuccessN (filter P es'))" by simp
  then show ?thesis unfolding billed_sum_def by (metis sum_mset_sum_list)
qed

text \<open>One publication of an event that the ledger does not have.\<close>

definition success_at :: "ledger \<Rightarrow> string \<Rightarrow> string \<Rightarrow> int" where
  "success_at db key day = us_success_count (usage_at db key day)"

lemma postgres_publish_step:
  assumes "postgres_publish sv ev db = (err, db')" "\<not> has_event db (ev_EventID ev)" "0 < ev_SuccessN ev"
  shows "success_at db' key day = success_at db key day +
      (if err = None \<and> ev_TokenKey ev = key \<and> format_day (ev_At ev) = day then ev_SuccessN ev else 0)"
    and "has_event db' i \<Longrightarrow> i = ev_EventID ev \<or> has_event db i"
proof -
  have both: "success_at db' key day = success_at db key day +
      (if err = None \<and> ev_TokenKey ev = key \<and> format_day (ev_At ev) = day then ev_SuccessN ev else 0) \<and>
    (has_event db' i \<longrightarrow> i = ev_EventID ev \<or> has_event db i)"
  proof (cases "ev_Billable ev")
    case True
    then have "RecordBillableSuccess (sv_uuid sv) (sv_db sv) ev db = (err, db')"
      using assms(1) by (simp add: postgres_publish_def)
    then show ?thesis
    proof (cases rule: RecordBillableSuccess_cases)
      case failed
      then show ?thesis by auto
    next
      case known
      with assms(2) show ?thesis by simp
    next
      case (booked tx)
      note i = insert_event_Inr [OF booked(2)] and up = upsert_usage_Inr [OF booked(4)]
      have "usage_at tx k d = usage_at db k d" for k d using i by (simp add: usage_at_def)
      then have "success_at db' key day = success_at db key day +
          (if ev_TokenKey ev = key \<and> format_day (ev_At ev) = day then ev_SuccessN ev else 0)"
        using up by (auto simp: success_at_def)
      with booked(1) i up show ?thesis by (auto simp: has_event_def)
    qed
  next
    case False
    then have p: "IncrUsageDaily (sv_db sv) (ev_TokenKey ev) (ev_At ev) (ev_SuccessN ev) 0 db = (err, db')"
      using assms(1) by (simp add: postgres_publish_def)
    show ?thesis
    proof (cases "err = None")
      case True
      then have up: "upsert_usage (ev_TokenKey ev) (format_day (ev_At ev)) (ev_SuccessN ev) 0 db = Inr db'"
        using p assms(3) by (auto simp: IncrUsageDaily_def Let_def split: sum.splits if_splits)
      from upsert_usage_Inr [OF up] True show ?thesis by (auto simp: success_at_def has_event_def)
    next
      case False
      then have "db' = db" using p by (auto simp: IncrUsageDaily_def Let_def split: sum.splits if_splits)
      with False show ?thesis by auto
    qed
  qed
  show "success_at db' key day = success_at db key day +
      (if err = None \<and> ev_TokenKey ev = key \<and> format_day (ev_At ev) = day then ev_SuccessN ev else 0)"
    and "has_event db' i \<Longrightarrow> i = ev_EventID ev \<or> has_event db i" using both by simp_all
qed

lemma ledger_run_success:
  "distinct (map ev_EventID (map snd es)) \<Longrightarrow> \<forall>ev \<in> set (map snd es). 0 < ev_SuccessN ev \<and> \<not> has_event db (ev_EventID ev) \<Longrightarrow>
     success_at (ledger_run es db) key day = success_at db key day +
       billed_sum (\<lambda>ev. ev_TokenKey ev = key \<and> format_day (ev_At ev) = day) (delivered es db)"
proof (induction es db rule: delivered.induct)
  case (1 db)
  then show ?case by simp
next
  case (2 sv ev es db)
  obtain err db' where p: "postgres_publish sv ev db = (err, db')" by fastforce
  note step = postgres_publish_step [OF p]
  have ev: "\<not> has_event db (ev_EventID ev)" "0 < ev_SuccessN ev" using "2.prems"(2) by simp_all
  have "\<forall>x \<in> set (map snd es). 0 < ev_SuccessN x \<and> \<not> has_event db' (ev_EventID x)"
  proof
    fix x assume x: "x \<in> set (map snd es)"
    then have "ev_EventID x \<in> set (map ev_EventID (map snd es))" by (simp only: set_map imageI)
    moreover have "ev_EventID ev \<notin> set (map ev_EventID (map snd es))" using "2.prems"(1) by (simp del: map_map set_map)
    ultimately have "ev_EventID x \<noteq> ev_EventID ev" by metis
    moreover have "0 < ev_SuccessN x \<and> \<not> has_event db (ev_EventID x)" using "2.prems"(2) x by auto
    ultimately show "0 < ev_SuccessN x \<and> \<not> has_event db' (ev_EventID x)" using step(2) [OF ev, of "ev_EventID x"] by auto
  qed
  with "2.IH" "2.prems"(1) step(1) [OF ev, of key day] show ?case by (simp add: p)
qed

subsection \<open>All books at the end of the day\<close>

text \<open>The successes of the lost events of a token, on a day or on all.\<close>

definition lost_sum :: "(billing_event \<Rightarrow> bool) \<Rightarrow> (services \<times> billing_event) list \<Rightarrow> int" where
  "lost_sum P es = billed_sum P (lost es (sk_db empty_sinks))"

text \<open>
  C8: the four books of one use. Take any reachable state, a connected database, and publications, in any
  order and with any failures, of events handed over so far, each at most once, while the events \<open>waiting\<close> are still
  to come; event identifiers are unique. Then for every token and day the ledger's success count is the
  sum over the events it recorded; the statistics of the token count these, the lost and the
  waiting ones; and without Redis the daily use that the quota reads is the ledger's count of the day plus what was lost or
  waits. So the books differ by exactly the publications that failed or are yet to run.
\<close>

theorem ledger_matches_quota:
  fixes w :: "('l, 'r) ws_gateway"
  assumes "gw_reachable cfg w" "gw_valid cfg"
    and "mset (map snd es) + mset waiting = mset (gw_events w)" "distinct (map ev_EventID (gw_events w))"
    and db: "db = sk_db (publish_run (NewPublisher kind streamKey redis True) es)"
  shows "success_at db key day =
      billed_sum (\<lambda>ev. ev_TokenKey ev = key \<and> format_day (ev_At ev) = day) (delivered es (sk_db empty_sinks)) \<and>
    (\<exists>c. gw_stats w = Some c \<and> token_counter SuccessCalls key c =
       of_int (billed_sum (\<lambda>ev. ev_TokenKey ev = key) (delivered es (sk_db empty_sinks)) + lost_sum (\<lambda>ev. ev_TokenKey ev = key) es +
         billed_sum (\<lambda>ev. ev_TokenKey ev = key) waiting)) \<and>
    (lm_rdb (gw_limiter w) \<noteq> None \<or>
      dailyUsed rops key (format_day now) (gw_limiter w) =
        Inr (wrap64 (success_at db key (format_day now) +
          lost_sum (\<lambda>ev. ev_TokenKey ev = key \<and> format_day (ev_At ev) = format_day now) es +
          billed_sum (\<lambda>ev. ev_TokenKey ev = key \<and> format_day (ev_At ev) = format_day now) waiting)))"
proof -
  let ?empty = "sk_db empty_sinks"
  have run: "db = ledger_run es ?empty" by (simp add: db publish_run_def publish_run_ledger)
  obtain h ids ks rdb ts where "booked (new_gateway h ids ks rdb cfg ts) w"
    using gw_reachable_inv [OF assms(1,2)] unfolding gw_inv_def by blast
  note books = booked_from_start [OF this, where key = key and rops = rops and now = now]
  have all: "mset (map snd es @ waiting) = mset (gw_events w)" using assms(3) by simp
  have sums: "billed_sum P (gw_events w) = billed_sum P (delivered es ?empty) + lost_sum P es + billed_sum P waiting" for P
    using billed_sum_perm [OF all, of P] delivered_lost [of P es ?empty] by (simp add: lost_sum_def)
  have ids: "distinct (map ev_EventID (map snd es))"
  proof -
    have "mset (map ev_EventID (map snd es @ waiting)) = mset (map ev_EventID (gw_events w))"
      using all by (metis mset_map)
    then have "distinct (map ev_EventID (map snd es @ waiting))" using assms(4) by (metis mset_eq_imp_distinct_iff)
    then show ?thesis by simp
  qed
  have "set (map snd es) \<subseteq> set (gw_events w)" using mset_eq_setD [OF all] by auto
  then have "\<forall>ev \<in> set (map snd es). 0 < ev_SuccessN ev \<and> \<not> has_event ?empty (ev_EventID ev)"
    using books by (auto simp: list_all_iff has_event_def empty_sinks_def)
  from ledger_run_success [OF ids this] have ledger: "success_at db key d =
      billed_sum (\<lambda>ev. ev_TokenKey ev = key \<and> format_day (ev_At ev) = d) (delivered es ?empty)" for d
    by (simp add: run) (simp add: success_at_def usage_at_def empty_sinks_def)
  from books show ?thesis by (auto simp: ledger sums)
qed

text \<open>The sample notification, published by a database that accepts it.\<close>

definition sample_services :: services where
  "sample_services = \<lparr>sv_uuid = (\<lambda>s. True), sv_db = \<lparr>df_begin = None, df_event = None, df_usage = None, df_commit = None\<rparr>,
     sv_xadd = None\<rparr>"

theorem ledger_matches_quota_witness:
  "success_at (sk_db (publish_run (NewPublisher ''postgres'' [] False True) (map (Pair sample_services) (gw_events sample_pushed))))
     ''demo'' (format_day 1000000000) =
   billed_sum (\<lambda>ev. ev_TokenKey ev = ''demo'' \<and> format_day (ev_At ev) = format_day 1000000000)
     (delivered (map (Pair sample_services) (gw_events sample_pushed)) (sk_db empty_sinks))"
proof -
  have "length (gw_events sample_pushed) = 1" using arg_cong [OF sample_pushed_events, of length] by simp
  then have "distinct (map ev_EventID (gw_events sample_pushed))"
    by (auto simp: length_Suc_conv)
  moreover have "map snd (map (Pair sample_services) (gw_events sample_pushed)) = gw_events sample_pushed" by (simp add: o_def)
  ultimately show ?thesis
    using ledger_matches_quota [OF sample_pushed_reachable sample_gw_valid,
        of "map (Pair sample_services) (gw_events sample_pushed)" "[]" _ "''postgres''" "[]" False "''demo''" "format_day 1000000000"]
    by simp
qed

end
