(* ===== verification/Json_Write.thy ===== *)
theory Json_Write
  imports Json_Roundtrip Billing
begin

section \<open>JSON documents\<close>

text \<open>
  The values that \<open>json.Marshal\<close> writes, as trees, the text it writes for them, and what the parser
  of Theory \<open>Json\<close> reads from that text: the same tree, with invalid UTF-8 replaced. The billing
  events on the Redis stream and the replies of the admin API are such documents.
\<close>

declare pval.simps [simp del] pelems.simps [simp del] pmems.simps [simp del] coerce_utf8.simps [simp del]

subsection \<open>Trees and their text\<close>

datatype doc =
    DNull
  | DBool bool
  | DInt int
  | DText string
  | DList "doc list"
  | DObject "(string \<times> doc) list"

fun write_doc :: "doc \<Rightarrow> string" where
  "write_doc DNull = ''null''"
| "write_doc (DBool b) = json_bool b"
| "write_doc (DInt i) = show_int i"
| "write_doc (DText s) = json_quote s"
| "write_doc (DList ts) = ''['' @ join '','' (map write_doc ts) @ '']''"
| "write_doc (DObject ms) = ''{'' @ join '','' (map (\<lambda>(k, t). json_member k (write_doc t)) ms) @ ''}''"

text \<open>
  What a reader gets, a value without the texts it was read from: those of a parsed value are dropped
  by \<open>bare\<close>.
\<close>

fun bare :: "jval \<Rightarrow> jval" where
  "bare JNull = JNull"
| "bare (JBool b) = JBool b"
| "bare (JNum s) = JNum s"
| "bare (JStr s r) = JStr s []"
| "bare (JArr vs r) = JArr (map bare vs) []"
| "bare (JObj ms r) = JObj (map (\<lambda>(k, v). (k, bare v)) ms) []"

fun doc_value :: "doc \<Rightarrow> jval" where
  "doc_value DNull = JNull"
| "doc_value (DBool b) = JBool b"
| "doc_value (DInt i) = JNum (show_int i)"
| "doc_value (DText s) = JStr (coerce_utf8 s) []"
| "doc_value (DList ts) = JArr (map doc_value ts) []"
| "doc_value (DObject ms) = JObj (map (\<lambda>(k, t). (coerce_utf8 k, doc_value t)) ms) []"

text \<open>The parser stops at its maximal depth; \<open>d\<close> is how deep the document stands.\<close>

fun shallow :: "nat \<Rightarrow> doc \<Rightarrow> bool" where
  "shallow d (DList ts) = (d < max_depth \<and> list_all (shallow (Suc d)) ts)"
| "shallow d (DObject ms) = (d < max_depth \<and> list_all (\<lambda>(k, t). shallow (Suc d) t) ms)"
| "shallow d t = True"

subsection \<open>Reading what is written\<close>

definition reads_back :: "doc \<Rightarrow> bool" where
  "reads_back t \<longleftrightarrow> (\<forall>n d r. size t < n \<longrightarrow> shallow d t \<longrightarrow> (\<forall>i. t \<noteq> DInt i) \<or> ends_number r \<longrightarrow>
     (\<exists>v. pval n d (write_doc t @ r) = Some (v, r) \<and> bare v = doc_value t))"

lemma write_doc_head:
  "write_doc t \<noteq> [] \<and> hd (write_doc t) \<notin> {CHR 0x20, CHR 0x09, CHR 0x0D, CHR 0x0A, CHR '']''}"
proof (cases t)
  case (DInt i)
  obtain c cs where "show_int i = c # cs" "c = CHR ''-'' \<or> is_digit c" using show_int_head by blast
  with DInt show ?thesis by (auto simp: is_digit_def Let_def)
qed (simp_all add: json_bool_def json_quote_def quote_def)

lemma skip_write: "skip_ws (write_doc t @ r) = write_doc t @ r"
  using write_doc_head [of t] by (cases "write_doc t") (simp_all add: skip_ws_head)

text \<open>The elements of a list, up to its closing bracket.\<close>

lemma elements_read:
  assumes "\<And>t. t \<in> set ts \<Longrightarrow> reads_back t" "ts \<noteq> []" "size_list size ts < n" "list_all (shallow d) ts"
  shows "\<exists>vs. pelems n d (join '','' (map write_doc ts) @ CHR '']'' # r) = Some (vs, r) \<and> map bare vs = map doc_value ts"
  using assms
proof (induction ts arbitrary: n)
  case Nil
  then show ?case by simp
next
  case (Cons t ts)
  obtain m where n: "n = Suc m" using Cons.prems(3) by (cases n) auto
  have t: "size t < m" "shallow d t" "reads_back t" using Cons.prems by (simp_all add: n)
  show ?case
  proof (cases "ts = []")
    case True
    have "ends_number (CHR '']'' # r)" by (simp add: ends_number_def)
    with t obtain v where "pval m d (write_doc t @ CHR '']'' # r) = Some (v, CHR '']'' # r)" "bare v = doc_value t"
      unfolding reads_back_def by blast
    with True show ?thesis by (simp add: n pelems.simps skip_ws_head)
  next
    case False
    let ?r = "join '','' (map write_doc ts) @ CHR '']'' # r"
    have "ends_number (CHR '','' # ?r)" by (simp add: ends_number_def)
    with t obtain v where v: "pval m d (write_doc t @ CHR '','' # ?r) = Some (v, CHR '','' # ?r)" "bare v = doc_value t"
      unfolding reads_back_def by blast
    obtain u us where ts: "ts = u # us" using False by (cases ts) auto
    have "skip_ws ?r = ?r"
      using skip_write [of u] by (cases us) (simp_all add: ts)
    moreover obtain vs where "pelems m d ?r = Some (vs, r)" "map bare vs = map doc_value ts"
      using Cons.IH [of m] Cons.prems False by (auto simp: n)
    moreover have "join '','' (map write_doc (t # ts)) @ CHR '']'' # r = write_doc t @ CHR '','' # ?r" by (simp add: ts)
    ultimately show ?thesis using v by (auto simp: n pelems.simps(2) skip_ws_head simp del: join.simps)
  qed
qed

lemma members_read:
  assumes "\<And>k t. (k, t) \<in> set ms \<Longrightarrow> reads_back t" "ms \<noteq> []"
    "size_list (size_prod (\<lambda>k. 0) size) ms < n" "list_all (\<lambda>(k, t). shallow d t) ms"
  shows "\<exists>vs. pmems n d (join '','' (map (\<lambda>(k, t). json_member k (write_doc t)) ms) @ CHR ''}'' # r) = Some (vs, r) \<and>
    map (\<lambda>(k, v). (k, bare v)) vs = map (\<lambda>(k, t). (coerce_utf8 k, doc_value t)) ms"
  using assms
proof (induction ms arbitrary: n)
  case Nil
  then show ?case by simp
next
  case (Cons kt ms)
  obtain k t where kt: "kt = (k, t)" by (cases kt)
  obtain m where n: "n = Suc m" using Cons.prems(3) by (cases n) auto
  have t: "size t < m" "shallow d t" using Cons.prems by (simp_all add: n kt)
  have rt: "reads_back t" by (rule Cons.prems(1) [of k]) (simp add: kt)
  let ?text = "\<lambda>ms. join '','' (map (\<lambda>(k, t). json_member k (write_doc t)) ms)"
  show ?case
  proof (cases "ms = []")
    case True
    have "ends_number (CHR ''}'' # r)" by (simp add: ends_number_def)
    with t rt obtain v where "pval m d (write_doc t @ CHR ''}'' # r) = Some (v, CHR ''}'' # r)" "bare v = doc_value t"
      unfolding reads_back_def by blast
    with True pmems_member [of m d "write_doc t" "CHR ''}''" r v k] show ?thesis
      by (simp add: n kt json_member_def skip_write)
  next
    case False
    let ?r = "?text ms @ CHR ''}'' # r"
    have "ends_number (CHR '','' # ?r)" by (simp add: ends_number_def)
    with t rt obtain v where v: "pval m d (write_doc t @ CHR '','' # ?r) = Some (v, CHR '','' # ?r)" "bare v = doc_value t"
      unfolding reads_back_def by blast
    obtain k' u us where ms: "ms = (k', u) # us" using False by (cases ms) auto
    have "skip_ws ?r = ?r"
      by (cases us) (simp_all add: ms json_member_def skip_ws_quote)
    moreover obtain vs where "pmems m d ?r = Some (vs, r)"
      "map (\<lambda>(k, v). (k, bare v)) vs = map (\<lambda>(k, t). (coerce_utf8 k, doc_value t)) ms"
      using Cons.IH [of m] Cons.prems False by (auto simp: n)
    moreover have "?text (kt # ms) @ CHR ''}'' # r = json_quote k @ CHR '':'' # write_doc t @ CHR '','' # ?r"
      by (simp add: ms kt json_member_def)
    ultimately show ?thesis
      using v pmems_member [of m d "write_doc t" "CHR '',''" ?r v k] by (simp add: n kt skip_write del: join.simps)
  qed
qed

lemma write_reads_back: "reads_back t"
proof (induction t)
  case (DList ts)
  show ?case
    unfolding reads_back_def
  proof (intro allI impI)
    fix n d r assume n: "size (DList ts) < n" and d: "shallow d (DList ts)"
    obtain m where m: "n = Suc m" using n by (cases n) auto
    show "\<exists>v. pval n d (write_doc (DList ts) @ r) = Some (v, r) \<and> bare v = doc_value (DList ts)"
    proof (cases "ts = []")
      case True
      with d show ?thesis by (simp add: m pval.simps quote_def skip_ws_head)
    next
      case False
      let ?r = "join '','' (map write_doc ts) @ CHR '']'' # r"
      obtain vs where vs: "pelems m (Suc d) ?r = Some (vs, r)" "map bare vs = map doc_value ts"
        using elements_read [of ts m "Suc d" r] DList n d m False by auto
      obtain t us where ts: "ts = t # us" using False by (cases ts) auto
      have "\<exists>c cs. ?r = c # cs \<and> c \<noteq> CHR '']'' \<and> skip_ws ?r = ?r"
        using write_doc_head [of t] skip_write [of t] by (cases us; cases "write_doc t") (simp_all add: ts)
      then obtain c cs where r: "?r = c # cs" "c \<noteq> CHR '']''" "skip_ws ?r = ?r" by blast
      have "write_doc (DList ts) @ r = CHR ''['' # ?r" by simp
      with vs r d show ?thesis by (simp add: m pval.simps quote_def del: write_doc.simps)
    qed
  qed
next
  case (DObject ms)
  show ?case
    unfolding reads_back_def
  proof (intro allI impI)
    fix n d r assume n: "size (DObject ms) < n" and d: "shallow d (DObject ms)"
    obtain m where m: "n = Suc m" using n by (cases n) auto
    show "\<exists>v. pval n d (write_doc (DObject ms) @ r) = Some (v, r) \<and> bare v = doc_value (DObject ms)"
    proof (cases "ms = []")
      case True
      with d show ?thesis by (simp add: m pval.simps quote_def skip_ws_head)
    next
      case False
      let ?r = "join '','' (map (\<lambda>(k, t). json_member k (write_doc t)) ms) @ CHR ''}'' # r"
      have "reads_back t" if "(k, t) \<in> set ms" for k t using DObject [OF that] by simp
      then obtain vs where vs: "pmems m (Suc d) ?r = Some (vs, r)"
        "map (\<lambda>(k, v). (k, bare v)) vs = map (\<lambda>(k, t). (coerce_utf8 k, doc_value t)) ms"
        using members_read [of ms m "Suc d" r] n d m False by auto
      obtain k t us where ms: "ms = (k, t) # us" using False by (cases ms) auto
      have "\<exists>r'. ?r = json_quote k @ r'"
        by (cases us) (simp_all add: ms json_member_def)
      then obtain r' where r: "?r = json_quote k @ r'" by blast
      from pval_object [of m d k r' vs r] vs(1) d obtain src where
        "pval n d (CHR ''{'' # ?r) = Some (JObj vs src, r)" unfolding r m by auto
      with vs(2) show ?thesis by simp
    qed
  qed
next
  case (DInt i)
  show ?case by (auto simp: reads_back_def pval_int gr0_conv_Suc)
next
  case (DText s)
  show ?case by (auto simp: reads_back_def pval_quote gr0_conv_Suc)
next
  case DNull
  show ?case using pval_null_text by (auto simp: reads_back_def gr0_conv_Suc)
next
  case (DBool b)
  show ?case by (auto simp: reads_back_def gr0_conv_Suc json_bool_def pval.simps quote_def has_prefix_def)
qed

text \<open>A document with the newline of the encoder, or without.\<close>

lemma parse_written:
  assumes "shallow 0 t" "\<forall>i. t \<noteq> DInt i" "skip_ws r = []"
  shows "map_option bare (parse_json (write_doc t @ r)) = Some (doc_value t)"
proof -
  let ?n = "2 * length (write_doc t @ r) + 1 + Suc (size t)"
  obtain v where "pval ?n 0 (write_doc t @ r) = Some (v, r)" "bare v = doc_value t"
    using write_reads_back [of t] assms(1,2) unfolding reads_back_def by (metis less_Suc_eq trans_less_add2)
  then show ?thesis
    by (subst parse_json_fuel [of _ ?n]) (simp_all add: skip_write assms(3))
qed

end
