(* ===== verification/Json_Docs.thy ===== *)
theory Json_Docs
  imports Json_Write Admin
begin

section \<open>What the gateway writes: billing events and admin replies\<close>

text \<open>
  The documents of a billing event and of the replies of the admin API, as the struct tags of
  \<open>internal/model\<close>, \<open>internal/stats\<close> and \<open>internal/balancer\<close> lay them out: fields in their order, those
  with \<open>omitempty\<close> left out when empty. \<open>json.Marshal\<close> writes a map with its keys in order; a list of
  the keys, in any order, is the argument \<open>ids\<close>. The times are those of a 64-bit clock, so that their
  encoding never fails.
\<close>

declare pval.simps [simp del] pelems.simps [simp del] pmems.simps [simp del] coerce_utf8.simps [simp del]

subsection \<open>Billing events\<close>

definition event_doc :: "billing_event \<Rightarrow> doc" where
  "event_doc ev = DObject
     ([(''event_id'', DText (ev_EventID ev)), (''token_key'', DText (ev_TokenKey ev)),
       (''token_name'', DText (ev_TokenName ev))] @
      (if ev_UserID ev = [] then [] else [(''user_id'', DText (ev_UserID ev))]) @
      [(''plan'', DText (ev_Plan ev)), (''chain_id'', DText (ev_ChainID ev)),
       (''methods'', if ev_Methods ev = [] then DNull else DList (map DText (ev_Methods ev))),
       (''success_n'', DInt (ev_SuccessN ev)), (''billable'', DBool (ev_Billable ev)),
       (''amount_cents'', DInt (ev_AmountCents ev)), (''transport'', DText (ev_Transport ev)),
       (''event_kind'', DText (ev_EventKind ev)), (''upstream'', DText (ev_Upstream ev)),
       (''latency_ms'', DInt (ev_LatencyMs ev)), (''client_ip'', DText (ev_ClientIP ev)),
       (''at'', DText (format_time (ev_At ev)))])"

lemma marshal_event_doc: "marshal_event ev = write_doc (event_doc ev)"
  by (simp add: marshal_event_def event_doc_def marshal_strings_def comp_def del: join.simps)

subsection \<open>Admin replies\<close>

definition by_key :: "string list \<Rightarrow> ('a \<Rightarrow> doc) \<Rightarrow> (string \<rightharpoonup> 'a) \<Rightarrow> doc" where
  "by_key ids f m = DObject (map (\<lambda>k. (k, f (the (m k)))) (sort (filter (\<lambda>k. m k \<noteq> None) ids)))"

definition metrics_doc :: "metrics \<Rightarrow> doc" where
  "metrics_doc m = DObject
     [(''requests'', DInt (sint (m_Requests m))), (''proxied'', DInt (sint (m_Proxied m))),
      (''success_calls'', DInt (sint (m_SuccessCalls m))), (''rpc_errors'', DInt (sint (m_RPCErrors m))),
      (''upstream_errors'', DInt (sint (m_UpstreamErrors m))), (''auth_failed'', DInt (sint (m_AuthFailed m))),
      (''method_denied'', DInt (sint (m_MethodDenied m))), (''rate_limited'', DInt (sint (m_RateLimited m))),
      (''domain_rejected'', DInt (sint (m_DomainRejected m))), (''billable_calls'', DInt (sint (m_BillableCalls m))),
      (''free_calls'', DInt (sint (m_FreeCalls m))), (''ws_connections'', DInt (sint (m_WSConnections m))),
      (''ws_notifications'', DInt (sint (m_WSNotifications m)))]"

definition token_doc :: "string list \<Rightarrow> token_snapshot \<Rightarrow> doc" where
  "token_doc ids sn = DObject
     ([(''token_key'', DText (sn_TokenKey sn))] @
      (if sn_TokenName sn = [] then [] else [(''token_name'', DText (sn_TokenName sn))]) @
      (if sn_Plan sn = [] then [] else [(''plan'', DText (sn_Plan sn))]) @
      [(''billing_free'', DBool (sn_BillingFree sn)), (''enabled'', DBool (sn_Enabled sn))] @
      (case sn_LastRequest sn of None \<Rightarrow> [] | Some t \<Rightarrow> [(''last_request_at'', DText (format_time t))]) @
      [(''metrics'', metrics_doc (sn_Metrics sn))] @
      (if list_all (\<lambda>k. sn_ByChain sn k = None) ids then []
       else [(''by_chain'', by_key ids metrics_doc (sn_ByChain sn))]))"

definition overview_doc :: "string list \<Rightarrow> overview \<Rightarrow> doc" where
  "overview_doc ids ov = DObject
     [(''generated_at'', DText (format_time (ov_GeneratedAt ov))), (''total'', metrics_doc (ov_Total ov)),
      (''token_count'', DInt (ov_TokenCount ov)), (''tokens'', DList (map (token_doc ids) (ov_Tokens ov)))]"

definition node_doc :: "node_view \<Rightarrow> doc" where
  "node_doc v = DObject
     [(''name'', DText (nv_Name v)), (''url'', DText (nv_URL v)), (''ws_url'', DText (nv_WSURL v)),
      (''weight'', DInt (nv_Weight v)), (''healthy'', DBool (nv_Healthy v))]"

definition chains_doc :: "string list \<Rightarrow> (string \<rightharpoonup> node_view list) \<Rightarrow> doc" where
  "chains_doc ids m = by_key ids (\<lambda>vs. DList (map node_doc vs)) m"

fun admin_doc :: "string list \<Rightarrow> admin_body \<Rightarrow> doc" where
  "admin_doc ids (AError e) = DObject [(''error'', DText e)]"
| "admin_doc ids (AOverview ov) = overview_doc ids ov"
| "admin_doc ids (AList t n ts) = DObject
     [(''generated_at'', DText (format_time t)), (''token_count'', DInt n), (''tokens'', DList (map (token_doc ids) ts))]"
| "admin_doc ids (AToken sn) = token_doc ids sn"
| "admin_doc ids (AChains m) = DObject
     [(''chains'', chains_doc ids m),
      (''note'', DText ''networks(chain ids) are fixed at startup; only nodes inside each chain can be scaled'')]"
| "admin_doc ids (AReloaded m) = DObject [(''chains'', chains_doc ids m), (''ok'', DBool True)]"

text \<open>The encoder ends a document with a newline.\<close>

fun writeJSON :: "string list \<Rightarrow> admin_reply \<Rightarrow> reply" where
  "writeJSON ids (AdminReply st body) =
     Reply st ''application/json'' (write_doc (admin_doc ids body) @ [CHR 0x0A])"
| "writeJSON ids AdminPanic = Panic"

text \<open>An admin request from the router's handler to the bytes of the reply.\<close>

definition admin_serve ::
  "string list \<Rightarrow> admin_env \<Rightarrow> 's jwt_store_ops \<Rightarrow> admin_handler \<Rightarrow> admin_route \<Rightarrow> request \<Rightarrow> 's
    \<Rightarrow> ('l, 'r, 'z) gateway_scheme \<Rightarrow> reply \<times> ('l, 'r, 'z) gateway_scheme" where
  "admin_serve ids ae ops h route r s w =
     (case Routes ae ops h route r s w of (x, w) \<Rightarrow> (writeJSON ids x, w))"

subsection \<open>The documents are readable\<close>

lemma max_depth_simps [simp]: "0 < max_depth" "Suc 0 < max_depth" "2 < max_depth" "3 < max_depth" "4 < max_depth" "5 < max_depth"
  by (simp_all add: max_depth_def)

lemma list_all_mapped [simp]: "list_all (\<lambda>(k, t). P t) (map (\<lambda>k. (k, g k)) ks) \<longleftrightarrow> (\<forall>k \<in> set ks. P (g k))"
  by (simp add: list_all_iff)

lemma shallow_event: "shallow 0 (event_doc ev)"
  by (simp add: event_doc_def list_all_iff)

lemma shallow_metrics [simp]: "d < max_depth \<Longrightarrow> shallow d (metrics_doc m)"
  by (simp add: metrics_doc_def)

lemma shallow_by_key [simp]: "d < max_depth \<Longrightarrow> (\<And>x. shallow (Suc d) (f x)) \<Longrightarrow> shallow d (by_key ids f m)"
  by (simp add: by_key_def)

lemma shallow_token: "Suc (Suc d) < max_depth \<Longrightarrow> shallow d (token_doc ids sn)"
  by (simp add: token_doc_def split: option.split)

lemma shallow_chains: "Suc (Suc d) < max_depth \<Longrightarrow> shallow d (chains_doc ids m)"
  by (simp add: chains_doc_def node_doc_def list_all_iff)

lemma shallow_admin: "shallow 0 (admin_doc ids body)"
  by (cases body) (simp_all add: overview_doc_def list_all_iff shallow_token shallow_chains max_depth_def)

lemma nl_only [simp]: "skip_ws [] = []" "skip_ws [CHR 0x0A] = []"
  by (simp_all add: skip_ws_def is_ws_def)

lemma parse_event: "map_option bare (parse_json (marshal_event ev)) = Some (doc_value (event_doc ev))"
  using parse_written [OF shallow_event, of ev "[]"] by (simp add: marshal_event_doc) (simp add: event_doc_def)

lemma parse_admin:
  "map_option bare (parse_json (write_doc (admin_doc ids body) @ [CHR 0x0A])) = Some (doc_value (admin_doc ids body))"
proof (rule parse_written [OF shallow_admin])
  show "\<forall>i. admin_doc ids body \<noteq> DInt i" by (cases body) (simp_all add: overview_doc_def token_doc_def)
qed simp

text \<open>The text does not depend on the order in which a map is visited.\<close>

lemma by_key_order:
  assumes "distinct ids" "distinct ids'" "dom m \<subseteq> set ids" "dom m \<subseteq> set ids'"
  shows "by_key ids f m = by_key ids' f m"
proof -
  have s: "sort (filter (\<lambda>k. m k \<noteq> None) ids) = sort (filter (\<lambda>k. m k \<noteq> None) ids')"
    using assms by (intro sorted_distinct_set_unique) auto
  show ?thesis unfolding by_key_def s ..
qed

subsection \<open>Numbers are read exactly\<close>

definition decimal :: "string \<Rightarrow> nat" where
  "decimal = foldl (\<lambda>a c. 10 * a + (byte c - 48)) 0"

lemma decimal_show: "decimal (show_nat n) = n"
proof (induction n rule: show_nat.induct)
  case (1 n)
  then show ?case
    using digit_byte [of n] digit_byte [of "n mod 10"] by (subst show_nat.simps) (simp add: decimal_def)
qed

lemma show_nat_inject [simp]: "show_nat m = show_nat n \<longleftrightarrow> m = n"
  by (metis decimal_show)

lemma show_int_inject [simp]: "show_int i = show_int j \<longleftrightarrow> i = j"
proof -
  have "show_nat n \<noteq> CHR ''-'' # s" for n s
    using show_nat_digits [of n] by (cases "show_nat n") (auto simp: is_digit_def Let_def)
  then have "show_nat n \<noteq> CHR ''-'' # s" "CHR ''-'' # s \<noteq> show_nat n" for n s by metis+
  then show ?thesis by (auto simp: show_int_def)
qed

subsection \<open>Members\<close>

fun member :: "string \<Rightarrow> jval \<Rightarrow> jval option" where
  "member k (JObj ms r) = map_of ms k"
| "member k v = None"

lemma event_names:
  "coerce_utf8 ''event_id'' = ''event_id''" "coerce_utf8 ''token_key'' = ''token_key''" "coerce_utf8 ''token_name'' = ''token_name''"
  "coerce_utf8 ''user_id'' = ''user_id''" "coerce_utf8 ''plan'' = ''plan''" "coerce_utf8 ''chain_id'' = ''chain_id''"
  "coerce_utf8 ''methods'' = ''methods''" "coerce_utf8 ''success_n'' = ''success_n''" "coerce_utf8 ''billable'' = ''billable''"
  "coerce_utf8 ''amount_cents'' = ''amount_cents''" "coerce_utf8 ''transport'' = ''transport''"
  "coerce_utf8 ''event_kind'' = ''event_kind''" "coerce_utf8 ''upstream'' = ''upstream''"
  "coerce_utf8 ''latency_ms'' = ''latency_ms''" "coerce_utf8 ''client_ip'' = ''client_ip''" "coerce_utf8 ''at'' = ''at''"
  by (rule coerce_ascii, code_simp)+

lemma report_names:
  "coerce_utf8 ''billing_free'' = ''billing_free''" "coerce_utf8 ''enabled'' = ''enabled''"
  "coerce_utf8 ''last_request_at'' = ''last_request_at''" "coerce_utf8 ''metrics'' = ''metrics''"
  "coerce_utf8 ''by_chain'' = ''by_chain''" "coerce_utf8 ''generated_at'' = ''generated_at''"
  "coerce_utf8 ''total'' = ''total''" "coerce_utf8 ''token_count'' = ''token_count''" "coerce_utf8 ''tokens'' = ''tokens''"
  by (rule coerce_ascii, code_simp)+

text \<open>What every event tells its reader: texts with invalid UTF-8 replaced, the time as it is written.\<close>

definition readable :: "billing_event \<Rightarrow> billing_event \<times> string" where
  "readable ev =
     (ev\<lparr>ev_EventID := coerce_utf8 (ev_EventID ev), ev_TokenKey := coerce_utf8 (ev_TokenKey ev),
         ev_TokenName := coerce_utf8 (ev_TokenName ev), ev_UserID := coerce_utf8 (ev_UserID ev),
         ev_Plan := coerce_utf8 (ev_Plan ev), ev_ChainID := coerce_utf8 (ev_ChainID ev),
         ev_Methods := map coerce_utf8 (ev_Methods ev), ev_Transport := coerce_utf8 (ev_Transport ev),
         ev_EventKind := coerce_utf8 (ev_EventKind ev), ev_Upstream := coerce_utf8 (ev_Upstream ev),
         ev_ClientIP := coerce_utf8 (ev_ClientIP ev), ev_At := 0\<rparr>,
      coerce_utf8 (format_time (ev_At ev)))"

text \<open>The user's identifier and the methods, either of which may be missing.\<close>

lemma user_value:
  "(if s = [] then None else Some (JStr (coerce_utf8 s) [])) = (if s' = [] then None else Some (JStr (coerce_utf8 s') [])) \<Longrightarrow>
     coerce_utf8 s = coerce_utf8 s'"
  by (auto split: if_splits)

lemma methods_value:
  "doc_value (if xs = [] then DNull else DList (map DText xs)) = doc_value (if ys = [] then DNull else DList (map DText ys)) \<Longrightarrow>
     map coerce_utf8 xs = map coerce_utf8 ys"
proof -
  assume eq: "doc_value (if xs = [] then DNull else DList (map DText xs)) = doc_value (if ys = [] then DNull else DList (map DText ys))"
  define f where "f v = (case v of JArr vs r \<Rightarrow> map (\<lambda>v. case v of JStr s r \<Rightarrow> s | _ \<Rightarrow> []) vs | _ \<Rightarrow> [])" for v
  have "f (doc_value (if xs = [] then DNull else DList (map DText xs))) = map coerce_utf8 xs" for xs
    by (simp add: f_def comp_def)
  with arg_cong [OF eq, of f] show ?thesis by simp
qed

lemma event_members:
  "member ''user_id'' (doc_value (event_doc ev)) = (if ev_UserID ev = [] then None else Some (JStr (coerce_utf8 (ev_UserID ev)) []))"
  "member ''event_id'' (doc_value (event_doc ev)) = Some (JStr (coerce_utf8 (ev_EventID ev)) [])"
  "member ''token_key'' (doc_value (event_doc ev)) = Some (JStr (coerce_utf8 (ev_TokenKey ev)) [])"
  "member ''token_name'' (doc_value (event_doc ev)) = Some (JStr (coerce_utf8 (ev_TokenName ev)) [])"
  "member ''plan'' (doc_value (event_doc ev)) = Some (JStr (coerce_utf8 (ev_Plan ev)) [])"
  "member ''chain_id'' (doc_value (event_doc ev)) = Some (JStr (coerce_utf8 (ev_ChainID ev)) [])"
  "member ''methods'' (doc_value (event_doc ev)) = Some (doc_value (if ev_Methods ev = [] then DNull else DList (map DText (ev_Methods ev))))"
  "member ''success_n'' (doc_value (event_doc ev)) = Some (JNum (show_int (ev_SuccessN ev)))"
  "member ''billable'' (doc_value (event_doc ev)) = Some (JBool (ev_Billable ev))"
  "member ''amount_cents'' (doc_value (event_doc ev)) = Some (JNum (show_int (ev_AmountCents ev)))"
  "member ''transport'' (doc_value (event_doc ev)) = Some (JStr (coerce_utf8 (ev_Transport ev)) [])"
  "member ''event_kind'' (doc_value (event_doc ev)) = Some (JStr (coerce_utf8 (ev_EventKind ev)) [])"
  "member ''upstream'' (doc_value (event_doc ev)) = Some (JStr (coerce_utf8 (ev_Upstream ev)) [])"
  "member ''latency_ms'' (doc_value (event_doc ev)) = Some (JNum (show_int (ev_LatencyMs ev)))"
  "member ''client_ip'' (doc_value (event_doc ev)) = Some (JStr (coerce_utf8 (ev_ClientIP ev)) [])"
  "member ''at'' (doc_value (event_doc ev)) = Some (JStr (coerce_utf8 (format_time (ev_At ev))) [])"
  by (simp_all add: event_doc_def event_names)

lemma event_value_readable:
  assumes v: "doc_value (event_doc ev) = doc_value (event_doc ev')"
  shows "readable ev = readable ev'"
proof -
  note m = event_members [of ev, unfolded v, unfolded event_members [of ev']]
  from user_value [OF m(1) [symmetric]] methods_value [of "ev_Methods ev" "ev_Methods ev'"] m show ?thesis
    by (simp add: readable_def)
qed

subsection \<open>The members of a report\<close>

lemma metrics_value:
  "doc_value (metrics_doc m) = doc_value (metrics_doc m') \<Longrightarrow> m = m'"
  by (intro metrics.equality) (auto simp: metrics_doc_def intro: signed_word_eqI)

lemma token_members:
  "member ''metrics'' (doc_value (token_doc ids sn)) = Some (doc_value (metrics_doc (sn_Metrics sn)))"
  "member ''token_key'' (doc_value (token_doc ids sn)) = Some (JStr (coerce_utf8 (sn_TokenKey sn)) [])"
  "member ''enabled'' (doc_value (token_doc ids sn)) = Some (JBool (sn_Enabled sn))"
  by (simp_all add: token_doc_def event_names report_names split: option.split)

lemma token_value:
  assumes "doc_value (token_doc ids sn) = doc_value (token_doc ids' sn')"
  shows "sn_Metrics sn = sn_Metrics sn'" "coerce_utf8 (sn_TokenKey sn) = coerce_utf8 (sn_TokenKey sn')" "sn_Enabled sn = sn_Enabled sn'"
  using token_members [of ids sn, unfolded assms, unfolded token_members [of ids' sn']] by (auto dest: metrics_value)

text \<open>What the reader of an overview gets of each token.\<close>

definition report_of :: "token_snapshot \<Rightarrow> string \<times> bool \<times> metrics" where
  "report_of sn = (coerce_utf8 (sn_TokenKey sn), sn_Enabled sn, sn_Metrics sn)"

lemma tokens_value:
  "map (\<lambda>sn. doc_value (token_doc ids sn)) xs = map (\<lambda>sn. doc_value (token_doc ids' sn)) ys \<Longrightarrow> map report_of xs = map report_of ys"
  by (induction xs ys rule: list_induct2') (auto simp: report_of_def dest: token_value)

lemma overview_value:
  assumes "doc_value (overview_doc ids ov) = doc_value (overview_doc ids' ov')"
  shows "ov_Total ov = ov_Total ov' \<and> ov_TokenCount ov = ov_TokenCount ov' \<and>
    map report_of (ov_Tokens ov) = map report_of (ov_Tokens ov')"
  using assms by (auto simp: overview_doc_def report_names comp_def intro: metrics_value tokens_value)

subsection \<open>Order of maps\<close>

fun map_keys :: "admin_body \<Rightarrow> string set" where
  "map_keys (AError e) = {}"
| "map_keys (AOverview ov) = (\<Union>sn \<in> set (ov_Tokens ov). dom (sn_ByChain sn))"
| "map_keys (AList t n ts) = (\<Union>sn \<in> set ts. dom (sn_ByChain sn))"
| "map_keys (AToken sn) = dom (sn_ByChain sn)"
| "map_keys (AChains m) = dom m"
| "map_keys (AReloaded m) = dom m"

definition lists_keys :: "string list \<Rightarrow> admin_body \<Rightarrow> bool" where
  "lists_keys ids body \<longleftrightarrow> distinct ids \<and> map_keys body \<subseteq> set ids"

lemma token_doc_order:
  assumes "distinct ids" "distinct ids'" "dom (sn_ByChain sn) \<subseteq> set ids" "dom (sn_ByChain sn) \<subseteq> set ids'"
  shows "token_doc ids sn = token_doc ids' sn"
proof -
  have e: "list_all (\<lambda>k. sn_ByChain sn k = None) is \<longleftrightarrow> dom (sn_ByChain sn) = {}" if "dom (sn_ByChain sn) \<subseteq> set is" for "is"
    using that by (auto simp: list_all_iff dom_def)
  show ?thesis
    unfolding token_doc_def e [OF assms(3)] e [OF assms(4)] by_key_order [OF assms] ..
qed

lemma admin_doc_order:
  assumes "lists_keys ids body" "lists_keys ids' body"
  shows "admin_doc ids body = admin_doc ids' body"
proof -
  have d: "distinct ids" "distinct ids'" using assms by (simp_all add: lists_keys_def)
  have t: "token_doc ids sn = token_doc ids' sn" if "dom (sn_ByChain sn) \<subseteq> map_keys body" for sn
    using assms that by (intro token_doc_order [OF d]) (auto simp: lists_keys_def)
  have m: "chains_doc ids m = chains_doc ids' m" if "dom m \<subseteq> map_keys body" for m
    using assms that unfolding chains_doc_def by (intro by_key_order [OF d]) (auto simp: lists_keys_def)
  show ?thesis
  proof (cases body)
    case (AOverview ov)
    then have "map (token_doc ids) (ov_Tokens ov) = map (token_doc ids') (ov_Tokens ov)" by (intro map_cong [OF refl] t) auto
    then show ?thesis by (simp add: AOverview overview_doc_def)
  next
    case (AList tm n ts)
    then have "map (token_doc ids) ts = map (token_doc ids') ts" by (intro map_cong [OF refl] t) auto
    then show ?thesis by (simp add: AList)
  qed (simp_all add: t m)
qed

end
