(* ===== verification/Json_Docs_Spec.thy ===== *)
theory Json_Docs_Spec
  imports Json_Docs Admin_Spec Settlement
begin

section \<open>What readers of events and reports get\<close>

text \<open>
  The documents of Theory \<open>Json_Docs\<close> are what their readers find: the consumer of the Redis stream the
  event, the client of the admin API the value that the handler passes to the encoder.
\<close>

declare pval.simps [simp del] pelems.simps [simp del] pmems.simps [simp del] coerce_utf8.simps [simp del]

text \<open>
  C27: the stream carries the event. Publishing to the Redis stream either fails and changes nothing, or
  appends one entry, whose payload parses to the document of the event; and the payload determines the event: any
  event with this payload has the same numbers and flags, and the same texts up to the replacement of invalid UTF-8.
\<close>

theorem stream_payload_exact:
  "case Publish sv (RedisStreamPublisher key) ev w of
     (Some e, w') \<Rightarrow> w' = w
   | (None, w') \<Rightarrow> \<exists>payload. w' = w\<lparr>sk_stream := sk_stream w @ [(key, payload)]\<rparr> \<and>
       map_option bare (parse_json payload) = Some (doc_value (event_doc ev)) \<and>
       (\<forall>ev'. marshal_event ev' = payload \<longrightarrow> readable ev' = readable ev)"
proof -
  have r: "readable ev' = readable ev" if "marshal_event ev' = marshal_event ev" for ev'
  proof (rule event_value_readable)
    show "doc_value (event_doc ev') = doc_value (event_doc ev)"
      using parse_event [of ev'] unfolding that by (simp add: parse_event)
  qed
  show ?thesis
  proof (cases "sv_xadd sv")
    case None
    have run: "Publish sv (RedisStreamPublisher key) ev w = (None, w\<lparr>sk_stream := sk_stream w @ [(key, marshal_event ev)]\<rparr>)"
      by (simp add: None)
    show ?thesis unfolding run prod.case option.case using parse_event [of ev] r by blast
  qed simp
qed

text \<open>Two events whose texts differ only in bytes that are not UTF-8 have one payload, and one reading.\<close>

definition sample_broken_event :: "string \<Rightarrow> billing_event" where
  "sample_broken_event name =
     \<lparr>ev_EventID = ''e'', ev_TokenKey = ''demo'', ev_TokenName = name, ev_UserID = [], ev_Plan = ''free'',
      ev_ChainID = ''eth'', ev_Methods = [''eth_call''], ev_SuccessN = 1, ev_Billable = False, ev_AmountCents = 0,
      ev_Transport = ''http'', ev_EventKind = ''rpc'', ev_Upstream = ''http://a'', ev_LatencyMs = 3, ev_ClientIP = ''1.2.3.4'',
      ev_At = 0\<rparr>"

theorem stream_payload_exact_witness:
  "\<exists>payload. snd (Publish sample_services (RedisStreamPublisher ''k'') (sample_broken_event [CHR 0xFF]) empty_sinks) =
      empty_sinks\<lparr>sk_stream := [(''k'', payload)]\<rparr> \<and>
    map_option bare (parse_json payload) = Some (doc_value (event_doc (sample_broken_event [CHR 0xFF]))) \<and>
    readable (sample_broken_event [CHR 0xFE]) = readable (sample_broken_event [CHR 0xFF])"
proof -
  have q: "json_quote [CHR 0xFE] = json_quote [CHR 0xFF]" by code_simp
  have "marshal_event (sample_broken_event [CHR 0xFE]) = marshal_event (sample_broken_event [CHR 0xFF])"
    by (simp add: marshal_event_def sample_broken_event_def q del: join.simps)
  moreover have "sv_xadd sample_services = None" "sk_stream empty_sinks = []"
    by (simp_all add: sample_services_def empty_sinks_def)
  ultimately have same: "marshal_event (sample_broken_event [CHR 0xFE]) = marshal_event (sample_broken_event [CHR 0xFF])"
    and run: "Publish sample_services (RedisStreamPublisher ''k'') (sample_broken_event [CHR 0xFF]) empty_sinks =
      (None, empty_sinks\<lparr>sk_stream := [(''k'', marshal_event (sample_broken_event [CHR 0xFF]))]\<rparr>)"
    by simp_all
  from stream_payload_exact [where sv = sample_services and key = "''k''" and ev = "sample_broken_event [CHR 0xFF]" and w = empty_sinks]
  obtain payload where p: "empty_sinks\<lparr>sk_stream := [(''k'', marshal_event (sample_broken_event [CHR 0xFF]))]\<rparr> =
      empty_sinks\<lparr>sk_stream := sk_stream empty_sinks @ [(''k'', payload)]\<rparr>"
    "map_option bare (parse_json payload) = Some (doc_value (event_doc (sample_broken_event [CHR 0xFF])))"
    "\<forall>ev'. marshal_event ev' = payload \<longrightarrow> readable ev' = readable (sample_broken_event [CHR 0xFF])"
    unfolding run prod.case option.case by blast
  have e: "payload = marshal_event (sample_broken_event [CHR 0xFF])"
    using arg_cong [OF p(1), of sk_stream] by simp
  have "readable (sample_broken_event [CHR 0xFE]) = readable (sample_broken_event [CHR 0xFF])"
    using p(3) same unfolding e by blast
  with p(2) show ?thesis unfolding run snd_conv e by blast
qed

text \<open>
  C28: admin replies are read as they were meant. A reply of the admin API is JSON that parses to the document of
  the value that the handler passes, the same bytes in whatever order the maps are visited; and an overview
  determines its counters: any other overview with this text has the same totals, the same number of tokens,
  and for each token the same key up to the replacement of invalid UTF-8, state and counters.
\<close>

theorem admin_reply_exact:
  assumes "Routes ae ops h route r s w = (AdminReply st body, w')" "lists_keys ids body" "lists_keys ids' body"
  shows "\<exists>txt. admin_serve ids ae ops h route r s w = (Reply st ''application/json'' txt, w') \<and>
    admin_serve ids' ae ops h route r s w = (Reply st ''application/json'' txt, w') \<and>
    map_option bare (parse_json txt) = Some (doc_value (admin_doc ids body)) \<and>
    (\<forall>ov ov' ks. body = AOverview ov \<longrightarrow> writeJSON ks (AdminReply st (AOverview ov')) = Reply st ''application/json'' txt \<longrightarrow>
       ov_Total ov' = ov_Total ov \<and> ov_TokenCount ov' = ov_TokenCount ov \<and>
       map report_of (ov_Tokens ov') = map report_of (ov_Tokens ov))"
proof -
  let ?txt = "write_doc (admin_doc ids body) @ [CHR 0x0A]"
  have v: "ov_Total ov' = ov_Total ov \<and> ov_TokenCount ov' = ov_TokenCount ov \<and>
      map report_of (ov_Tokens ov') = map report_of (ov_Tokens ov)"
    if "body = AOverview ov" "write_doc (admin_doc ks (AOverview ov')) @ [CHR 0x0A] = ?txt" for ov ov' ks
  proof (rule overview_value)
    show "doc_value (overview_doc ks ov') = doc_value (overview_doc ids ov)"
      using parse_admin [of ks "AOverview ov'"] parse_admin [of ids body] unfolding that(2) by (auto simp: that(1))
  qed
  then have "\<forall>ov ov' ks. body = AOverview ov \<longrightarrow> writeJSON ks (AdminReply st (AOverview ov')) = Reply st ''application/json'' ?txt \<longrightarrow>
      ov_Total ov' = ov_Total ov \<and> ov_TokenCount ov' = ov_TokenCount ov \<and>
      map report_of (ov_Tokens ov') = map report_of (ov_Tokens ov)" unfolding writeJSON.simps reply.inject by blast
  moreover have "admin_serve is ae ops h route r s w = (Reply st ''application/json'' ?txt, w')" if "is = ids \<or> is = ids'" for "is"
    using that assms(1) admin_doc_order [OF assms(2,3)] by (auto simp: admin_serve_def)
  ultimately show ?thesis using parse_admin [of ids body] by blast
qed

text \<open>The overview of the sample gateway, for a client with the newest token.\<close>

theorem admin_reply_exact_witness:
  "let ae = sample_admin_env\<lparr>ae_now := 6000000000, ae_parse := sample_parse\<rparr>
   in \<exists>txt ov. admin_serve [''eth''] ae (postgres_ops no_faults) (new_admin sample_admin_config ''config.yaml'') GetStats
       (bearer_request ''tnew'') [(sample_row ''old'' 0)\<lparr>jr_Revoked := True\<rparr>, sample_row ''new'' 5000000000] sample_http =
     (Reply 200 ''application/json'' txt, snd (overview_report ae sample_http)) \<and>
    fst (overview_report ae sample_http) = AdminReply 200 (AOverview ov) \<and>
    map_option bare (parse_json txt) = Some (doc_value (overview_doc [''eth''] ov))"
proof -
  let ?ae = "sample_admin_env\<lparr>ae_now := 6000000000, ae_parse := sample_parse\<rparr>"
  let ?db = "[(sample_row ''old'' 0)\<lparr>jr_Revoked := True\<rparr>, sample_row ''new'' 5000000000]"
  let ?h = "new_admin sample_admin_config ''config.yaml''"
  define ov where "ov = fst (Snapshot (ae_now ?ae) (ListMeta (ae_store_order ?ae) (gw_tokens sample_http)) (ae_stats_order ?ae) NewCollector)"
  have ov: "fst (overview_report ?ae sample_http) = AdminReply 200 (AOverview ov)"
    by (simp add: overview_report_def on_collector_def sample_http_def ov_def split: prod.split)
  then have "Routes ?ae (postgres_ops no_faults) ?h GetStats (bearer_request ''tnew'') ?db sample_http =
      (AdminReply 200 (AOverview ov), snd (overview_report ?ae sample_http))"
    using sample_admitted by (simp add: Routes_def admin_dispatch_def prod_eq_iff)
  moreover have "lists_keys [''eth''] (AOverview ov)"
    by (simp add: lists_keys_def ov_def Snapshot_def sample_admin_env_def sample_http_def ListMeta_def sample_store_def
        RegisterTokens_def NewCollector_def ensureToken_def meta_of_def token_view_def List.map_filter_def)
  ultimately show ?thesis
    using admin_reply_exact [of ?ae "postgres_ops no_faults" ?h GetStats "bearer_request ''tnew''" ?db sample_http 200 "AOverview ov"
        "snd (overview_report ?ae sample_http)" "[''eth'']" "[''eth'']"] ov
    by (auto simp: Let_def)
qed

end
