(* ===== verification/Spec2Isabelle.thy ===== *)
theory Spec2Isabelle
  imports
    Balancer_Rotation Balancer_Health Balancer_Registry
    Stats Ratelimit_Bound Ratelimit_Spec
    Config_Spec Auth_Spec Billing_Spec
    Admin_Jwt_Spec Admin_Spec
    Jsonrpc_Spec Json_Roundtrip
    Proxy_Spec Wsproxy_Spec
    Gateway_Spec Gateway_Access
    Startup Background
    Flight_Spec Flight_Inv Flight_Quota
    Settlement Json_Docs_Spec
begin

text \<open>
  This library models the RPC node gateway, a server in Go that sits between clients and the nodes of
  several blockchain networks. A client sends JSON-RPC to \<open>/{token}/<network>\<close>, by HTTP or over a
  WebSocket. The gateway checks the host, looks the token up, filters the methods, limits the rate
  and the daily quota, forwards the body to a node chosen by weighted round robin, counts the
  successes in the reply, and bills them.

  The parts, the theories that model them, and what is proved.

  \<^item> \<open>internal/config\<close>: \<open>Config\<close> has the structs, the defaults, the validation and the host check, with
    the file system and the YAML decoder as arguments. \<open>Config_Spec\<close>: every configuration that loads is
    serviceable, and the host check compares names.

  \<^item> \<open>internal/auth\<close> and the token query of \<open>internal/db\<close>: \<open>Auth\<close>. A store is a map from keys to
    tokens, a database two lists of rows. The locale \<open>token_source\<close> in \<open>Auth_Spec\<close> is what authentication
    relies on; a refresh mirrors the tables or keeps the old cache.

  \<^item> \<open>internal/balancer\<close>: \<open>Balancer\<close>. Nodes are shared by pointer between pools and the requests that hold them, so they live on a
    heap, and a pool is a list of addresses and a counter. \<open>Balancer_Rotation\<close> shows that the
    rotation is fair, \<open>Balancer_Health\<close> that the health counters refine an abstract machine (locale), and \<open>Balancer_Registry\<close>
    has the step relation of a registry with its reachable states and what a reload replaces.

  \<^item> \<open>internal/ratelimit\<close>: \<open>Ratelimit\<close>. Redis and \<open>x/time/rate\<close> are records of operations; the Lua
    script is a function of the stored bucket. \<open>Ratelimit_Bound\<close> bounds what the script lets through,
    \<open>Ratelimit_Spec\<close> states the verdicts, the quota and the daily counts.

  \<^item> \<open>internal/stats\<close>: \<open>Stats\<close>, all counters as 64-bit words, and that they balance.

  \<^item> \<open>internal/jsonrpc\<close>: \<open>Json\<close> is \<open>encoding/json\<close> on bytes, \<open>Jsonrpc\<close> the readers of requests, responses
    and notifications; \<open>Jsonrpc_Spec\<close> characterises them over parsed values. The parser takes fuel, \<open>2 n + 2\<close> for \<open>n\<close> bytes; the lemma \<open>parse_json_fuel\<close> in \<open>Json_Lemmas\<close> shows that more
    fuel never changes a result. \<open>Json_Roundtrip\<close>: what the encoder writes, the parser reads back.

  \<^item> \<open>internal/billing\<close> and the billing queries of \<open>internal/db\<close>: \<open>Billing\<close>, the choice of sinks and the
    transaction that inserts an event and adds to the usage; \<open>Billing_Spec\<close>: redelivery never bills
    twice and usage reconciles with the events.

  \<^item> \<open>internal/adminjwt\<close> and \<open>internal/admin\<close>: \<open>Admin_Jwt\<close> with the two stores behind one record of
    operations (the interface \<open>Store\<close>), and \<open>Admin\<close> with the routes. \<open>Admin_Jwt_Spec\<close> has the contract of a store
    as a locale that both satisfy; \<open>Admin_Spec\<close> says who gets in and what a reload does.

  \<^item> \<open>internal/middleware\<close>, \<open>filter\<close>, \<open>httputil\<close>, \<open>proxy\<close>: \<open>Http\<close>, \<open>Middleware\<close>, \<open>Proxy\<close>. A handler is a
    function from a request and the gateway's state to a reply and a state, a middleware a function
    from handlers to handlers. What varies from call to call and is not the gateway's own (clock,
    random ids, Redis, upstreams) is the record \<open>env\<close>.

  \<^item> \<open>internal/wsproxy\<close>: \<open>Wsproxy\<close>, the connection guard and the sessions. The pumps of a session are
    steps on one message; \<open>Wsproxy_Spec\<close> has the guard as a locale, and what a message does to the wire
    and to the books.

  \<^item> \<open>cmd/gateway\<close>: \<open>Gateway\<close>, the state, the stacks of middleware, and the step relation \<open>gw_step\<close> of the
    running gateway, whose steps are requests, handshakes, messages, probes, refreshes, reloads and
    admin requests in any order and with any environment. \<open>Books\<close>, \<open>Gateway_Spec\<close> and \<open>Gateway_Access\<close>
    prove the properties of all reachable states: nothing unchecked is forwarded, no request panics,
    counters, daily use and billing events agree, no token has more connections than configured,
    and revoked tokens are refused.

  \<^item> \<open>internal/db/postgres.go\<close>, \<open>internal/store/redis.go\<close> and \<open>main\<close>: \<open>Connections\<close> opens and closes the two clients,
    whose libraries are records of calls. \<open>Startup\<close> is the program from the configuration to the deferred
    closes, with its exits, its routes and its loop over signals: a start that succeeds gives a state of the
    step relation, and a shutdown leaves no connection open.

  \<^item> Loops: \<open>Loop\<close> has the loop that ends by a return, as a partial function, and the loop over a ticker.
    \<open>Background\<close> has its instances, the health checks, the refresh, the rotation and the WebSocket
    session. They end when the context is done or a peer is gone, they stay within the reachable
    states, and the health checks crash exactly on a negative interval.

  \<^item> Interleaving: \<open>Flight\<close> cuts a JSON-RPC request into stages with one operation on the shared state
    each, and \<open>live_step\<close> lets the stages of any number of requests interleave with each other and with all steps
    of \<open>gw_step\<close>. \<open>Flight_Spec\<close>: the stages without interruption are the handler, and there are at most 13.
    \<open>Flight_Inv\<close>: under any interleaving no stage panics, only cleared bodies are forwarded, and
    the books balance up to what the requests in flight hold. \<open>Flight_Quota\<close>: how far concurrent requests
    can exceed the daily quota, and that they do.

  \<^item> \<open>Settlement\<close> joins the gateway with the publisher: the ledger in PostgreSQL, the statistics and the
    daily use differ by the publications that failed or are to come.

  \<^item> \<open>Json_Write\<close>, \<open>Json_Docs\<close>: JSON documents as trees, their text, and that the parser reads the tree back; the
    documents of billing events and of all admin replies, from the struct tags. \<open>Json_Docs_Spec\<close>: what the
    consumer of the stream and the client of the admin API read is what was meant.

  The records \<open>gateway\<close> and \<open>ws_gateway\<close> are the state: the token store, the registry, the limiter, the
  collector, the log of billing events handed to the publisher, the log of calls forwarded upstream, and for WebSockets the
  guard and the table of sessions. Go's \<open>int\<close> is 64 bits wide and wraps around (\<open>wrap64\<close>); the health counters are \<open>int32\<close>. Errors are
  values of sums or options, and a runtime panic is a constructor of the result.

  Bounds. The parser's fuel is \<open>2 n + 2\<close>, which \<open>parse_json_fuel\<close> shows to be enough. Loops have no fuel: what
  they return is stated for every turn at which they can end. Sums over counters are taken modulo the width
  of the counters; the bounds on the quota ask that the quota and the overshoot fit in 64 bits.

  Not modelled. Log lines, and the command line. The HTTP server with the failure of its listener, the router with its own
  middleware, and the WebSocket library, except for the outcome of their calls; the drivers of Redis and
  PostgreSQL, except for the outcome of theirs. The goroutine that publishes a billing event is in \<open>Settlement\<close> a publication at any later
  time; in \<open>gw_step\<close> and \<open>live_step\<close> the log of events has what is handed to it. Interleaving is at the
  operations on the shared state: the limiter's \<open>Allow\<close>, which reads the daily count and then the buckets,
  is one of them, and so are one message of a WebSocket session and one handshake.
\<close>

end
